theory Spec2Isabelle
  imports Complex_Main
begin

section \<open>The Vortex particle field\<close>

text \<open>
  A shallow embedding of the particle animation of the \<open>Vortex\<close> component
  (\<^verbatim>\<open>src/unnamed/part_000\<close>).

  Numbers. The code computes in IEEE 754 binary64 and keeps the fields of the particles
  in a \<^verbatim>\<open>Float32Array\<close>, which rounds every store to binary32. The theory reads the code
  in two ways.

  In the first reading (the operations \<open>initParticle\<close>, \<open>updateParticle\<close>, ..., \<open>simulate\<close>)
  a number is a mathematical real and no operation rounds. The one operation of the
  source that yields \<open>NaN\<close> on finite input, the division and remainder by zero inside
  \<open>fadeInOut\<close>, returns \<open>None\<close>. The statements C1, C3, C7, C8 and C9, on which particles
  a frame respawns, on what a resize touches, on the length of the buffer, on the sign
  of the lifetimes and on the bound of the end-to-end scenario, are made on this
  reading.

  In the second reading (the operations \<open>fl_initParticle\<close>, \<open>fl_updateParticle\<close>, ...,
  \<open>fl_simulate\<close> and the helpers \<open>fadeInOut64\<close>, \<open>lerp64\<close>, \<open>rand64\<close>) every operator of
  the source is followed by the rounding to the nearest binary64 value, ties to even,
  and every store into the buffer by the rounding to binary32. The statements C2, C4,
  C5, C6 and C10, whose truth depends on the rounding, are made on this reading.
  Infinities are not values of the model: the statements about runs assume props of
  magnitude at most \<open>2\<^sup>1\<^sup>0\<^sup>0\<close>, with which no operation overflows.

  Randomness and time. \<^verbatim>\<open>Math.random()\<close> is a stream \<open>rnd :: nat \<Rightarrow> real\<close>
  given from outside: \<open>rnd n\<close> is what the call number \<open>n\<close> made by the effect and its
  frames returns. The state keeps the number \<open>randCalls\<close> of calls made so far.
  \<^verbatim>\<open>Date.now()\<close> is an argument of the operation that reads it.
  The noise function that \<^verbatim>\<open>createNoise3D()\<close> of the \<^verbatim>\<open>simplex-noise\<close> package returns
  is a parameter \<open>noise3D\<close>. In the second reading the noise function, \<^verbatim>\<open>Math.cos\<close>,
  \<^verbatim>\<open>Math.sin\<close> and the random stream are the fields of a record \<open>host\<close>.

  Drawing. Of the 2D context the model keeps the strokes of the current frame; the
  compositing and the filter of the glow pass, the scheduling of frames by
  \<^verbatim>\<open>requestAnimationFrame\<close> and the teardown of the effect are not modelled.
\<close>

subsection \<open>Props, constants and helpers\<close>

text \<open>
  The props of the component that the animation reads. \<open>particleCount\<close> is a count
  (a typed array cannot be allocated with a negative length).
\<close>

record VortexProps =
  particleCount :: nat
  rangeY :: real
  baseSpeed :: real
  rangeSpeed :: real
  baseRadius :: real
  rangeRadius :: real
  baseHue :: real

definition defaultProps :: VortexProps where
  "defaultProps = \<lparr> particleCount = 2000, rangeY = 400, baseSpeed = 0, rangeSpeed = 3/2,
     baseRadius = 1, rangeRadius = 2, baseHue = 220 \<rparr>"

definition particlePropCount :: nat where
  "particlePropCount = 9"

definition particlePropsLength :: "VortexProps \<Rightarrow> nat" where
  "particlePropsLength P = particleCount P * particlePropCount"

definition baseTTL :: real where "baseTTL = 50"
definition rangeTTL :: real where "rangeTTL = 150"
definition rangeHue :: real where "rangeHue = 100"
definition noiseSteps :: real where "noiseSteps = 3"
definition xOff :: real where "xOff = 125 / 100000"
definition yOff :: real where "yOff = 125 / 100000"
definition zOff :: real where "zOff = 5 / 10000"
definition TAU :: real where "TAU = 2 * pi"
definition COLOR_CHANGE_INTERVAL :: int where "COLOR_CHANGE_INTERVAL = 20000"
definition TRANSITION_SPEED :: real where "TRANSITION_SPEED = 2 / 100"

text \<open>\<open>rand\<close> and \<open>randRange\<close> take the value \<open>u\<close> that \<^verbatim>\<open>Math.random()\<close> returned.\<close>

definition rand :: "real \<Rightarrow> real \<Rightarrow> real" where
  "rand u n = n * u"

definition randRange :: "real \<Rightarrow> real \<Rightarrow> real" where
  "randRange u n = n - (n * u * 2)"

text \<open>
  The remainder operator \<^verbatim>\<open>%\<close> of JavaScript truncates the quotient towards zero,
  so the result has the sign of the dividend. It is used with a divisor other than 0.
\<close>

definition js_trunc :: "real \<Rightarrow> int" where
  "js_trunc q = (if 0 \<le> q then \<lfloor>q\<rfloor> else \<lceil>q\<rceil>)"

definition js_rem :: "real \<Rightarrow> real \<Rightarrow> real" where
  "js_rem a b = a - b * of_int (js_trunc (a / b))"

text \<open>\<open>fadeInOut\<close>: \<open>None\<close> stands for the \<open>NaN\<close> that \<open>m = 0\<close> produces.\<close>

definition fadeInOut :: "real \<Rightarrow> real \<Rightarrow> real option" where
  "fadeInOut t m =
     (let hm = (1/2) * m
      in if hm = 0 then None else Some (\<bar>js_rem (t + hm) m - hm\<bar> / hm))"

definition lerp :: "real \<Rightarrow> real \<Rightarrow> real \<Rightarrow> real" where
  "lerp n1 n2 speed = (1 - speed) * n1 + speed * n2"

definition getNextColor :: "real \<Rightarrow> real" where
  "getNextColor u = of_int \<lfloor>u * 360\<rfloor>"

subsection \<open>State\<close>

text \<open>
  A stroke is what \<open>drawParticle\<close> sends to the 2D context: the segment, the hue and
  the alpha of \<^verbatim>\<open>strokeStyle\<close> and the line width. The alpha is \<open>None\<close> when it is
  \<open>NaN\<close>.
\<close>

record stroke =
  moveTo :: "real \<times> real"
  lineTo :: "real \<times> real"
  strokeHue :: real
  strokeAlpha :: "real option"
  lineWidth :: real

text \<open>
  The state of one mounted effect: the particle buffer, the three refs of the colour
  transition, the canvas size, the centre, the frame counter, the number of
  \<^verbatim>\<open>Math.random()\<close> calls made so far and the strokes of the current frame.
\<close>

record vortex =
  particleProps :: "real list"
  colorTransitionRef :: real
  targetColorRef :: real
  lastColorChangeRef :: int
  canvas_width :: nat
  canvas_height :: nat
  center :: "real \<times> real"
  tick :: nat
  randCalls :: nat
  strokes :: "stroke list"

text \<open>
  \<^verbatim>\<open>TypedArray.prototype.set(source, offset)\<close> throws a \<open>RangeError\<close> when the source
  does not fit: \<open>None\<close>.
\<close>

definition typed_set :: "real list \<Rightarrow> real list \<Rightarrow> nat \<Rightarrow> real list option" where
  "typed_set arr src offset =
     (if offset + length src \<le> length arr
      then Some (take offset arr @ src @ drop (offset + length src) arr)
      else None)"

subsection \<open>Operations\<close>

definition initParticle :: "VortexProps \<Rightarrow> (nat \<Rightarrow> real) \<Rightarrow> nat \<Rightarrow> vortex \<Rightarrow> vortex option" where
  "initParticle P rnd i s =
     (let r = randCalls s;
          x = rand (rnd r) (real (canvas_width s));
          y = snd (center s) + randRange (rnd (r + 1)) (rangeY P)
      in case typed_set (particleProps s)
             [x, y, 0, 0, 0,
              baseTTL + rand (rnd (r + 2)) rangeTTL,
              baseSpeed P + rand (rnd (r + 3)) (rangeSpeed P),
              baseRadius P + rand (rnd (r + 4)) (rangeRadius P),
              colorTransitionRef s + rand (rnd (r + 5)) rangeHue] i of
           None \<Rightarrow> None
         | Some arr \<Rightarrow> Some (s\<lparr>particleProps := arr, randCalls := r + 6\<rparr>))"

definition drawParticle ::
  "stroke list \<Rightarrow> real \<Rightarrow> real \<Rightarrow> real \<Rightarrow> real \<Rightarrow> real \<Rightarrow> real \<Rightarrow> real \<Rightarrow> real \<Rightarrow> stroke list" where
  "drawParticle ctx x y x2 y2 life ttl radius hue =
     (let alpha = fadeInOut life ttl
      in if (case alpha of None \<Rightarrow> False | Some a \<Rightarrow> a < 1/100) then ctx
         else ctx @ [\<lparr> moveTo = (x, y), lineTo = (x2, y2), strokeHue = hue,
                       strokeAlpha = alpha, lineWidth = radius \<rparr>])"

text \<open>
  The body of the loop of \<open>updateAndDrawParticles\<close> for the particle at offset \<open>i\<close>.
  Reading a typed array beyond its end gives \<^verbatim>\<open>undefined\<close>, which the arithmetic
  turns into \<open>NaN\<close>: the model returns \<open>None\<close> when the nine fields are not all inside
  the buffer.
\<close>

definition outOfBounds :: "vortex \<Rightarrow> real \<Rightarrow> real \<Rightarrow> bool" where
  "outOfBounds s x y \<longleftrightarrow>
     x < - 50 \<or> x > real (canvas_width s) + 50 \<or> y < - 50 \<or> y > real (canvas_height s) + 50"

definition updateParticle ::
  "VortexProps \<Rightarrow> (real \<Rightarrow> real \<Rightarrow> real \<Rightarrow> real) \<Rightarrow> (nat \<Rightarrow> real) \<Rightarrow> nat \<Rightarrow> vortex \<Rightarrow> vortex option" where
  "updateParticle P noise3D rnd i s =
     (let pp = particleProps s;
          i2 = 1 + i; i3 = 2 + i; i4 = 3 + i; i5 = 4 + i;
          i6 = 5 + i; i7 = 6 + i; i8 = 7 + i; i9 = 8 + i
      in if length pp \<le> i9 then None
         else
           let x = pp ! i; y = pp ! i2
           in if outOfBounds s x y then initParticle P rnd i s
              else
                let n = noise3D (x * xOff) (y * yOff) (real (tick s) * zOff) * noiseSteps * TAU;
                    vx = lerp (pp ! i3) (cos n) (1/2);
                    vy = lerp (pp ! i4) (sin n) (1/2);
                    speed = pp ! i7;
                    x2 = x + vx * speed;
                    y2 = y + vy * speed;
                    pp1 = (if \<bar>pp ! i9 - colorTransitionRef s\<bar> > 1
                           then pp[i9 := lerp (pp ! i9) (colorTransitionRef s) (1/10)]
                           else pp);
                    ctx = drawParticle (strokes s) x y x2 y2
                            (pp1 ! i5) (pp1 ! i6) (pp1 ! i8) (pp1 ! i9);
                    pp2 = pp1[i := x2, i2 := y2, i3 := vx, i4 := vy, i5 := pp1 ! i5 + 1];
                    s2 = s\<lparr>particleProps := pp2, strokes := ctx\<rparr>
                in if pp2 ! i5 > pp2 ! i6 then initParticle P rnd i s2 else Some s2)"

text \<open>The loop \<^verbatim>\<open>for (let i = 0; i < particlePropsLength; i += particlePropCount)\<close>.\<close>

function particleLoop ::
  "VortexProps \<Rightarrow> (real \<Rightarrow> real \<Rightarrow> real \<Rightarrow> real) \<Rightarrow> (nat \<Rightarrow> real) \<Rightarrow> nat \<Rightarrow> vortex \<Rightarrow> vortex option" where
  "particleLoop P noise3D rnd i s =
     (if i < particlePropsLength P
      then (case updateParticle P noise3D rnd i s of
              None \<Rightarrow> None
            | Some s' \<Rightarrow> particleLoop P noise3D rnd (i + particlePropCount) s')
      else Some s)"
  by pat_completeness auto
termination
  by (relation "measure (\<lambda>(P, noise3D, rnd, i, s). particlePropsLength P - i)")
     (auto simp: particlePropCount_def)

definition updateAndDrawParticles ::
  "VortexProps \<Rightarrow> (real \<Rightarrow> real \<Rightarrow> real \<Rightarrow> real) \<Rightarrow> (nat \<Rightarrow> real) \<Rightarrow> int \<Rightarrow> vortex \<Rightarrow> vortex option" where
  "updateAndDrawParticles P noise3D rnd currentTime s =
     (let s1 = (if currentTime - lastColorChangeRef s \<ge> COLOR_CHANGE_INTERVAL
                then s\<lparr>targetColorRef := getNextColor (rnd (randCalls s)),
                       randCalls := randCalls s + 1,
                       lastColorChangeRef := currentTime\<rparr>
                else s);
          s2 = s1\<lparr>colorTransitionRef :=
                    lerp (colorTransitionRef s1) (targetColorRef s1) TRANSITION_SPEED\<rparr>
      in particleLoop P noise3D rnd 0 s2)"

text \<open>
  \<open>draw\<close>: \<^verbatim>\<open>clearRect\<close> empties the frame, then the particles are drawn. The glow pass
  that follows composes the canvas onto itself and changes no state of the model.
\<close>

definition draw ::
  "VortexProps \<Rightarrow> (real \<Rightarrow> real \<Rightarrow> real \<Rightarrow> real) \<Rightarrow> (nat \<Rightarrow> real) \<Rightarrow> int \<Rightarrow> vortex \<Rightarrow> vortex option" where
  "draw P noise3D rnd now s = updateAndDrawParticles P noise3D rnd now (s\<lparr>strokes := []\<rparr>)"

definition animate ::
  "VortexProps \<Rightarrow> (real \<Rightarrow> real \<Rightarrow> real \<Rightarrow> real) \<Rightarrow> (nat \<Rightarrow> real) \<Rightarrow> int \<Rightarrow> vortex \<Rightarrow> vortex option" where
  "animate P noise3D rnd now s = draw P noise3D rnd now (s\<lparr>tick := tick s + 1\<rparr>)"

text \<open>\<open>resize\<close> with the window's \<^verbatim>\<open>innerWidth\<close> and \<^verbatim>\<open>innerHeight\<close>.\<close>

definition resize :: "nat \<Rightarrow> nat \<Rightarrow> vortex \<Rightarrow> vortex" where
  "resize innerWidth innerHeight s =
     s\<lparr>canvas_width := innerWidth, canvas_height := innerHeight,
       center := ((1/2) * real innerWidth, (1/2) * real innerHeight)\<rparr>"

text \<open>The loop of the effect that initialises every particle.\<close>

function initLoop :: "VortexProps \<Rightarrow> (nat \<Rightarrow> real) \<Rightarrow> nat \<Rightarrow> vortex \<Rightarrow> vortex option" where
  "initLoop P rnd i s =
     (if i < particlePropsLength P
      then (case initParticle P rnd i s of
              None \<Rightarrow> None
            | Some s' \<Rightarrow> initLoop P rnd (i + particlePropCount) s')
      else Some s)"
  by pat_completeness auto
termination
  by (relation "measure (\<lambda>(P, rnd, i, s). particlePropsLength P - i)")
     (auto simp: particlePropCount_def)

text \<open>
  The effect up to its call of \<open>animate\<close>: the buffer is allocated (zero-filled), the
  colour refs are set, \<open>resize\<close> runs once and every particle is initialised. \<open>now\<close> is
  what \<^verbatim>\<open>Date.now()\<close> returns. The effect does nothing when the canvas, the container or
  the 2D context is missing; that case has no state.
\<close>

definition mount :: "VortexProps \<Rightarrow> (nat \<Rightarrow> real) \<Rightarrow> int \<Rightarrow> nat \<Rightarrow> nat \<Rightarrow> vortex option" where
  "mount P rnd now innerWidth innerHeight =
     initLoop P rnd 0
       (resize innerWidth innerHeight
          \<lparr> particleProps = replicate (particlePropsLength P) 0,
            colorTransitionRef = baseHue P,
            targetColorRef = baseHue P,
            lastColorChangeRef = now,
            canvas_width = 0, canvas_height = 0,
            center = (0, 0),
            tick = 0,
            randCalls = 0,
            strokes = [] \<rparr>)"

text \<open>
  What happens to a mounted effect: an animation frame at a time, or a resize of the
  window. A run is the effect followed by a list of such events.
\<close>

datatype event = Frame int | Resize nat nat

fun handle ::
  "VortexProps \<Rightarrow> (real \<Rightarrow> real \<Rightarrow> real \<Rightarrow> real) \<Rightarrow> (nat \<Rightarrow> real) \<Rightarrow> event \<Rightarrow> vortex \<Rightarrow> vortex option" where
  "handle P noise3D rnd (Frame now) s = animate P noise3D rnd now s"
| "handle P noise3D rnd (Resize w h) s = Some (resize w h s)"

fun run ::
  "VortexProps \<Rightarrow> (real \<Rightarrow> real \<Rightarrow> real \<Rightarrow> real) \<Rightarrow> (nat \<Rightarrow> real) \<Rightarrow> event list \<Rightarrow> vortex \<Rightarrow> vortex option" where
  "run P noise3D rnd [] s = Some s"
| "run P noise3D rnd (e # es) s =
     (case handle P noise3D rnd e s of
        None \<Rightarrow> None
      | Some s' \<Rightarrow> run P noise3D rnd es s')"

definition simulate ::
  "VortexProps \<Rightarrow> (real \<Rightarrow> real \<Rightarrow> real \<Rightarrow> real) \<Rightarrow> (nat \<Rightarrow> real) \<Rightarrow> int \<Rightarrow> nat \<Rightarrow> nat \<Rightarrow> event list \<Rightarrow> vortex option" where
  "simulate P noise3D rnd now innerWidth innerHeight es =
     (case mount P rnd now innerWidth innerHeight of
        None \<Rightarrow> None
      | Some s \<Rightarrow> run P noise3D rnd es s)"

subsection \<open>Views of the buffer\<close>

text \<open>The fields of particle \<open>k\<close> in a buffer, in the order of the source.\<close>

definition p_x :: "real list \<Rightarrow> nat \<Rightarrow> real" where "p_x pp k = pp ! (9 * k)"
definition p_y :: "real list \<Rightarrow> nat \<Rightarrow> real" where "p_y pp k = pp ! (9 * k + 1)"
definition p_vx :: "real list \<Rightarrow> nat \<Rightarrow> real" where "p_vx pp k = pp ! (9 * k + 2)"
definition p_vy :: "real list \<Rightarrow> nat \<Rightarrow> real" where "p_vy pp k = pp ! (9 * k + 3)"
definition p_life :: "real list \<Rightarrow> nat \<Rightarrow> real" where "p_life pp k = pp ! (9 * k + 4)"
definition p_ttl :: "real list \<Rightarrow> nat \<Rightarrow> real" where "p_ttl pp k = pp ! (9 * k + 5)"
definition p_speed :: "real list \<Rightarrow> nat \<Rightarrow> real" where "p_speed pp k = pp ! (9 * k + 6)"
definition p_radius :: "real list \<Rightarrow> nat \<Rightarrow> real" where "p_radius pp k = pp ! (9 * k + 7)"
definition p_hue :: "real list \<Rightarrow> nat \<Rightarrow> real" where "p_hue pp k = pp ! (9 * k + 8)"

text \<open>\<^verbatim>\<open>Math.random()\<close> returns a number in \<open>[0, 1)\<close>.\<close>

definition random_source :: "(nat \<Rightarrow> real) \<Rightarrow> bool" where
  "random_source rnd \<longleftrightarrow> (\<forall>n. 0 \<le> rnd n \<and> rnd n < 1)"

subsection \<open>What one frame does to a particle\<close>

text \<open>
  \<open>same_env\<close>: two states agree on everything the loop body reads besides the buffer
  contents, the random position and the strokes. \<open>untouched\<close>: outside the nine fields
  of particle \<open>k\<close> the buffer is the same. \<open>sameSlot\<close>: the nine fields of particle \<open>k\<close>
  are the same.
\<close>

definition same_env :: "vortex \<Rightarrow> vortex \<Rightarrow> bool" where
  "same_env s t \<longleftrightarrow>
     colorTransitionRef t = colorTransitionRef s \<and> targetColorRef t = targetColorRef s \<and>
     lastColorChangeRef t = lastColorChangeRef s \<and> canvas_width t = canvas_width s \<and>
     canvas_height t = canvas_height s \<and> center t = center s \<and> tick t = tick s \<and>
     length (particleProps t) = length (particleProps s)"

definition untouched :: "real list \<Rightarrow> real list \<Rightarrow> nat \<Rightarrow> bool" where
  "untouched pp pp' k \<longleftrightarrow>
     (\<forall>m < length pp. m < 9 * k \<or> 9 * k + 9 \<le> m \<longrightarrow> pp' ! m = pp ! m)"

definition sameSlot :: "real list \<Rightarrow> real list \<Rightarrow> nat \<Rightarrow> bool" where
  "sameSlot pp pp' k \<longleftrightarrow> (\<forall>d < 9. pp' ! (9 * k + d) = pp ! (9 * k + d))"

text \<open>
  \<open>spawnedAt\<close>: the fields of particle \<open>k\<close> are what \<open>initParticle\<close> writes when it
  starts reading the random stream at position \<open>r\<close>.
\<close>

definition spawnedAt :: "VortexProps \<Rightarrow> (nat \<Rightarrow> real) \<Rightarrow> nat \<Rightarrow> vortex \<Rightarrow> real list \<Rightarrow> nat \<Rightarrow> bool" where
  "spawnedAt P rnd r s pp k \<longleftrightarrow>
     p_x pp k = rand (rnd r) (real (canvas_width s)) \<and>
     p_y pp k = snd (center s) + randRange (rnd (r + 1)) (rangeY P) \<and>
     p_vx pp k = 0 \<and> p_vy pp k = 0 \<and> p_life pp k = 0 \<and>
     p_ttl pp k = baseTTL + rand (rnd (r + 2)) rangeTTL \<and>
     p_speed pp k = baseSpeed P + rand (rnd (r + 3)) (rangeSpeed P) \<and>
     p_radius pp k = baseRadius P + rand (rnd (r + 4)) (rangeRadius P) \<and>
     p_hue pp k = colorTransitionRef s + rand (rnd (r + 5)) rangeHue"

text \<open>
  The values that the loop body computes for a particle it moves, read off the buffer
  \<open>pp\<close> at the start of the iteration: the noise angle, the eased direction, the next
  position and the eased hue. \<open>movedTo\<close>: the fields of particle \<open>k\<close> in \<open>pp'\<close> are the
  ones the body commits.
\<close>

definition angle :: "(real \<Rightarrow> real \<Rightarrow> real \<Rightarrow> real) \<Rightarrow> vortex \<Rightarrow> real list \<Rightarrow> nat \<Rightarrow> real" where
  "angle noise3D s pp k =
     noise3D (p_x pp k * xOff) (p_y pp k * yOff) (real (tick s) * zOff) * noiseSteps * TAU"

definition next_vx :: "(real \<Rightarrow> real \<Rightarrow> real \<Rightarrow> real) \<Rightarrow> vortex \<Rightarrow> real list \<Rightarrow> nat \<Rightarrow> real" where
  "next_vx noise3D s pp k = lerp (p_vx pp k) (cos (angle noise3D s pp k)) (1/2)"

definition next_vy :: "(real \<Rightarrow> real \<Rightarrow> real \<Rightarrow> real) \<Rightarrow> vortex \<Rightarrow> real list \<Rightarrow> nat \<Rightarrow> real" where
  "next_vy noise3D s pp k = lerp (p_vy pp k) (sin (angle noise3D s pp k)) (1/2)"

definition next_x :: "(real \<Rightarrow> real \<Rightarrow> real \<Rightarrow> real) \<Rightarrow> vortex \<Rightarrow> real list \<Rightarrow> nat \<Rightarrow> real" where
  "next_x noise3D s pp k = p_x pp k + next_vx noise3D s pp k * p_speed pp k"

definition next_y :: "(real \<Rightarrow> real \<Rightarrow> real \<Rightarrow> real) \<Rightarrow> vortex \<Rightarrow> real list \<Rightarrow> nat \<Rightarrow> real" where
  "next_y noise3D s pp k = p_y pp k + next_vy noise3D s pp k * p_speed pp k"

definition next_hue :: "vortex \<Rightarrow> real list \<Rightarrow> nat \<Rightarrow> real" where
  "next_hue s pp k =
     (if \<bar>p_hue pp k - colorTransitionRef s\<bar> > 1
      then lerp (p_hue pp k) (colorTransitionRef s) (1/10) else p_hue pp k)"

definition movedTo ::
  "(real \<Rightarrow> real \<Rightarrow> real \<Rightarrow> real) \<Rightarrow> vortex \<Rightarrow> real list \<Rightarrow> real list \<Rightarrow> nat \<Rightarrow> bool" where
  "movedTo noise3D s pp pp' k \<longleftrightarrow>
     p_x pp' k = next_x noise3D s pp k \<and> p_y pp' k = next_y noise3D s pp k \<and>
     p_vx pp' k = next_vx noise3D s pp k \<and> p_vy pp' k = next_vy noise3D s pp k \<and>
     p_life pp' k = p_life pp k + 1 \<and> p_ttl pp' k = p_ttl pp k \<and>
     p_speed pp' k = p_speed pp k \<and> p_radius pp' k = p_radius pp k \<and>
     p_hue pp' k = next_hue s pp k"

text \<open>
  \<open>inBounds\<close> is the negation of the test that opens the loop body; \<open>expired\<close> is the
  test that closes it, on the incremented age. \<open>stepped\<close> is the effect of one frame on
  particle \<open>k\<close>: moved, or respawned from some position of the random stream.
  \<open>particleStrokes\<close> is what the frame draws for the particle.
\<close>

definition inBounds :: "vortex \<Rightarrow> real list \<Rightarrow> nat \<Rightarrow> bool" where
  "inBounds s pp k \<longleftrightarrow> \<not> outOfBounds s (p_x pp k) (p_y pp k)"

definition expired :: "real list \<Rightarrow> nat \<Rightarrow> bool" where
  "expired pp k \<longleftrightarrow> p_life pp k + 1 > p_ttl pp k"

definition stepped ::
  "VortexProps \<Rightarrow> (real \<Rightarrow> real \<Rightarrow> real \<Rightarrow> real) \<Rightarrow> (nat \<Rightarrow> real) \<Rightarrow> vortex \<Rightarrow> real list \<Rightarrow> real list \<Rightarrow> nat \<Rightarrow> bool" where
  "stepped P noise3D rnd s pp pp' k \<longleftrightarrow>
     (if inBounds s pp k \<and> \<not> expired pp k then movedTo noise3D s pp pp' k
      else (\<exists>r. spawnedAt P rnd r s pp' k))"

definition particleStrokes ::
  "(real \<Rightarrow> real \<Rightarrow> real \<Rightarrow> real) \<Rightarrow> vortex \<Rightarrow> real list \<Rightarrow> nat \<Rightarrow> stroke list" where
  "particleStrokes noise3D s pp k =
     (if inBounds s pp k
      then drawParticle [] (p_x pp k) (p_y pp k) (next_x noise3D s pp k) (next_y noise3D s pp k)
             (p_life pp k) (p_ttl pp k) (p_radius pp k) (next_hue s pp k)
      else [])"

subsection \<open>Properties of states and runs\<close>

text \<open>
  \<open>halfOpenRanges\<close> is the claim C6 as the spec words it: the three values lie in the
  half-open intervals.
\<close>

definition halfOpenRanges :: "VortexProps \<Rightarrow> real list \<Rightarrow> nat \<Rightarrow> bool" where
  "halfOpenRanges P pp k \<longleftrightarrow>
     baseTTL \<le> p_ttl pp k \<and> p_ttl pp k < baseTTL + rangeTTL \<and>
     baseSpeed P \<le> p_speed pp k \<and> p_speed pp k < baseSpeed P + rangeSpeed P \<and>
     baseRadius P \<le> p_radius pp k \<and> p_radius pp k < baseRadius P + rangeRadius P"

text \<open>A stroke whose alpha is a number (not \<open>NaN\<close>) between the threshold and 1.\<close>

definition alphaDefined :: "stroke \<Rightarrow> bool" where
  "alphaDefined st \<longleftrightarrow> (case strokeAlpha st of None \<Rightarrow> False | Some a \<Rightarrow> 1/100 \<le> a \<and> a \<le> 1)"

text \<open>
  The invariant on the lifetimes and ages of the states that the effect and its events
  reach.
\<close>

definition ttlInv :: "VortexProps \<Rightarrow> vortex \<Rightarrow> bool" where
  "ttlInv P s \<longleftrightarrow>
     length (particleProps s) = 9 * particleCount P \<and>
     (\<forall>k < particleCount P. baseTTL \<le> p_ttl (particleProps s) k \<and> 0 \<le> p_life (particleProps s) k) \<and>
     list_all alphaDefined (strokes s)"

text \<open>
  \<open>staysInBounds\<close>: when each of the frames \<open>ts\<close> starts, particle \<open>k\<close> is inside the
  expanded box.
\<close>

definition staysInBounds ::
  "VortexProps \<Rightarrow> (real \<Rightarrow> real \<Rightarrow> real \<Rightarrow> real) \<Rightarrow> (nat \<Rightarrow> real) \<Rightarrow> vortex \<Rightarrow> int list \<Rightarrow> nat \<Rightarrow> bool" where
  "staysInBounds P noise3D rnd s ts k \<longleftrightarrow>
     list_all (\<lambda>j. case run P noise3D rnd (map Frame (take j ts)) s of
                     None \<Rightarrow> False
                   | Some t \<Rightarrow> inBounds t (particleProps t) k) [0..<length ts]"

text \<open>
  \<open>respawns\<close>: the frame that starts in this state calls \<open>initParticle\<close> for particle
  \<open>k\<close>, at the bounds test or at the lifetime test. \<open>respawnFrames\<close>: the indices (from 0)
  of the frames of \<open>ts\<close> that respawn particle \<open>k\<close>.
\<close>

definition respawns :: "vortex \<Rightarrow> nat \<Rightarrow> bool" where
  "respawns t k \<longleftrightarrow> \<not> inBounds t (particleProps t) k \<or> expired (particleProps t) k"

definition respawnFrames ::
  "VortexProps \<Rightarrow> (real \<Rightarrow> real \<Rightarrow> real \<Rightarrow> real) \<Rightarrow> (nat \<Rightarrow> real) \<Rightarrow> vortex \<Rightarrow> int list \<Rightarrow> nat \<Rightarrow> nat list" where
  "respawnFrames P noise3D rnd s ts k =
     filter (\<lambda>j. case run P noise3D rnd (map Frame (take j ts)) s of
                    None \<Rightarrow> False
                  | Some t \<Rightarrow> respawns t k) [0..<length ts]"

text \<open>The stored \<open>x\<close> of particle \<open>k\<close> after a run.\<close>

definition xAfter ::
  "VortexProps \<Rightarrow> (real \<Rightarrow> real \<Rightarrow> real \<Rightarrow> real) \<Rightarrow> (nat \<Rightarrow> real) \<Rightarrow> int \<Rightarrow> nat \<Rightarrow> nat \<Rightarrow> event list \<Rightarrow> nat \<Rightarrow> real option" where
  "xAfter P noise3D rnd now w h es k =
     map_option (\<lambda>s. p_x (particleProps s) k) (simulate P noise3D rnd now w h es)"

subsection \<open>Concrete inputs\<close>

text \<open>
  Random streams and a noise function that are constant (or nearly), props with a
  single particle, and states written out.
\<close>

definition rnd_half :: "nat \<Rightarrow> real" where
  "rnd_half n = 1/2"

definition rnd_third :: "nat \<Rightarrow> real" where
  "rnd_third n = 33/100"

definition rnd_edge :: "nat \<Rightarrow> real" where
  "rnd_edge n = (if n = 0 then 999/1000 else 1/2)"

definition noise_zero :: "real \<Rightarrow> real \<Rightarrow> real \<Rightarrow> real" where
  "noise_zero x y z = 0"

definition oneParticleProps :: VortexProps where
  "oneParticleProps = defaultProps\<lparr>particleCount := 1\<rparr>"

definition warmHueProps :: VortexProps where
  "warmHueProps = defaultProps\<lparr>particleCount := 1, baseHue := 300\<rparr>"

definition stillProps :: VortexProps where
  "stillProps = \<lparr> particleCount = 1, rangeY = 0, baseSpeed = 0, rangeSpeed = 0,
     baseRadius = 1, rangeRadius = 2, baseHue = 220 \<rparr>"

text \<open>
  The end-to-end scenario of the spec: 10 particles, \<open>baseHue = 0\<close>, \<open>rangeSpeed = 0\<close>,
  \<open>baseSpeed = 1\<close>, the other props at their defaults.
\<close>

definition e2eProps :: VortexProps where
  "e2eProps = \<lparr> particleCount = 10, rangeY = 400, baseSpeed = 1, rangeSpeed = 0,
     baseRadius = 1, rangeRadius = 2, baseHue = 0 \<rparr>"

text \<open>
  \<open>blankState\<close>: a buffer of one particle as allocated, on a \<open>100 \<times> 100\<close> canvas.
  \<open>strayState\<close>: one particle of age 3 at \<open>x = 200\<close>, outside the expanded box.
  \<open>stillState\<close>: what the effect builds from \<open>stillProps\<close> and \<open>rnd_third\<close>; its
  particle has speed 0.
\<close>

definition blankState :: "real \<Rightarrow> vortex" where
  "blankState hue = \<lparr> particleProps = [0, 0, 0, 0, 0, 0, 0, 0, 0],
     colorTransitionRef = hue, targetColorRef = hue, lastColorChangeRef = 0,
     canvas_width = 100, canvas_height = 100, center = (50, 50), tick = 0,
     randCalls = 0, strokes = [] \<rparr>"

definition strayState :: vortex where
  "strayState = \<lparr> particleProps = [200, 50, 1/2, 0, 3, 125, 1, 2, 220],
     colorTransitionRef = 220, targetColorRef = 220, lastColorChangeRef = 0,
     canvas_width = 100, canvas_height = 100, center = (50, 50), tick = 7,
     randCalls = 6, strokes = [] \<rparr>"

definition stillState :: vortex where
  "stillState = \<lparr> particleProps = [33, 50, 0, 0, 0, 199/2, 0, 83/50, 253],
     colorTransitionRef = 220, targetColorRef = 220, lastColorChangeRef = 0,
     canvas_width = 100, canvas_height = 100, center = (50, 50), tick = 0,
     randCalls = 6, strokes = [] \<rparr>"

text \<open>
  \<open>stillInv\<close>: the particle of \<open>stillState\<close> stays where it is. \<open>e2eInv\<close>: the invariant
  of the end-to-end scenario. \<open>drifting j\<close>: particle 0 of the scenario after \<open>j\<close> frames
  under \<open>noise_zero\<close> and \<open>rnd_edge\<close>.
\<close>

definition stillInv :: "vortex \<Rightarrow> bool" where
  "stillInv t \<longleftrightarrow>
     length (particleProps t) = 9 \<and> canvas_width t = 100 \<and> canvas_height t = 100 \<and>
     center t = (50, 50) \<and> p_x (particleProps t) 0 = 33 \<and> p_y (particleProps t) 0 = 50 \<and>
     p_speed (particleProps t) 0 = 0"

definition e2eInv :: "vortex \<Rightarrow> bool" where
  "e2eInv s \<longleftrightarrow>
     length (particleProps s) = 9 * particleCount e2eProps \<and>
     canvas_width s = 100 \<and>
     (\<forall>k < particleCount e2eProps.
        p_speed (particleProps s) k = 1 \<and> \<bar>p_vx (particleProps s) k\<bar> \<le> 1 \<and>
        - 51 \<le> p_x (particleProps s) k \<and> p_x (particleProps s) k \<le> 151)"

definition drifting :: "nat \<Rightarrow> vortex \<Rightarrow> bool" where
  "drifting j s \<longleftrightarrow>
     length (particleProps s) = 9 * particleCount e2eProps \<and>
     canvas_width s = 100 \<and> canvas_height s = 100 \<and>
     p_x (particleProps s) 0 = 989/10 + real j + (1/2) ^ j \<and>
     p_y (particleProps s) 0 = 50 \<and>
     p_vx (particleProps s) 0 = 1 - (1/2) ^ j \<and> p_vy (particleProps s) 0 = 0 \<and>
     p_life (particleProps s) 0 = real j \<and> p_ttl (particleProps s) 0 = 125 \<and>
     p_speed (particleProps s) 0 = 1"

subsection \<open>Rounding to a binary floating-point format\<close>

text \<open>
  The arithmetic of the code: a JavaScript number is an IEEE 754 binary64 value, and a
  store into the \<^verbatim>\<open>Float32Array\<close> rounds to binary32. \<open>round_bin p emin\<close> rounds a real
  to the nearest value of the format with \<open>p\<close> significant bits and least exponent
  \<open>emin\<close> (subnormals included), ties to even; \<open>rne\<close> is that rounding on the integers,
  \<open>binade x\<close> the exponent of \<open>|x|\<close>, \<open>ulp_exp\<close> the exponent of the unit in the last
  place. Overflow to \<open>Infinity\<close> is not part of \<open>round_bin\<close>: where the code can
  overflow on the inputs of a statement, the test is written out.
\<close>

definition pow2 :: "int \<Rightarrow> real" where
  "pow2 e = 2 powr (of_int e)"

definition rne :: "real \<Rightarrow> int" where
  "rne y = (let f = \<lfloor>y\<rfloor>; d = y - of_int f
            in if d < 1/2 then f else if 1/2 < d then f + 1 else if even f then f else f + 1)"

definition binade :: "real \<Rightarrow> int" where
  "binade x = \<lfloor>log 2 \<bar>x\<bar>\<rfloor>"

definition ulp_exp :: "nat \<Rightarrow> int \<Rightarrow> real \<Rightarrow> int" where
  "ulp_exp p emin x = max (binade x - int p + 1) emin"

definition round_bin :: "nat \<Rightarrow> int \<Rightarrow> real \<Rightarrow> real" where
  "round_bin p emin x =
     (if x = 0 then 0
      else of_int (rne (x / pow2 (ulp_exp p emin x))) * pow2 (ulp_exp p emin x))"

definition representable :: "nat \<Rightarrow> int \<Rightarrow> real \<Rightarrow> bool" where
  "representable p emin x \<longleftrightarrow> (\<exists>k e. x = of_int k * pow2 e \<and> \<bar>k\<bar> < 2 ^ p \<and> emin \<le> e)"

subsection \<open>The code's arithmetic\<close>

text \<open>
  \<open>rd64\<close> rounds to a JavaScript number and \<open>rd32\<close> to an entry of the
  \<^verbatim>\<open>Float32Array\<close>. \<open>is_double\<close> and \<open>is_float32\<close>: the real is a finite value of the
  format.
\<close>

definition rd64 :: "real \<Rightarrow> real" where
  "rd64 = round_bin 53 (- 1074)"

definition rd32 :: "real \<Rightarrow> real" where
  "rd32 = round_bin 24 (- 149)"

definition is_double :: "real \<Rightarrow> bool" where
  "is_double x \<longleftrightarrow> representable 53 (- 1074) x \<and> \<bar>x\<bar> < pow2 1024"

definition is_float32 :: "real \<Rightarrow> bool" where
  "is_float32 x \<longleftrightarrow> representable 24 (- 149) x \<and> \<bar>x\<bar> < pow2 128"

text \<open>The operators \<^verbatim>\<open>+\<close>, \<^verbatim>\<open>-\<close>, \<^verbatim>\<open>*\<close> and \<^verbatim>\<open>/\<close> on numbers: the exact result, rounded.\<close>

definition add64 :: "real \<Rightarrow> real \<Rightarrow> real" where "add64 x y = rd64 (x + y)"

definition sub64 :: "real \<Rightarrow> real \<Rightarrow> real" where "sub64 x y = rd64 (x - y)"

definition mul64 :: "real \<Rightarrow> real \<Rightarrow> real" where "mul64 x y = rd64 (x * y)"

definition div64 :: "real \<Rightarrow> real \<Rightarrow> real" where "div64 x y = rd64 (x / y)"

text \<open>
  The decimal literals of the source that are not binary fractions, as the numbers they
  denote, and \<^verbatim>\<open>Math.PI\<close>.
\<close>

definition xOff64 :: real where "xOff64 = rd64 (125 / 100000)"

definition yOff64 :: real where "yOff64 = rd64 (125 / 100000)"

definition zOff64 :: real where "zOff64 = rd64 (5 / 10000)"

definition TRANSITION_SPEED64 :: real where "TRANSITION_SPEED64 = rd64 (2 / 100)"

definition tenth64 :: real where "tenth64 = rd64 (1 / 10)"

definition hundredth64 :: real where "hundredth64 = rd64 (1 / 100)"

definition Math_PI :: real where "Math_PI = rd64 pi"

definition TAU64 :: real where "TAU64 = mul64 2 Math_PI"

text \<open>
  What the component gets from its host: the noise function, \<^verbatim>\<open>Math.cos\<close> and
  \<^verbatim>\<open>Math.sin\<close> (approximations that the language leaves to the implementation) and
  the stream of the values of \<^verbatim>\<open>Math.random()\<close>. \<open>host_ok\<close>: the random values are in
  \<open>[0, 1)\<close>, the noise in \<open>[-1, 1]\<close> and the cosine and sine in \<open>[-1, 1]\<close>.
\<close>

record host =
  noise_of :: "real \<Rightarrow> real \<Rightarrow> real \<Rightarrow> real"
  Math_cos :: "real \<Rightarrow> real"
  Math_sin :: "real \<Rightarrow> real"
  Math_random :: "nat \<Rightarrow> real"

definition host_ok :: "host \<Rightarrow> bool" where
  "host_ok H \<longleftrightarrow>
     (\<forall>n. 0 \<le> Math_random H n \<and> Math_random H n < 1) \<and>
     (\<forall>x y z. \<bar>noise_of H x y z\<bar> \<le> 1) \<and>
     (\<forall>x. \<bar>Math_cos H x\<bar> \<le> 1 \<and> \<bar>Math_sin H x\<bar> \<le> 1)"

text \<open>The helpers, operator by operator.\<close>

definition rand64 :: "real \<Rightarrow> real \<Rightarrow> real" where
  "rand64 u n = mul64 n u"

definition randRange64 :: "real \<Rightarrow> real \<Rightarrow> real" where
  "randRange64 u n = sub64 n (mul64 (mul64 n u) 2)"

text \<open>
  \<open>fadeInOut64\<close>: \<open>None\<close> stands for a result that is not a finite number. That is the
  case when \<open>hm\<close> is 0 (\<open>m\<close> is 0, or \<open>0.5 * m\<close> underflows: the division is by zero) and
  when \<open>t + hm\<close> overflows (the remainder of \<open>Infinity\<close> is \<open>NaN\<close>). The remainder \<^verbatim>\<open>%\<close> of
  two finite numbers is exact.
\<close>

definition fadeInOut64 :: "real \<Rightarrow> real \<Rightarrow> real option" where
  "fadeInOut64 t m =
     (let hm = mul64 (1/2) m;
          a = add64 t hm
      in if hm = 0 \<or> pow2 1024 \<le> \<bar>a\<bar> then None
         else Some (div64 \<bar>sub64 (js_rem a m) hm\<bar> hm))"

definition lerp64 :: "real \<Rightarrow> real \<Rightarrow> real \<Rightarrow> real" where
  "lerp64 n1 n2 speed = add64 (mul64 (sub64 1 speed) n1) (mul64 speed n2)"

definition getNextColor64 :: "real \<Rightarrow> real" where
  "getNextColor64 u = of_int \<lfloor>mul64 u 360\<rfloor>"

text \<open>
  The operations of the component in this arithmetic, line by line as above. The
  array passed to \<^verbatim>\<open>set\<close> and every value assigned to an entry of the buffer is rounded
  to binary32. The canvas size is an integer (a browser keeps it below \<open>2\<^sup>3\<^sup>2\<close>), on
  which the arithmetic of the bounds test and of the centre is exact.
\<close>

definition fl_initParticle :: "VortexProps \<Rightarrow> host \<Rightarrow> nat \<Rightarrow> vortex \<Rightarrow> vortex option" where
  "fl_initParticle P H i s =
     (let r = randCalls s;
          x = rand64 (Math_random H r) (real (canvas_width s));
          y = add64 (snd (center s)) (randRange64 (Math_random H (r + 1)) (rangeY P))
      in case typed_set (particleProps s)
             (map rd32
               [x, y, 0, 0, 0,
                add64 baseTTL (rand64 (Math_random H (r + 2)) rangeTTL),
                add64 (baseSpeed P) (rand64 (Math_random H (r + 3)) (rangeSpeed P)),
                add64 (baseRadius P) (rand64 (Math_random H (r + 4)) (rangeRadius P)),
                add64 (colorTransitionRef s) (rand64 (Math_random H (r + 5)) rangeHue)]) i of
           None \<Rightarrow> None
         | Some arr \<Rightarrow> Some (s\<lparr>particleProps := arr, randCalls := r + 6\<rparr>))"

definition fl_drawParticle ::
  "stroke list \<Rightarrow> real \<Rightarrow> real \<Rightarrow> real \<Rightarrow> real \<Rightarrow> real \<Rightarrow> real \<Rightarrow> real \<Rightarrow> real \<Rightarrow> stroke list" where
  "fl_drawParticle ctx x y x2 y2 life ttl radius hue =
     (let alpha = fadeInOut64 life ttl
      in if (case alpha of None \<Rightarrow> False | Some a \<Rightarrow> a < hundredth64) then ctx
         else ctx @ [\<lparr> moveTo = (x, y), lineTo = (x2, y2), strokeHue = hue,
                       strokeAlpha = alpha, lineWidth = radius \<rparr>])"

definition fl_updateParticle :: "VortexProps \<Rightarrow> host \<Rightarrow> nat \<Rightarrow> vortex \<Rightarrow> vortex option" where
  "fl_updateParticle P H i s =
     (let pp = particleProps s;
          i2 = 1 + i; i3 = 2 + i; i4 = 3 + i; i5 = 4 + i;
          i6 = 5 + i; i7 = 6 + i; i8 = 7 + i; i9 = 8 + i
      in if length pp \<le> i9 then None
         else
           let x = pp ! i; y = pp ! i2
           in if outOfBounds s x y then fl_initParticle P H i s
              else
                let n = mul64 (mul64 (noise_of H (mul64 x xOff64) (mul64 y yOff64)
                                        (mul64 (real (tick s)) zOff64)) noiseSteps) TAU64;
                    vx = lerp64 (pp ! i3) (Math_cos H n) (1/2);
                    vy = lerp64 (pp ! i4) (Math_sin H n) (1/2);
                    speed = pp ! i7;
                    x2 = add64 x (mul64 vx speed);
                    y2 = add64 y (mul64 vy speed);
                    pp1 = (if \<bar>sub64 (pp ! i9) (colorTransitionRef s)\<bar> > 1
                           then pp[i9 := rd32 (lerp64 (pp ! i9) (colorTransitionRef s) tenth64)]
                           else pp);
                    ctx = fl_drawParticle (strokes s) x y x2 y2
                            (pp1 ! i5) (pp1 ! i6) (pp1 ! i8) (pp1 ! i9);
                    pp2 = pp1[i := rd32 x2, i2 := rd32 y2, i3 := rd32 vx, i4 := rd32 vy,
                              i5 := rd32 (add64 (pp1 ! i5) 1)];
                    s2 = s\<lparr>particleProps := pp2, strokes := ctx\<rparr>
                in if pp2 ! i5 > pp2 ! i6 then fl_initParticle P H i s2 else Some s2)"

function fl_particleLoop :: "VortexProps \<Rightarrow> host \<Rightarrow> nat \<Rightarrow> vortex \<Rightarrow> vortex option" where
  "fl_particleLoop P H i s =
     (if i < particlePropsLength P
      then (case fl_updateParticle P H i s of
              None \<Rightarrow> None
            | Some s' \<Rightarrow> fl_particleLoop P H (i + particlePropCount) s')
      else Some s)"
  by pat_completeness auto
termination
  by (relation "measure (\<lambda>(P, H, i, s). particlePropsLength P - i)")
     (auto simp: particlePropCount_def)

definition fl_updateAndDrawParticles :: "VortexProps \<Rightarrow> host \<Rightarrow> int \<Rightarrow> vortex \<Rightarrow> vortex option" where
  "fl_updateAndDrawParticles P H currentTime s =
     (let s1 = (if currentTime - lastColorChangeRef s \<ge> COLOR_CHANGE_INTERVAL
                then s\<lparr>targetColorRef := getNextColor64 (Math_random H (randCalls s)),
                       randCalls := randCalls s + 1,
                       lastColorChangeRef := currentTime\<rparr>
                else s);
          s2 = s1\<lparr>colorTransitionRef :=
                    lerp64 (colorTransitionRef s1) (targetColorRef s1) TRANSITION_SPEED64\<rparr>
      in fl_particleLoop P H 0 s2)"

definition fl_draw :: "VortexProps \<Rightarrow> host \<Rightarrow> int \<Rightarrow> vortex \<Rightarrow> vortex option" where
  "fl_draw P H now s = fl_updateAndDrawParticles P H now (s\<lparr>strokes := []\<rparr>)"

text \<open>
  \<^verbatim>\<open>tick++\<close> on a number: from \<open>2\<^sup>5\<^sup>3\<close> on, the sum \<open>tick + 1\<close> rounds back to \<open>tick\<close>.
\<close>

definition fl_animate :: "VortexProps \<Rightarrow> host \<Rightarrow> int \<Rightarrow> vortex \<Rightarrow> vortex option" where
  "fl_animate P H now s =
     fl_draw P H now (s\<lparr>tick := (if tick s < 2 ^ 53 then tick s + 1 else tick s)\<rparr>)"

function fl_initLoop :: "VortexProps \<Rightarrow> host \<Rightarrow> nat \<Rightarrow> vortex \<Rightarrow> vortex option" where
  "fl_initLoop P H i s =
     (if i < particlePropsLength P
      then (case fl_initParticle P H i s of
              None \<Rightarrow> None
            | Some s' \<Rightarrow> fl_initLoop P H (i + particlePropCount) s')
      else Some s)"
  by pat_completeness auto
termination
  by (relation "measure (\<lambda>(P, H, i, s). particlePropsLength P - i)")
     (auto simp: particlePropCount_def)

definition fl_mount :: "VortexProps \<Rightarrow> host \<Rightarrow> int \<Rightarrow> nat \<Rightarrow> nat \<Rightarrow> vortex option" where
  "fl_mount P H now innerWidth innerHeight =
     fl_initLoop P H 0
       (resize innerWidth innerHeight
          \<lparr> particleProps = replicate (particlePropsLength P) 0,
            colorTransitionRef = baseHue P,
            targetColorRef = baseHue P,
            lastColorChangeRef = now,
            canvas_width = 0, canvas_height = 0,
            center = (0, 0),
            tick = 0,
            randCalls = 0,
            strokes = [] \<rparr>)"

fun fl_handle :: "VortexProps \<Rightarrow> host \<Rightarrow> event \<Rightarrow> vortex \<Rightarrow> vortex option" where
  "fl_handle P H (Frame now) s = fl_animate P H now s"
| "fl_handle P H (Resize w h) s = Some (resize w h s)"

fun fl_run :: "VortexProps \<Rightarrow> host \<Rightarrow> event list \<Rightarrow> vortex \<Rightarrow> vortex option" where
  "fl_run P H [] s = Some s"
| "fl_run P H (e # es) s =
     (case fl_handle P H e s of
        None \<Rightarrow> None
      | Some s' \<Rightarrow> fl_run P H es s')"

definition fl_simulate ::
  "VortexProps \<Rightarrow> host \<Rightarrow> int \<Rightarrow> nat \<Rightarrow> nat \<Rightarrow> event list \<Rightarrow> vortex option" where
  "fl_simulate P H now innerWidth innerHeight es =
     (case fl_mount P H now innerWidth innerHeight of
        None \<Rightarrow> None
      | Some s \<Rightarrow> fl_run P H es s)"

subsection \<open>What one frame does to a particle, in the code's arithmetic\<close>

text \<open>
  The counterparts of \<open>spawnedAt\<close>, \<open>movedTo\<close>, \<open>expired\<close> and \<open>stepped\<close> for the
  operations \<open>fl_initParticle\<close> and \<open>fl_updateParticle\<close>. \<open>fl_next_vx\<close> and \<open>fl_next_x\<close>
  are the numbers \<^verbatim>\<open>vx\<close> and \<^verbatim>\<open>x2\<close> of the loop body; the buffer receives them rounded to
  binary32.
\<close>

definition fl_spawnedAt :: "VortexProps \<Rightarrow> host \<Rightarrow> nat \<Rightarrow> vortex \<Rightarrow> real list \<Rightarrow> nat \<Rightarrow> bool" where
  "fl_spawnedAt P H r s pp k \<longleftrightarrow>
     p_x pp k = rd32 (rand64 (Math_random H r) (real (canvas_width s))) \<and>
     p_y pp k = rd32 (add64 (snd (center s)) (randRange64 (Math_random H (r + 1)) (rangeY P))) \<and>
     p_vx pp k = 0 \<and> p_vy pp k = 0 \<and> p_life pp k = 0 \<and>
     p_ttl pp k = rd32 (add64 baseTTL (rand64 (Math_random H (r + 2)) rangeTTL)) \<and>
     p_speed pp k = rd32 (add64 (baseSpeed P) (rand64 (Math_random H (r + 3)) (rangeSpeed P))) \<and>
     p_radius pp k = rd32 (add64 (baseRadius P) (rand64 (Math_random H (r + 4)) (rangeRadius P))) \<and>
     p_hue pp k = rd32 (add64 (colorTransitionRef s) (rand64 (Math_random H (r + 5)) rangeHue))"

definition fl_angle :: "host \<Rightarrow> vortex \<Rightarrow> real list \<Rightarrow> nat \<Rightarrow> real" where
  "fl_angle H s pp k =
     mul64 (mul64 (noise_of H (mul64 (p_x pp k) xOff64) (mul64 (p_y pp k) yOff64)
                     (mul64 (real (tick s)) zOff64)) noiseSteps) TAU64"

definition fl_next_vx :: "host \<Rightarrow> vortex \<Rightarrow> real list \<Rightarrow> nat \<Rightarrow> real" where
  "fl_next_vx H s pp k = lerp64 (p_vx pp k) (Math_cos H (fl_angle H s pp k)) (1/2)"

definition fl_next_vy :: "host \<Rightarrow> vortex \<Rightarrow> real list \<Rightarrow> nat \<Rightarrow> real" where
  "fl_next_vy H s pp k = lerp64 (p_vy pp k) (Math_sin H (fl_angle H s pp k)) (1/2)"

definition fl_next_x :: "host \<Rightarrow> vortex \<Rightarrow> real list \<Rightarrow> nat \<Rightarrow> real" where
  "fl_next_x H s pp k = add64 (p_x pp k) (mul64 (fl_next_vx H s pp k) (p_speed pp k))"

definition fl_next_y :: "host \<Rightarrow> vortex \<Rightarrow> real list \<Rightarrow> nat \<Rightarrow> real" where
  "fl_next_y H s pp k = add64 (p_y pp k) (mul64 (fl_next_vy H s pp k) (p_speed pp k))"

definition fl_next_hue :: "vortex \<Rightarrow> real list \<Rightarrow> nat \<Rightarrow> real" where
  "fl_next_hue s pp k =
     (if \<bar>sub64 (p_hue pp k) (colorTransitionRef s)\<bar> > 1
      then rd32 (lerp64 (p_hue pp k) (colorTransitionRef s) tenth64) else p_hue pp k)"

definition fl_movedTo :: "host \<Rightarrow> vortex \<Rightarrow> real list \<Rightarrow> real list \<Rightarrow> nat \<Rightarrow> bool" where
  "fl_movedTo H s pp pp' k \<longleftrightarrow>
     p_x pp' k = rd32 (fl_next_x H s pp k) \<and> p_y pp' k = rd32 (fl_next_y H s pp k) \<and>
     p_vx pp' k = rd32 (fl_next_vx H s pp k) \<and> p_vy pp' k = rd32 (fl_next_vy H s pp k) \<and>
     p_life pp' k = rd32 (add64 (p_life pp k) 1) \<and> p_ttl pp' k = p_ttl pp k \<and>
     p_speed pp' k = p_speed pp k \<and> p_radius pp' k = p_radius pp k \<and>
     p_hue pp' k = fl_next_hue s pp k"

definition fl_expired :: "real list \<Rightarrow> nat \<Rightarrow> bool" where
  "fl_expired pp k \<longleftrightarrow> rd32 (add64 (p_life pp k) 1) > p_ttl pp k"

definition fl_stepped :: "VortexProps \<Rightarrow> host \<Rightarrow> vortex \<Rightarrow> real list \<Rightarrow> real list \<Rightarrow> nat \<Rightarrow> bool" where
  "fl_stepped P H s pp pp' k \<longleftrightarrow>
     (if inBounds s pp k \<and> \<not> fl_expired pp k then fl_movedTo H s pp pp' k
      else (\<exists>r. fl_spawnedAt P H r s pp' k))"

subsection \<open>Props and hosts of the code's arithmetic\<close>

text \<open>
  \<open>props_ok\<close>: the numeric props are finite numbers of magnitude at most \<open>2\<^sup>1\<^sup>0\<^sup>0\<close>; with
  such props no operation of the effect or of a frame overflows. \<open>const_host u\<close>: a host
  whose \<^verbatim>\<open>Math.random()\<close> always returns \<open>u\<close>, whose noise is constantly 0 and whose
  cosine and sine are the correctly rounded ones.
\<close>

definition props_ok :: "VortexProps \<Rightarrow> bool" where
  "props_ok P \<longleftrightarrow>
     is_double (rangeY P) \<and> is_double (baseSpeed P) \<and> is_double (rangeSpeed P) \<and>
     is_double (baseRadius P) \<and> is_double (rangeRadius P) \<and> is_double (baseHue P) \<and>
     \<bar>rangeY P\<bar> \<le> pow2 100 \<and> \<bar>baseSpeed P\<bar> \<le> pow2 100 \<and> \<bar>rangeSpeed P\<bar> \<le> pow2 100 \<and>
     \<bar>baseRadius P\<bar> \<le> pow2 100 \<and> \<bar>rangeRadius P\<bar> \<le> pow2 100 \<and> \<bar>baseHue P\<bar> \<le> pow2 100"

definition const_host :: "real \<Rightarrow> host" where
  "const_host u = \<lparr> noise_of = (\<lambda>x y z. 0), Math_cos = (\<lambda>x. rd64 (cos x)),
     Math_sin = (\<lambda>x. rd64 (sin x)), Math_random = (\<lambda>n. u) \<rparr>"

subsection \<open>Invariants in the code's arithmetic\<close>

text \<open>
  \<open>hueInv64\<close>: the invariant on the hues of the states that the effect and its events
  reach when \<open>0 \<le> baseHue \<le> 360\<close>. \<open>sevenHueProps\<close>: one particle, \<open>baseHue = 7\<close>.
\<close>

definition hueInv64 :: "VortexProps \<Rightarrow> vortex \<Rightarrow> bool" where
  "hueInv64 P s \<longleftrightarrow>
     length (particleProps s) = 9 * particleCount P \<and>
     0 \<le> colorTransitionRef s \<and> colorTransitionRef s \<le> 360 \<and>
     0 \<le> targetColorRef s \<and> targetColorRef s \<le> 360 \<and>
     (\<forall>k < particleCount P. 0 \<le> p_hue (particleProps s) k \<and> p_hue (particleProps s) k \<le> 460)"

definition sevenHueProps :: VortexProps where
  "sevenHueProps = defaultProps\<lparr>particleCount := 1, baseHue := 7\<rparr>"

subsection \<open>Direction components in the code's arithmetic\<close>

text \<open>
  \<open>velInv64\<close>: the invariant on the direction components; the stored speed is a
  binary32 value. \<open>slowProps\<close>: one particle of speed \<open>3 \<times> 2\<^sup>-\<^sup>1\<^sup>9\<close> (about
  \<open>5.7 \<times> 10\<^sup>-\<^sup>6\<close>), less than the spacing \<open>2\<^sup>-\<^sup>1\<^sup>7\<close> of the binary32 values around 80.
\<close>

definition velInv64 :: "VortexProps \<Rightarrow> vortex \<Rightarrow> bool" where
  "velInv64 P s \<longleftrightarrow>
     length (particleProps s) = 9 * particleCount P \<and>
     (\<forall>k < particleCount P.
        \<bar>p_vx (particleProps s) k\<bar> \<le> 1 \<and> \<bar>p_vy (particleProps s) k\<bar> \<le> 1 \<and>
        rd32 (p_speed (particleProps s) k) = p_speed (particleProps s) k)"

definition slowProps :: VortexProps where
  "slowProps = \<lparr> particleCount = 1, rangeY = 400, baseSpeed = 3 / 2 ^ 19, rangeSpeed = 0,
     baseRadius = 1, rangeRadius = 2, baseHue = 220 \<rparr>"

section \<open>What the operations do to one particle\<close>

lemmas p_defs = p_x_def p_y_def p_vx_def p_vy_def p_life_def p_ttl_def p_speed_def
  p_radius_def p_hue_def

lemma typed_set_Some:
  assumes "offset + length src \<le> length arr"
  shows "\<exists>arr'. typed_set arr src offset = Some arr' \<and> length arr' = length arr \<and>
           (\<forall>m < length arr. m < offset \<or> offset + length src \<le> m \<longrightarrow> arr' ! m = arr ! m) \<and>
           (\<forall>d < length src. arr' ! (offset + d) = src ! d)"
proof -
  let ?arr' = "take offset arr @ src @ drop (offset + length src) arr"
  have len: "length ?arr' = length arr" using assms by simp
  have lo: "?arr' ! m = arr ! m" if "m < offset" for m
    using that assms by (simp add: nth_append)
  have hi: "?arr' ! m = arr ! m" if "offset + length src \<le> m" "m < length arr" for m
  proof -
    have a: "\<not> m < offset" "\<not> m - offset < length src"
      and b: "offset + length src + (m - offset - length src) = m"
      using that by arith+
    have "?arr' ! m = drop (offset + length src) arr ! (m - offset - length src)"
      using a assms by (simp add: nth_append)
    also have "\<dots> = arr ! m"
      using that b by simp
    finally show ?thesis .
  qed
  have mid: "?arr' ! (offset + d) = src ! d" if "d < length src" for d
    using that assms by (simp add: nth_append)
  show ?thesis using len lo hi mid assms by (auto simp: typed_set_def)
qed

lemma initParticle_char:
  assumes "9 * k + 9 \<le> length (particleProps s)"
  shows "\<exists>s'. initParticle P rnd (9 * k) s = Some s' \<and> same_env s s' \<and>
           untouched (particleProps s) (particleProps s') k \<and>
           strokes s' = strokes s \<and> randCalls s' = randCalls s + 6 \<and>
           spawnedAt P rnd (randCalls s) s (particleProps s') k"
proof -
  define src where "src = [rand (rnd (randCalls s)) (real (canvas_width s)),
     snd (center s) + randRange (rnd (randCalls s + 1)) (rangeY P), 0, 0, 0,
     baseTTL + rand (rnd (randCalls s + 2)) rangeTTL,
     baseSpeed P + rand (rnd (randCalls s + 3)) (rangeSpeed P),
     baseRadius P + rand (rnd (randCalls s + 4)) (rangeRadius P),
     colorTransitionRef s + rand (rnd (randCalls s + 5)) rangeHue]"
  have ls: "length src = 9" by (simp add: src_def)
  from typed_set_Some[of "9 * k" src "particleProps s"] assms ls
  obtain arr where arr: "typed_set (particleProps s) src (9 * k) = Some arr"
    "length arr = length (particleProps s)"
    "\<And>m. m < length (particleProps s) \<Longrightarrow> m < 9 * k \<or> 9 * k + 9 \<le> m \<Longrightarrow> arr ! m = particleProps s ! m"
    "\<And>d. d < 9 \<Longrightarrow> arr ! (9 * k + d) = src ! d"
    by auto
  have eq: "initParticle P rnd (9 * k) s = Some (s\<lparr>particleProps := arr, randCalls := randCalls s + 6\<rparr>)"
    using arr(1) by (simp add: initParticle_def Let_def src_def)
  have sp: "spawnedAt P rnd (randCalls s) s arr k"
    using arr(4)[of 0] arr(4)[of 1] arr(4)[of 2] arr(4)[of 3] arr(4)[of 4] arr(4)[of 5]
      arr(4)[of 6] arr(4)[of 7] arr(4)[of 8]
    by (simp add: spawnedAt_def p_defs src_def)
  show ?thesis
    using eq sp arr(2,3) by (simp add: same_env_def untouched_def)
qed

lemmas next_defs = next_x_def next_y_def next_vx_def next_vy_def next_hue_def angle_def

lemma updateParticle_inBounds:
  assumes len: "9 * k + 9 \<le> length (particleProps s)"
    and inb: "inBounds s (particleProps s) k"
  shows "\<exists>s2. same_env s s2 \<and> untouched (particleProps s) (particleProps s2) k \<and>
           randCalls s2 = randCalls s \<and>
           movedTo noise3D s (particleProps s) (particleProps s2) k \<and>
           strokes s2 = drawParticle (strokes s) (p_x (particleProps s) k) (p_y (particleProps s) k)
              (next_x noise3D s (particleProps s) k) (next_y noise3D s (particleProps s) k)
              (p_life (particleProps s) k) (p_ttl (particleProps s) k)
              (p_radius (particleProps s) k) (next_hue s (particleProps s) k) \<and>
           updateParticle P noise3D rnd (9 * k) s =
             (if expired (particleProps s) k then initParticle P rnd (9 * k) s2 else Some s2)"
proof -
  define pp where "pp = particleProps s"
  define i where "i = 9 * k"
  define pp1 where "pp1 = (if \<bar>pp ! (8 + i) - colorTransitionRef s\<bar> > 1
      then pp[8 + i := lerp (pp ! (8 + i)) (colorTransitionRef s) (1/10)] else pp)"
  define n where "n = noise3D (pp ! i * xOff) (pp ! (1 + i) * yOff) (real (tick s) * zOff) * noiseSteps * TAU"
  define vx where "vx = lerp (pp ! (2 + i)) (cos n) (1/2)"
  define vy where "vy = lerp (pp ! (3 + i)) (sin n) (1/2)"
  define x2 where "x2 = pp ! i + vx * pp ! (6 + i)"
  define y2 where "y2 = pp ! (1 + i) + vy * pp ! (6 + i)"
  define pp2 where "pp2 = pp1[i := x2, 1 + i := y2, 2 + i := vx, 3 + i := vy, 4 + i := pp1 ! (4 + i) + 1]"
  define s2 where "s2 = s\<lparr>particleProps := pp2,
     strokes := drawParticle (strokes s) (pp ! i) (pp ! (1 + i)) x2 y2
        (pp1 ! (4 + i)) (pp1 ! (5 + i)) (pp1 ! (7 + i)) (pp1 ! (8 + i))\<rparr>"
  have li: "i + 9 \<le> length pp" using len by (simp add: pp_def i_def)
  have l1: "length pp1 = length pp" by (simp add: pp1_def)
  have l2: "length pp2 = length pp" by (simp add: pp2_def l1)
  have p1: "pp1 ! m = pp ! m" if "m \<noteq> 8 + i" for m
    using that by (simp add: pp1_def)
  have p1h: "pp1 ! (8 + i) = next_hue s pp k"
    using li by (simp add: pp1_def next_hue_def p_hue_def i_def add.commute)
  have v: "vx = next_vx noise3D s pp k" "vy = next_vy noise3D s pp k"
    "x2 = next_x noise3D s pp k" "y2 = next_y noise3D s pp k"
    by (simp_all add: vx_def vy_def x2_def y2_def n_def next_defs p_defs i_def add.commute)
  have q: "pp2 ! i = x2" "pp2 ! (1 + i) = y2" "pp2 ! (2 + i) = vx" "pp2 ! (3 + i) = vy"
    "pp2 ! (4 + i) = pp ! (4 + i) + 1" "pp2 ! (5 + i) = pp ! (5 + i)"
    "pp2 ! (6 + i) = pp ! (6 + i)" "pp2 ! (7 + i) = pp ! (7 + i)"
    "pp2 ! (8 + i) = next_hue s pp k"
    using li by (simp_all add: pp2_def l1 p1 p1h)
  have un: "pp2 ! m = pp ! m" if "m < i \<or> i + 9 \<le> m" for m
    using that by (auto simp: pp2_def p1)
  have upd: "updateParticle P noise3D rnd i s =
      (if pp2 ! (4 + i) > pp2 ! (5 + i) then initParticle P rnd i s2 else Some s2)"
    using li inb
    unfolding updateParticle_def Let_def inBounds_def s2_def pp2_def y2_def x2_def vy_def vx_def n_def pp1_def
    by (simp add: pp_def p_x_def p_y_def i_def)
  have ex: "(pp2 ! (4 + i) > pp2 ! (5 + i)) = expired pp k"
    using q(5,6) by (simp add: expired_def p_defs i_def add.commute)
  have mv: "movedTo noise3D s pp pp2 k"
    using q v by (simp add: movedTo_def p_defs i_def add.commute)
  have st: "strokes s2 = drawParticle (strokes s) (p_x pp k) (p_y pp k)
              (next_x noise3D s pp k) (next_y noise3D s pp k)
              (p_life pp k) (p_ttl pp k) (p_radius pp k) (next_hue s pp k)"
    using p1h by (simp add: s2_def v[symmetric] p1 p_defs i_def add.commute)
  have "same_env s s2" by (simp add: same_env_def s2_def l2 pp_def)
  moreover have "untouched pp (particleProps s2) k"
    using un by (simp add: untouched_def s2_def i_def)
  moreover have "randCalls s2 = randCalls s" by (simp add: s2_def)
  ultimately show ?thesis
    using mv st upd ex unfolding pp_def[symmetric] i_def[symmetric]
    by (intro exI[of _ s2]) (simp add: s2_def)
qed

lemma untouched_trans:
  assumes "untouched pp pp1 k" "untouched pp1 pp2 k" "length pp1 = length pp"
  shows "untouched pp pp2 k"
  using assms by (simp add: untouched_def)

lemma spawnedAt_env:
  assumes "same_env s t"
  shows "spawnedAt P rnd r t pp k = spawnedAt P rnd r s pp k"
  using assms by (simp add: same_env_def spawnedAt_def)

lemma updateParticle_char:
  assumes len: "9 * k + 9 \<le> length (particleProps s)"
  shows "\<exists>s'. updateParticle P noise3D rnd (9 * k) s = Some s' \<and> same_env s s' \<and>
           untouched (particleProps s) (particleProps s') k \<and>
           (if inBounds s (particleProps s) k
            then strokes s' = drawParticle (strokes s) (p_x (particleProps s) k) (p_y (particleProps s) k)
              (next_x noise3D s (particleProps s) k) (next_y noise3D s (particleProps s) k)
              (p_life (particleProps s) k) (p_ttl (particleProps s) k)
              (p_radius (particleProps s) k) (next_hue s (particleProps s) k)
            else strokes s' = strokes s) \<and>
           (if inBounds s (particleProps s) k \<and> \<not> expired (particleProps s) k
            then movedTo noise3D s (particleProps s) (particleProps s') k \<and> randCalls s' = randCalls s
            else spawnedAt P rnd (randCalls s) s (particleProps s') k \<and> randCalls s' = randCalls s + 6)"
proof (cases "inBounds s (particleProps s) k")
  case False
  then have "updateParticle P noise3D rnd (9 * k) s = initParticle P rnd (9 * k) s"
    using len by (simp add: updateParticle_def Let_def inBounds_def p_x_def p_y_def)
  with initParticle_char[OF len, of P rnd] False show ?thesis by auto
next
  case True
  from updateParticle_inBounds[OF len True, of noise3D P rnd]
  obtain s2 where s2: "same_env s s2" "untouched (particleProps s) (particleProps s2) k"
    "randCalls s2 = randCalls s"
    "movedTo noise3D s (particleProps s) (particleProps s2) k"
    "strokes s2 = drawParticle (strokes s) (p_x (particleProps s) k) (p_y (particleProps s) k)
              (next_x noise3D s (particleProps s) k) (next_y noise3D s (particleProps s) k)
              (p_life (particleProps s) k) (p_ttl (particleProps s) k)
              (p_radius (particleProps s) k) (next_hue s (particleProps s) k)"
    "updateParticle P noise3D rnd (9 * k) s =
             (if expired (particleProps s) k then initParticle P rnd (9 * k) s2 else Some s2)"
    by blast
  show ?thesis
  proof (cases "expired (particleProps s) k")
    case False
    with True s2 show ?thesis by simp
  next
    case ex: True
    have len2: "9 * k + 9 \<le> length (particleProps s2)"
      using len s2(1) by (simp add: same_env_def)
    from initParticle_char[OF len2, of P rnd]
    obtain s' where s': "initParticle P rnd (9 * k) s2 = Some s'" "same_env s2 s'"
      "untouched (particleProps s2) (particleProps s') k" "strokes s' = strokes s2"
      "randCalls s' = randCalls s2 + 6"
      "spawnedAt P rnd (randCalls s2) s2 (particleProps s') k"
      by blast
    have "same_env s s'" using s2(1) s'(2) by (simp add: same_env_def)
    moreover have "untouched (particleProps s) (particleProps s') k"
      using untouched_trans[OF s2(2) s'(3)] s2(1) by (simp add: same_env_def)
    moreover have "spawnedAt P rnd (randCalls s) s (particleProps s') k"
      using s'(6) s2(3) spawnedAt_env[OF s2(1)] by simp
    ultimately show ?thesis
      using True ex s2(3,5,6) s'(1,4,5) by simp
  qed
qed

lemma particleLoop_rule:
  assumes "I m s" and "m \<le> particleCount P"
    and step: "\<And>j t. j < particleCount P \<Longrightarrow> I j t \<Longrightarrow>
                 \<exists>t'. updateParticle P noise3D rnd (9 * j) t = Some t' \<and> I (Suc j) t'"
  shows "\<exists>s'. particleLoop P noise3D rnd (9 * m) s = Some s' \<and> I (particleCount P) s'"
  using assms(1,2)
proof (induction "particleCount P - m" arbitrary: m s)
  case 0
  then have "m = particleCount P" by simp
  then show ?case using "0.prems"(1)
    by (simp add: particleLoop.simps[of P noise3D rnd "9 * m" s] particlePropsLength_def particlePropCount_def)
next
  case (Suc d)
  then have lt: "m < particleCount P" by simp
  from step[OF lt Suc.prems(1)] obtain t' where
    t': "updateParticle P noise3D rnd (9 * m) s = Some t'" "I (Suc m) t'" by blast
  have "d = particleCount P - Suc m" using Suc.hyps(2) by simp
  from Suc.hyps(1)[OF this t'(2)] lt
  obtain s' where "particleLoop P noise3D rnd (9 * Suc m) t' = Some s'" "I (particleCount P) s'"
    by auto
  then show ?case using lt t'(1)
    by (simp add: particleLoop.simps[of P noise3D rnd "9 * m" s] particlePropsLength_def
        particlePropCount_def add.commute)
qed

lemma sameSlot_fields:
  assumes "sameSlot pp pp' k"
  shows "p_x pp' k = p_x pp k" "p_y pp' k = p_y pp k" "p_vx pp' k = p_vx pp k"
    "p_vy pp' k = p_vy pp k" "p_life pp' k = p_life pp k" "p_ttl pp' k = p_ttl pp k"
    "p_speed pp' k = p_speed pp k" "p_radius pp' k = p_radius pp k" "p_hue pp' k = p_hue pp k"
  using assms[unfolded sameSlot_def, rule_format, of 0]
    assms[unfolded sameSlot_def, rule_format, of 1]
    assms[unfolded sameSlot_def, rule_format, of 2]
    assms[unfolded sameSlot_def, rule_format, of 3]
    assms[unfolded sameSlot_def, rule_format, of 4]
    assms[unfolded sameSlot_def, rule_format, of 5]
    assms[unfolded sameSlot_def, rule_format, of 6]
    assms[unfolded sameSlot_def, rule_format, of 7]
    assms[unfolded sameSlot_def, rule_format, of 8]
  by (simp_all add: p_defs)

lemma sameSlot_refl: "sameSlot pp pp k"
  by (simp add: sameSlot_def)

lemma sameSlot_trans: "sameSlot pp pp1 k \<Longrightarrow> sameSlot pp1 pp2 k \<Longrightarrow> sameSlot pp pp2 k"
  by (simp add: sameSlot_def)

lemma untouched_sameSlot:
  assumes "untouched pp pp' j" "k \<noteq> j" "9 * k + 9 \<le> length pp"
  shows "sameSlot pp pp' k"
  unfolding sameSlot_def
proof (intro allI impI)
  fix d :: nat assume d: "d < 9"
  have "9 * k + d < length pp" using d assms(3) by arith
  moreover have "9 * k + d < 9 * j \<or> 9 * j + 9 \<le> 9 * k + d" using d assms(2) by arith
  ultimately show "pp' ! (9 * k + d) = pp ! (9 * k + d)"
    using assms(1) unfolding untouched_def by blast
qed

lemma stepped_cong_old:
  assumes "same_env s t" "sameSlot pp ppt k"
  shows "stepped P noise3D rnd t ppt pp' k = stepped P noise3D rnd s pp pp' k"
  using assms(1) sameSlot_fields[OF assms(2)]
  by (simp add: stepped_def same_env_def inBounds_def outOfBounds_def expired_def movedTo_def
      spawnedAt_def next_defs)

lemma stepped_cong_new:
  assumes "sameSlot pp' pp'' k"
  shows "stepped P noise3D rnd s pp pp'' k = stepped P noise3D rnd s pp pp' k"
  using sameSlot_fields[OF assms]
  by (simp add: stepped_def movedTo_def spawnedAt_def)

lemma drawParticle_append:
  "drawParticle ctx x y x2 y2 life ttl radius hue =
     ctx @ drawParticle [] x y x2 y2 life ttl radius hue"
  by (simp add: drawParticle_def Let_def)

lemma particleStrokes_cong:
  assumes "same_env s t" "sameSlot pp ppt k"
  shows "particleStrokes noise3D t ppt k = particleStrokes noise3D s pp k"
  using assms(1) sameSlot_fields[OF assms(2)]
  by (simp add: particleStrokes_def same_env_def inBounds_def outOfBounds_def next_defs)

lemma updateParticle_stepped:
  assumes len: "9 * k + 9 \<le> length (particleProps s)"
  shows "\<exists>s'. updateParticle P noise3D rnd (9 * k) s = Some s' \<and> same_env s s' \<and>
           untouched (particleProps s) (particleProps s') k \<and> randCalls s \<le> randCalls s' \<and>
           strokes s' = strokes s @ particleStrokes noise3D s (particleProps s) k \<and>
           stepped P noise3D rnd s (particleProps s) (particleProps s') k"
proof -
  from updateParticle_char[OF len, of P noise3D rnd] obtain s' where
    s': "updateParticle P noise3D rnd (9 * k) s = Some s'" "same_env s s'"
      "untouched (particleProps s) (particleProps s') k"
      "if inBounds s (particleProps s) k
            then strokes s' = drawParticle (strokes s) (p_x (particleProps s) k) (p_y (particleProps s) k)
              (next_x noise3D s (particleProps s) k) (next_y noise3D s (particleProps s) k)
              (p_life (particleProps s) k) (p_ttl (particleProps s) k)
              (p_radius (particleProps s) k) (next_hue s (particleProps s) k)
            else strokes s' = strokes s"
      "if inBounds s (particleProps s) k \<and> \<not> expired (particleProps s) k
       then movedTo noise3D s (particleProps s) (particleProps s') k \<and> randCalls s' = randCalls s
       else spawnedAt P rnd (randCalls s) s (particleProps s') k \<and> randCalls s' = randCalls s + 6"
    by blast
  have "stepped P noise3D rnd s (particleProps s) (particleProps s') k"
    using s'(5) by (auto simp: stepped_def split: if_splits)
  moreover have "randCalls s \<le> randCalls s'" using s'(5) by (auto split: if_splits)
  moreover have "strokes s' = strokes s @ particleStrokes noise3D s (particleProps s) k"
    using s'(4) drawParticle_append[of "strokes s"]
    by (simp add: particleStrokes_def split: if_splits)
  ultimately show ?thesis using s'(1-3) by blast
qed

lemma particleLoop_slots:
  assumes len: "length (particleProps s) = 9 * particleCount P"
  shows "\<exists>s'. particleLoop P noise3D rnd 0 s = Some s' \<and> same_env s s' \<and>
           randCalls s \<le> randCalls s' \<and>
           strokes s' = strokes s @
             concat (map (particleStrokes noise3D s (particleProps s)) [0..<particleCount P]) \<and>
           (\<forall>k < particleCount P. stepped P noise3D rnd s (particleProps s) (particleProps s') k)"
proof -
  define I where "I = (\<lambda>m t. same_env s t \<and> randCalls s \<le> randCalls t \<and>
     strokes t = strokes s @ concat (map (particleStrokes noise3D s (particleProps s)) [0..<m]) \<and>
     (\<forall>k < particleCount P.
        if k < m then stepped P noise3D rnd s (particleProps s) (particleProps t) k
        else sameSlot (particleProps s) (particleProps t) k))"
  have init: "I 0 s" by (simp add: I_def same_env_def sameSlot_refl)
  have step: "\<exists>t'. updateParticle P noise3D rnd (9 * j) t = Some t' \<and> I (Suc j) t'"
    if j: "j < particleCount P" and inv: "I j t" for j t
  proof -
    have env: "same_env s t" and rc: "randCalls s \<le> randCalls t"
      and st: "strokes t = strokes s @ concat (map (particleStrokes noise3D s (particleProps s)) [0..<j])"
      using inv by (simp_all add: I_def)
    have lt: "length (particleProps t) = 9 * particleCount P"
      using env len by (simp add: same_env_def)
    have lj: "9 * j + 9 \<le> length (particleProps t)" using j lt by simp
    have sj: "sameSlot (particleProps s) (particleProps t) j" using inv j by (simp add: I_def)
    from updateParticle_stepped[OF lj, of P noise3D rnd] obtain t' where
      t': "updateParticle P noise3D rnd (9 * j) t = Some t'" "same_env t t'"
        "untouched (particleProps t) (particleProps t') j" "randCalls t \<le> randCalls t'"
        "strokes t' = strokes t @ particleStrokes noise3D t (particleProps t) j"
        "stepped P noise3D rnd t (particleProps t) (particleProps t') j"
      by blast
    have env': "same_env s t'" using env t'(2) by (simp add: same_env_def)
    have st': "strokes t' = strokes s @
        concat (map (particleStrokes noise3D s (particleProps s)) [0..<Suc j])"
      using t'(5) st particleStrokes_cong[OF env sj, of noise3D] by simp
    have slots: "if k < Suc j then stepped P noise3D rnd s (particleProps s) (particleProps t') k
        else sameSlot (particleProps s) (particleProps t') k" if k: "k < particleCount P" for k
    proof (cases "k = j")
      case True
      from stepped_cong_old[OF env sj] t'(6) True show ?thesis by simp
    next
      case False
      have lk: "9 * k + 9 \<le> length (particleProps t)" using k lt by simp
      have same: "sameSlot (particleProps t) (particleProps t') k"
        using untouched_sameSlot[OF t'(3) False lk] .
      show ?thesis
      proof (cases "k < j")
        case True
        then have "stepped P noise3D rnd s (particleProps s) (particleProps t) k"
          using inv k by (simp add: I_def)
        with stepped_cong_new[OF same] True show ?thesis by simp
      next
        case False
        with \<open>k \<noteq> j\<close> have gt: "\<not> k < Suc j" "\<not> k < j" by simp_all
        then have "sameSlot (particleProps s) (particleProps t) k"
          using inv k by (simp add: I_def)
        from sameSlot_trans[OF this same] gt show ?thesis by simp
      qed
    qed
    show ?thesis using t'(1,4) env' rc st' slots unfolding I_def by auto
  qed
  from particleLoop_rule[of I 0 s P noise3D rnd, OF init _ step]
  obtain s' where "particleLoop P noise3D rnd 0 s = Some s'" "I (particleCount P) s'"
    by auto
  then show ?thesis by (auto simp: I_def)
qed

lemma stepped_env:
  assumes "same_env s t"
  shows "stepped P noise3D rnd t pp pp' k = stepped P noise3D rnd s pp pp' k"
  using stepped_cong_old[OF assms sameSlot_refl] .

lemma particleStrokes_env:
  assumes "same_env s t"
  shows "particleStrokes noise3D t pp k = particleStrokes noise3D s pp k"
  using particleStrokes_cong[OF assms sameSlot_refl] .

lemma animate_char:
  assumes len: "length (particleProps s) = 9 * particleCount P"
  shows "\<exists>s'. animate P noise3D rnd now s = Some s' \<and>
           length (particleProps s') = length (particleProps s) \<and>
           canvas_width s' = canvas_width s \<and> canvas_height s' = canvas_height s \<and>
           center s' = center s \<and> tick s' = tick s + 1 \<and>
           (if now - lastColorChangeRef s \<ge> COLOR_CHANGE_INTERVAL
            then targetColorRef s' = getNextColor (rnd (randCalls s)) \<and> lastColorChangeRef s' = now
            else targetColorRef s' = targetColorRef s \<and> lastColorChangeRef s' = lastColorChangeRef s) \<and>
           colorTransitionRef s' = lerp (colorTransitionRef s) (targetColorRef s') TRANSITION_SPEED \<and>
           randCalls s \<le> randCalls s' \<and>
           strokes s' = concat (map (particleStrokes noise3D s' (particleProps s)) [0..<particleCount P]) \<and>
           (\<forall>k < particleCount P. stepped P noise3D rnd s' (particleProps s) (particleProps s') k)"
proof -
  define s0 where "s0 = s\<lparr>tick := tick s + 1, strokes := []\<rparr>"
  define s1 where "s1 = (if now - lastColorChangeRef s0 \<ge> COLOR_CHANGE_INTERVAL
                then s0\<lparr>targetColorRef := getNextColor (rnd (randCalls s0)),
                       randCalls := randCalls s0 + 1,
                       lastColorChangeRef := now\<rparr>
                else s0)"
  define s2 where "s2 = s1\<lparr>colorTransitionRef :=
                    lerp (colorTransitionRef s1) (targetColorRef s1) TRANSITION_SPEED\<rparr>"
  have an: "animate P noise3D rnd now s = particleLoop P noise3D rnd 0 s2"
    by (simp add: animate_def draw_def updateAndDrawParticles_def Let_def s2_def s1_def s0_def)
  have pp2: "particleProps s2 = particleProps s" by (simp add: s2_def s1_def s0_def)
  have len2: "length (particleProps s2) = 9 * particleCount P" using len pp2 by simp
  from particleLoop_slots[OF len2, of noise3D rnd] obtain s' where
    s': "particleLoop P noise3D rnd 0 s2 = Some s'" "same_env s2 s'" "randCalls s2 \<le> randCalls s'"
      "strokes s' = strokes s2 @
             concat (map (particleStrokes noise3D s2 (particleProps s2)) [0..<particleCount P])"
      "\<forall>k < particleCount P. stepped P noise3D rnd s2 (particleProps s2) (particleProps s') k"
    by blast
  have g: "canvas_width s2 = canvas_width s" "canvas_height s2 = canvas_height s"
    "center s2 = center s" "tick s2 = tick s + 1" "strokes s2 = []" "randCalls s \<le> randCalls s2"
    "if now - lastColorChangeRef s \<ge> COLOR_CHANGE_INTERVAL
     then targetColorRef s2 = getNextColor (rnd (randCalls s)) \<and> lastColorChangeRef s2 = now
     else targetColorRef s2 = targetColorRef s \<and> lastColorChangeRef s2 = lastColorChangeRef s"
    "colorTransitionRef s2 = lerp (colorTransitionRef s) (targetColorRef s2) TRANSITION_SPEED"
    by (simp_all add: s2_def s1_def s0_def)
  have e: "length (particleProps s') = length (particleProps s)"
    "canvas_width s' = canvas_width s2" "canvas_height s' = canvas_height s2"
    "center s' = center s2" "tick s' = tick s2" "targetColorRef s' = targetColorRef s2"
    "lastColorChangeRef s' = lastColorChangeRef s2" "colorTransitionRef s' = colorTransitionRef s2"
    using s'(2) pp2 by (simp_all add: same_env_def)
  have "particleStrokes noise3D s' (particleProps s) = particleStrokes noise3D s2 (particleProps s)"
    using particleStrokes_env[OF s'(2), of noise3D] by (intro ext)
  then have "strokes s' = concat (map (particleStrokes noise3D s' (particleProps s)) [0..<particleCount P])"
    using s'(4) g(5) pp2 by simp
  moreover have "\<forall>k < particleCount P. stepped P noise3D rnd s' (particleProps s) (particleProps s') k"
    using s'(5) pp2 stepped_env[OF s'(2), of P noise3D rnd] by simp
  moreover have "randCalls s \<le> randCalls s'" using g(6) s'(3) by simp
  ultimately show ?thesis
    unfolding an using s'(1) g(1-4,7,8) e by (simp split: if_splits)
qed

section \<open>The effect and its runs\<close>

lemma initLoop_rule:
  assumes "I m s" and "m \<le> particleCount P"
    and step: "\<And>j t. j < particleCount P \<Longrightarrow> I j t \<Longrightarrow>
                 \<exists>t'. initParticle P rnd (9 * j) t = Some t' \<and> I (Suc j) t'"
  shows "\<exists>s'. initLoop P rnd (9 * m) s = Some s' \<and> I (particleCount P) s'"
  using assms(1,2)
proof (induction "particleCount P - m" arbitrary: m s)
  case 0
  then have "m = particleCount P" by simp
  then show ?case using "0.prems"(1)
    by (simp add: initLoop.simps[of P rnd "9 * m" s] particlePropsLength_def particlePropCount_def)
next
  case (Suc d)
  then have lt: "m < particleCount P" by simp
  from step[OF lt Suc.prems(1)] obtain t' where
    t': "initParticle P rnd (9 * m) s = Some t'" "I (Suc m) t'" by blast
  have "d = particleCount P - Suc m" using Suc.hyps(2) by simp
  from Suc.hyps(1)[OF this t'(2)] lt
  obtain s' where "initLoop P rnd (9 * Suc m) t' = Some s'" "I (particleCount P) s'"
    by auto
  then show ?case using lt t'(1)
    by (simp add: initLoop.simps[of P rnd "9 * m" s] particlePropsLength_def
        particlePropCount_def add.commute)
qed

lemma spawnedAt_cong:
  assumes "sameSlot pp pp' k"
  shows "spawnedAt P rnd r s pp' k = spawnedAt P rnd r s pp k"
  using sameSlot_fields[OF assms] by (simp add: spawnedAt_def)

lemma initLoop_slots:
  assumes len: "length (particleProps s) = 9 * particleCount P"
  shows "\<exists>s'. initLoop P rnd 0 s = Some s' \<and> same_env s s' \<and> strokes s' = strokes s \<and>
           randCalls s' = randCalls s + 6 * particleCount P \<and>
           (\<forall>k < particleCount P. spawnedAt P rnd (randCalls s + 6 * k) s (particleProps s') k)"
proof -
  define I where "I = (\<lambda>m t. same_env s t \<and> strokes t = strokes s \<and>
     randCalls t = randCalls s + 6 * m \<and>
     (\<forall>k < m. spawnedAt P rnd (randCalls s + 6 * k) s (particleProps t) k))"
  have init: "I 0 s" by (simp add: I_def same_env_def)
  have step: "\<exists>t'. initParticle P rnd (9 * j) t = Some t' \<and> I (Suc j) t'"
    if j: "j < particleCount P" and inv: "I j t" for j t
  proof -
    have env: "same_env s t" and rc: "randCalls t = randCalls s + 6 * j"
      and st: "strokes t = strokes s"
      using inv by (simp_all add: I_def)
    have lt: "length (particleProps t) = 9 * particleCount P"
      using env len by (simp add: same_env_def)
    have lj: "9 * j + 9 \<le> length (particleProps t)" using j lt by simp
    from initParticle_char[OF lj, of P rnd] obtain t' where
      t': "initParticle P rnd (9 * j) t = Some t'" "same_env t t'"
        "untouched (particleProps t) (particleProps t') j" "strokes t' = strokes t"
        "randCalls t' = randCalls t + 6"
        "spawnedAt P rnd (randCalls t) t (particleProps t') j"
      by blast
    have env': "same_env s t'" using env t'(2) by (simp add: same_env_def)
    have slots: "spawnedAt P rnd (randCalls s + 6 * k) s (particleProps t') k" if k: "k < Suc j" for k
    proof (cases "k = j")
      case True
      then show ?thesis using t'(6) rc spawnedAt_env[OF env, of P rnd] by simp
    next
      case False
      then have kj: "k < j" using k by simp
      have lk: "9 * k + 9 \<le> length (particleProps t)" using kj j lt by simp
      have same: "sameSlot (particleProps t) (particleProps t') k"
        using untouched_sameSlot[OF t'(3) False lk] .
      have "spawnedAt P rnd (randCalls s + 6 * k) s (particleProps t) k"
        using inv kj by (simp add: I_def)
      then show ?thesis using spawnedAt_cong[OF same] by simp
    qed
    show ?thesis using t'(1,4,5) env' rc st slots unfolding I_def by auto
  qed
  from initLoop_rule[of I 0 s P rnd, OF init _ step]
  obtain s' where "initLoop P rnd 0 s = Some s'" "I (particleCount P) s'"
    by auto
  then show ?thesis by (auto simp: I_def)
qed

lemma mount_char:
  "\<exists>s. mount P rnd now w h = Some s \<and>
       length (particleProps s) = 9 * particleCount P \<and>
       colorTransitionRef s = baseHue P \<and> targetColorRef s = baseHue P \<and>
       lastColorChangeRef s = now \<and> canvas_width s = w \<and> canvas_height s = h \<and>
       center s = ((1/2) * real w, (1/2) * real h) \<and> tick s = 0 \<and> strokes s = [] \<and>
       randCalls s = 6 * particleCount P \<and>
       (\<forall>k < particleCount P. spawnedAt P rnd (6 * k) s (particleProps s) k)"
proof -
  define s0 where "s0 = resize w h
          \<lparr> particleProps = replicate (particlePropsLength P) 0,
            colorTransitionRef = baseHue P,
            targetColorRef = baseHue P,
            lastColorChangeRef = now,
            canvas_width = 0, canvas_height = 0,
            center = (0, 0),
            tick = 0,
            randCalls = 0,
            strokes = [] \<rparr>"
  have m: "mount P rnd now w h = initLoop P rnd 0 s0" by (simp add: mount_def s0_def)
  have len: "length (particleProps s0) = 9 * particleCount P"
    by (simp add: s0_def resize_def particlePropsLength_def particlePropCount_def)
  from initLoop_slots[OF len, of rnd] obtain s where
    s: "initLoop P rnd 0 s0 = Some s" "same_env s0 s" "strokes s = strokes s0"
      "randCalls s = randCalls s0 + 6 * particleCount P"
      "\<forall>k < particleCount P. spawnedAt P rnd (randCalls s0 + 6 * k) s0 (particleProps s) k"
    by blast
  have g: "colorTransitionRef s0 = baseHue P" "targetColorRef s0 = baseHue P"
    "lastColorChangeRef s0 = now" "canvas_width s0 = w" "canvas_height s0 = h"
    "center s0 = ((1/2) * real w, (1/2) * real h)" "tick s0 = 0" "strokes s0 = []"
    "randCalls s0 = 0"
    by (simp_all add: s0_def resize_def)
  have "\<forall>k < particleCount P. spawnedAt P rnd (6 * k) s (particleProps s) k"
    using s(5) g(9) spawnedAt_env[OF s(2), of P rnd] by simp
  then show ?thesis
    unfolding m using s(1-4) g len by (simp add: same_env_def)
qed

lemma run_rule:
  assumes "Inv s"
    and step: "\<And>e t. e \<in> set es \<Longrightarrow> Inv t \<Longrightarrow>
                 \<exists>t'. handle P noise3D rnd e t = Some t' \<and> Inv t'"
  shows "\<exists>s'. run P noise3D rnd es s = Some s' \<and> Inv s'"
  using assms
proof (induction es arbitrary: s)
  case Nil
  then show ?case by simp
next
  case (Cons e es)
  from Cons.prems(2)[of e s] Cons.prems(1) obtain t' where
    t': "handle P noise3D rnd e s = Some t'" "Inv t'" by auto
  have "\<exists>s'. run P noise3D rnd es t' = Some s' \<and> Inv s'"
    by (rule Cons.IH[OF t'(2)]) (use Cons.prems(2) in auto)
  with t'(1) show ?case by simp
qed

lemma simulate_rule:
  assumes m: "\<And>s. mount P rnd now w h = Some s \<Longrightarrow> Inv s"
    and step: "\<And>e t. e \<in> set es \<Longrightarrow> Inv t \<Longrightarrow>
                 \<exists>t'. handle P noise3D rnd e t = Some t' \<and> Inv t'"
  shows "\<exists>s'. simulate P noise3D rnd now w h es = Some s' \<and> Inv s'"
proof -
  from mount_char[of P rnd now w h] obtain s where s: "mount P rnd now w h = Some s" by blast
  from run_rule[of Inv s es P noise3D rnd, OF m[OF s] step] s
  show ?thesis by (simp add: simulate_def)
qed

lemma run_append:
  "run P noise3D rnd (es @ es') s =
     (case run P noise3D rnd es s of None \<Rightarrow> None | Some s' \<Rightarrow> run P noise3D rnd es' s')"
  by (induction es arbitrary: s) (auto split: option.splits)

lemma simulate_Nil: "simulate P noise3D rnd now w h [] = mount P rnd now w h"
  by (simp add: simulate_def split: option.splits)

section \<open>The fade envelope\<close>

lemma js_rem_half: "0 < m \<Longrightarrow> js_rem ((1/2) * m) m = (1/2) * m"
  by (simp add: js_rem_def js_trunc_def)

lemma js_rem_self: "0 < m \<Longrightarrow> js_rem m m = 0"
  by (simp add: js_rem_def js_trunc_def)

lemma js_rem_three_halves:
  assumes "0 < m"
  shows "js_rem (m + (1/2) * m) m = (1/2) * m"
proof -
  have "(m + (1/2) * m) / m = 3/2" using assms by (simp add: field_simps)
  moreover have "\<lfloor>3/2 :: real\<rfloor> = 1" by linarith
  ultimately show ?thesis by (simp add: js_rem_def js_trunc_def)
qed

section \<open>Resizing and the buffer\<close>

lemma simulate_length:
  "\<exists>s. simulate P noise3D rnd now w h es = Some s \<and>
     length (particleProps s) = 9 * particleCount P"
proof (rule simulate_rule)
  fix s assume "mount P rnd now w h = Some s"
  with mount_char[of P rnd now w h]
  show "length (particleProps s) = 9 * particleCount P" by auto
next
  fix e and t :: vortex assume len: "length (particleProps t) = 9 * particleCount P"
  show "\<exists>t'. handle P noise3D rnd e t = Some t' \<and> length (particleProps t') = 9 * particleCount P"
  proof (cases e)
    case (Frame now')
    with animate_char[OF len, of noise3D rnd now'] len show ?thesis by auto
  next
    case (Resize w' h')
    with len show ?thesis by (simp add: resize_def)
  qed
qed

text \<open>
  C8. \<open>resize\<close> changes the canvas size and the centre and nothing else; the particle
  buffer is left as it is, and its length is \<open>particleCount \<times> 9\<close> after the effect has
  allocated it and after any sequence of frames and resizes.
\<close>

theorem resize_frame:
  "particleProps (resize w h s) = particleProps s \<and>
   colorTransitionRef (resize w h s) = colorTransitionRef s \<and>
   targetColorRef (resize w h s) = targetColorRef s \<and>
   lastColorChangeRef (resize w h s) = lastColorChangeRef s \<and>
   tick (resize w h s) = tick s \<and> randCalls (resize w h s) = randCalls s \<and>
   strokes (resize w h s) = strokes s \<and>
   canvas_width (resize w h s) = w \<and> canvas_height (resize w h s) = h \<and>
   center (resize w h s) = ((1/2) * real w, (1/2) * real h) \<and>
   (\<exists>s'. simulate P noise3D rnd now w0 h0 es = Some s' \<and>
         length (particleProps s') = particleCount P * 9)"
  using simulate_length[of P noise3D rnd now w0 h0 es]
  by (simp add: resize_def mult.commute)

section \<open>Ranges of a spawned particle\<close>

lemma random_source_half: "random_source rnd_half"
  by (simp add: random_source_def rnd_half_def)

lemma rand_bounds:
  assumes "0 \<le> u" "u < 1" "0 \<le> n"
  shows "0 \<le> rand u n" "rand u n \<le> n" "0 < n \<Longrightarrow> rand u n < n"
proof -
  show "0 \<le> rand u n" using assms by (simp add: rand_def)
  show "rand u n \<le> n" using assms mult_left_le[of u n] by (simp add: rand_def)
  show "rand u n < n" if "0 < n" using that assms by (simp add: rand_def)
qed

lemma spawnedAt_ranges:
  assumes rs: "random_source rnd" and sp: "spawnedAt P rnd r s pp k"
  shows "baseTTL \<le> p_ttl pp k" "p_ttl pp k < baseTTL + rangeTTL"
    "0 \<le> rangeSpeed P \<Longrightarrow> baseSpeed P \<le> p_speed pp k \<and> p_speed pp k \<le> baseSpeed P + rangeSpeed P"
    "0 < rangeSpeed P \<Longrightarrow> p_speed pp k < baseSpeed P + rangeSpeed P"
    "0 \<le> rangeRadius P \<Longrightarrow> baseRadius P \<le> p_radius pp k \<and> p_radius pp k \<le> baseRadius P + rangeRadius P"
    "0 < rangeRadius P \<Longrightarrow> p_radius pp k < baseRadius P + rangeRadius P"
proof -
  have u: "0 \<le> rnd n" "rnd n < 1" for n using rs by (simp_all add: random_source_def)
  have ttl: "p_ttl pp k = baseTTL + rand (rnd (r + 2)) rangeTTL"
    and sp': "p_speed pp k = baseSpeed P + rand (rnd (r + 3)) (rangeSpeed P)"
    and ra: "p_radius pp k = baseRadius P + rand (rnd (r + 4)) (rangeRadius P)"
    using sp by (simp_all add: spawnedAt_def)
  have rt: "0 < rangeTTL" by (simp add: rangeTTL_def)
  show "baseTTL \<le> p_ttl pp k" "p_ttl pp k < baseTTL + rangeTTL"
    using rand_bounds(1,3)[OF u, of rangeTTL "r + 2"] rt ttl by simp_all
  show "baseSpeed P \<le> p_speed pp k \<and> p_speed pp k \<le> baseSpeed P + rangeSpeed P"
    if "0 \<le> rangeSpeed P"
    using rand_bounds(1,2)[OF u that, of "r + 3"] sp' by simp
  show "p_speed pp k < baseSpeed P + rangeSpeed P" if "0 < rangeSpeed P"
    using rand_bounds(3)[OF u _ that, of "r + 3"] that sp' by simp
  show "baseRadius P \<le> p_radius pp k \<and> p_radius pp k \<le> baseRadius P + rangeRadius P"
    if "0 \<le> rangeRadius P"
    using rand_bounds(1,2)[OF u that, of "r + 4"] ra by simp
  show "p_radius pp k < baseRadius P + rangeRadius P" if "0 < rangeRadius P"
    using rand_bounds(3)[OF u _ that, of "r + 4"] that ra by simp
qed

section \<open>Interpolation\<close>

lemma lerp_between:
  assumes "0 \<le> t" "t \<le> 1" "lo \<le> a" "a \<le> hi" "lo \<le> b" "b \<le> hi"
  shows "lo \<le> lerp a b t" "lerp a b t \<le> hi"
proof -
  have "lerp a b t = (1 - t) * a + t * b" by (simp add: lerp_def)
  moreover have "(1 - t) * lo \<le> (1 - t) * a" "t * lo \<le> t * b"
    "(1 - t) * a \<le> (1 - t) * hi" "t * b \<le> t * hi"
    using assms by (simp_all add: mult_left_mono)
  moreover have "(1 - t) * lo + t * lo = lo" "(1 - t) * hi + t * hi = hi"
    by (simp_all add: algebra_simps)
  ultimately show "lo \<le> lerp a b t" "lerp a b t \<le> hi" by linarith+
qed

section \<open>Lifetimes and alpha\<close>

lemma js_rem_range:
  assumes "0 \<le> a" "0 < b"
  shows "0 \<le> js_rem a b" "js_rem a b < b"
proof -
  have q: "0 \<le> a / b" using assms by simp
  have r: "js_rem a b = a - b * of_int \<lfloor>a / b\<rfloor>" using q by (simp add: js_rem_def js_trunc_def)
  define n where "n = real_of_int \<lfloor>a / b\<rfloor>"
  have lo: "n \<le> a / b" and hi: "a / b < n + 1" unfolding n_def by linarith+
  have "n * b \<le> a" using lo assms(2) by (simp add: pos_le_divide_eq)
  then show "0 \<le> js_rem a b" using r by (simp add: n_def mult.commute)
  have "a < (n + 1) * b" using hi assms(2) by (simp add: pos_divide_less_eq)
  then show "js_rem a b < b" using r by (simp add: n_def algebra_simps)
qed

lemma fadeInOut_range:
  assumes "0 \<le> t" "0 < m"
  shows "\<exists>a. fadeInOut t m = Some a \<and> 0 \<le> a \<and> a \<le> 1"
proof -
  let ?hm = "(1/2) * m"
  let ?r = "js_rem (t + ?hm) m"
  have hm: "0 < ?hm" using assms(2) by simp
  have "0 \<le> t + ?hm" using assms by simp
  from js_rem_range[OF this assms(2)] have "0 \<le> ?r" "?r < m" .
  then have "\<bar>?r - ?hm\<bar> \<le> ?hm" by linarith
  then have "\<bar>?r - ?hm\<bar> / ?hm \<le> 1" using hm by (simp add: field_simps)
  moreover have "0 \<le> \<bar>?r - ?hm\<bar> / ?hm" using hm by simp
  moreover have "fadeInOut t m = Some (\<bar>?r - ?hm\<bar> / ?hm)"
    using hm by (simp add: fadeInOut_def Let_def)
  ultimately show ?thesis by blast
qed

lemma drawParticle_alpha:
  assumes "0 \<le> life" "0 < ttl"
  shows "list_all alphaDefined (drawParticle [] x y x2 y2 life ttl radius hue)"
proof -
  from fadeInOut_range[OF assms] obtain a where
    a: "fadeInOut life ttl = Some a" "0 \<le> a" "a \<le> 1" by blast
  then show ?thesis by (simp add: drawParticle_def Let_def alphaDefined_def)
qed

lemma particleStrokes_alpha:
  assumes "0 \<le> p_life pp k" "0 < p_ttl pp k"
  shows "list_all alphaDefined (particleStrokes noise3D s pp k)"
  using drawParticle_alpha[OF assms] by (simp add: particleStrokes_def)

lemma ttlInv_mount:
  assumes rs: "random_source rnd" and m: "mount P rnd now w h = Some s"
  shows "ttlInv P s"
proof -
  from mount_char[of P rnd now w h] m have
    s: "length (particleProps s) = 9 * particleCount P" "strokes s = []"
      "\<forall>k < particleCount P. spawnedAt P rnd (6 * k) s (particleProps s) k"
    by auto
  have "baseTTL \<le> p_ttl (particleProps s) k \<and> 0 \<le> p_life (particleProps s) k"
    if "k < particleCount P" for k
  proof -
    have sp: "spawnedAt P rnd (6 * k) s (particleProps s) k" using s(3) that by simp
    from spawnedAt_ranges(1)[OF rs sp] sp show ?thesis by (simp add: spawnedAt_def)
  qed
  then show ?thesis using s(1,2) by (simp add: ttlInv_def)
qed

lemma ttlInv_animate:
  assumes rs: "random_source rnd" and inv: "ttlInv P s"
  shows "\<exists>s'. animate P noise3D rnd now s = Some s' \<and> ttlInv P s'"
proof -
  have len: "length (particleProps s) = 9 * particleCount P" using inv by (simp add: ttlInv_def)
  from animate_char[OF len, of noise3D rnd now] obtain s' where
    s': "animate P noise3D rnd now s = Some s'"
      "length (particleProps s') = length (particleProps s)"
      "strokes s' = concat (map (particleStrokes noise3D s' (particleProps s)) [0..<particleCount P])"
      "\<forall>k < particleCount P. stepped P noise3D rnd s' (particleProps s) (particleProps s') k"
    by blast
  have old: "baseTTL \<le> p_ttl (particleProps s) k" "0 \<le> p_life (particleProps s) k"
    if "k < particleCount P" for k
    using inv that by (simp_all add: ttlInv_def)
  have "baseTTL \<le> p_ttl (particleProps s') k \<and> 0 \<le> p_life (particleProps s') k"
    if k: "k < particleCount P" for k
  proof -
    from s'(4) k have "stepped P noise3D rnd s' (particleProps s) (particleProps s') k" by simp
    then show ?thesis
      using old[OF k] spawnedAt_ranges(1)[OF rs, of P _ s' "particleProps s'" k]
      by (auto simp: stepped_def movedTo_def spawnedAt_def split: if_splits)
  qed
  moreover have "list_all alphaDefined (strokes s')"
  proof -
    have "list_all alphaDefined (particleStrokes noise3D s' (particleProps s) k)"
      if "k < particleCount P" for k
      using particleStrokes_alpha[of "particleProps s" k noise3D s'] old[OF that]
      by (simp add: baseTTL_def)
    then show ?thesis unfolding s'(3) by (simp add: list_all_iff)
  qed
  ultimately show ?thesis using s'(1,2) len by (auto simp: ttlInv_def)
qed

lemma ttlInv_resize: "ttlInv P s \<Longrightarrow> ttlInv P (resize w h s)"
  by (simp add: ttlInv_def resize_def)

text \<open>
  C9. In every state that the effect and any sequence of frames and resizes reach,
  every particle has a lifetime of at least \<open>baseTTL = 50 > 0\<close> and an age that is not
  negative, so \<open>fadeInOut\<close> called on them divides by a half-lifetime other than zero
  and returns an alpha in \<open>[0, 1]\<close>; every stroke of the current frame carries a defined
  alpha (between the threshold \<open>0.01\<close> and \<open>1\<close>).
\<close>

theorem lifetime_positive:
  assumes "random_source rnd"
  shows "\<exists>s. simulate P noise3D rnd now w h es = Some s \<and>
           (\<forall>k < particleCount P.
              0 < p_ttl (particleProps s) k \<and> (1/2) * p_ttl (particleProps s) k \<noteq> 0 \<and>
              (\<exists>a. fadeInOut (p_life (particleProps s) k) (p_ttl (particleProps s) k) = Some a \<and>
                    0 \<le> a \<and> a \<le> 1)) \<and>
           list_all alphaDefined (strokes s)"
proof -
  have "\<exists>s. simulate P noise3D rnd now w h es = Some s \<and> ttlInv P s"
  proof (rule simulate_rule)
    fix s assume "mount P rnd now w h = Some s"
    then show "ttlInv P s" using ttlInv_mount[OF assms] by simp
  next
    fix e and t :: vortex assume "ttlInv P t"
    then show "\<exists>t'. handle P noise3D rnd e t = Some t' \<and> ttlInv P t'"
      using ttlInv_animate[OF assms, of P t noise3D] ttlInv_resize[of P t]
      by (cases e) simp_all
  qed
  then obtain s where s: "simulate P noise3D rnd now w h es = Some s" "ttlInv P s" by blast
  have "0 < p_ttl (particleProps s) k \<and> (1/2) * p_ttl (particleProps s) k \<noteq> 0 \<and>
        (\<exists>a. fadeInOut (p_life (particleProps s) k) (p_ttl (particleProps s) k) = Some a \<and>
              0 \<le> a \<and> a \<le> 1)"
    if k: "k < particleCount P" for k
  proof -
    have t: "0 < p_ttl (particleProps s) k" and l: "0 \<le> p_life (particleProps s) k"
      using s(2) k by (auto simp: ttlInv_def baseTTL_def)
    from fadeInOut_range[OF l t] t show ?thesis by simp
  qed
  then show ?thesis using s by (auto simp: ttlInv_def)
qed

theorem lifetime_positive_witness:
  "random_source rnd_half \<and> 0 < particleCount oneParticleProps \<and>
   (\<exists>s. simulate oneParticleProps noise_zero rnd_half 0 100 100 [Frame 16, Frame 33] = Some s \<and>
      (\<forall>k < particleCount oneParticleProps.
              0 < p_ttl (particleProps s) k \<and> (1/2) * p_ttl (particleProps s) k \<noteq> 0 \<and>
              (\<exists>a. fadeInOut (p_life (particleProps s) k) (p_ttl (particleProps s) k) = Some a \<and>
                    0 \<le> a \<and> a \<le> 1)) \<and>
           list_all alphaDefined (strokes s))"
  using lifetime_positive[OF random_source_half, of oneParticleProps noise_zero 0 100 100 "[Frame 16, Frame 33]"]
  by (simp add: random_source_half oneParticleProps_def defaultProps_def)

section \<open>Particles out of bounds\<close>

lemma concat_map_skip:
  assumes "f k = []"
  shows "concat (map f xs) = concat (map f (filter (\<lambda>j. j \<noteq> k) xs))"
  using assms by (induction xs) auto

text \<open>
  C7. A particle whose stored position is outside the expanded box when a frame starts
  is respawned by that frame whatever its age: the loop body is exactly \<open>initParticle\<close>
  (no noise is sampled, nothing is drawn, the age is not incremented), after the frame
  the slot holds freshly drawn values with \<open>vx = vy = 0\<close> and \<open>age = 0\<close>, and the
  strokes of the frame are those of the other particles.
\<close>

theorem out_of_bounds_respawn:
  assumes "length (particleProps s) = 9 * particleCount P" and "k < particleCount P"
    and "outOfBounds s (p_x (particleProps s) k) (p_y (particleProps s) k)"
  shows "updateParticle P noise3D rnd (9 * k) s = initParticle P rnd (9 * k) s \<and>
         (\<exists>s'. animate P noise3D rnd now s = Some s' \<and>
            (\<exists>r. spawnedAt P rnd r s' (particleProps s') k) \<and>
            p_vx (particleProps s') k = 0 \<and> p_vy (particleProps s') k = 0 \<and>
            p_life (particleProps s') k = 0 \<and>
            strokes s' = concat (map (particleStrokes noise3D s' (particleProps s))
                                   (filter (\<lambda>j. j \<noteq> k) [0..<particleCount P])))"
proof -
  have lk: "9 * k + 9 \<le> length (particleProps s)" using assms(1,2) by simp
  have a: "updateParticle P noise3D rnd (9 * k) s = initParticle P rnd (9 * k) s"
    using lk assms(3) by (simp add: updateParticle_def Let_def p_x_def p_y_def)
  from animate_char[OF assms(1), of noise3D rnd now] obtain s' where
    s': "animate P noise3D rnd now s = Some s'"
      "canvas_width s' = canvas_width s" "canvas_height s' = canvas_height s"
      "strokes s' = concat (map (particleStrokes noise3D s' (particleProps s)) [0..<particleCount P])"
      "\<forall>k < particleCount P. stepped P noise3D rnd s' (particleProps s) (particleProps s') k"
    by blast
  have nb: "\<not> inBounds s' (particleProps s) k"
    using assms(3) s'(2,3) by (simp add: inBounds_def outOfBounds_def)
  have "stepped P noise3D rnd s' (particleProps s) (particleProps s') k"
    using s'(5) assms(2) by simp
  with nb obtain r where r: "spawnedAt P rnd r s' (particleProps s') k"
    by (auto simp: stepped_def)
  have "particleStrokes noise3D s' (particleProps s) k = []"
    using nb by (simp add: particleStrokes_def)
  from concat_map_skip[of "particleStrokes noise3D s' (particleProps s)", OF this] s'(4)
  have st: "strokes s' = concat (map (particleStrokes noise3D s' (particleProps s))
                                   (filter (\<lambda>j. j \<noteq> k) [0..<particleCount P]))"
    by simp
  have z: "p_vx (particleProps s') k = 0" "p_vy (particleProps s') k = 0"
    "p_life (particleProps s') k = 0"
    using r by (simp_all add: spawnedAt_def)
  from a s'(1) r z st show ?thesis by blast
qed

theorem out_of_bounds_respawn_witness:
  "length (particleProps strayState) = 9 * particleCount oneParticleProps \<and>
   0 < particleCount oneParticleProps \<and>
   outOfBounds strayState (p_x (particleProps strayState) 0) (p_y (particleProps strayState) 0) \<and>
   p_life (particleProps strayState) 0 = 3 \<and> p_ttl (particleProps strayState) 0 = 125 \<and>
   updateParticle oneParticleProps noise_zero rnd_half (9 * 0) strayState =
     initParticle oneParticleProps rnd_half (9 * 0) strayState \<and>
   (\<exists>s'. animate oneParticleProps noise_zero rnd_half 16 strayState = Some s' \<and>
      p_vx (particleProps s') 0 = 0 \<and> p_vy (particleProps s') 0 = 0 \<and>
      p_life (particleProps s') 0 = 0 \<and> strokes s' = [])"
proof -
  have h: "length (particleProps strayState) = 9 * particleCount oneParticleProps"
    "0 < particleCount oneParticleProps"
    "outOfBounds strayState (p_x (particleProps strayState) 0) (p_y (particleProps strayState) 0)"
    "p_life (particleProps strayState) 0 = 3" "p_ttl (particleProps strayState) 0 = 125"
    by (simp_all add: strayState_def oneParticleProps_def defaultProps_def outOfBounds_def p_defs)
  have f: "filter (\<lambda>j. j \<noteq> 0) [0..<particleCount oneParticleProps] = []"
    by (simp add: oneParticleProps_def defaultProps_def)
  from out_of_bounds_respawn[OF h(1-3), of noise_zero rnd_half 16] h f
  show ?thesis by auto
qed

section \<open>Ageing and respawn\<close>

lemma run_take_Suc:
  assumes "j < length ts"
  shows "run P noise3D rnd (map Frame (take (Suc j) ts)) s =
           (case run P noise3D rnd (map Frame (take j ts)) s of
              None \<Rightarrow> None
            | Some t \<Rightarrow> animate P noise3D rnd (ts ! j) t)"
proof -
  have "map Frame (take (Suc j) ts) = map Frame (take j ts) @ [Frame (ts ! j)]"
    using assms by (simp add: take_Suc_conv_app_nth)
  then show ?thesis by (simp add: run_append split: option.splits)
qed

lemma animate_slot:
  assumes len: "length (particleProps s) = 9 * particleCount P" and k: "k < particleCount P"
  shows "\<exists>s'. animate P noise3D rnd now s = Some s' \<and>
           length (particleProps s') = 9 * particleCount P \<and>
           (if inBounds s (particleProps s) k \<and> \<not> expired (particleProps s) k
            then movedTo noise3D s' (particleProps s) (particleProps s') k
            else (\<exists>r. spawnedAt P rnd r s' (particleProps s') k))"
proof -
  from animate_char[OF len, of noise3D rnd now] obtain s' where
    s': "animate P noise3D rnd now s = Some s'"
      "length (particleProps s') = length (particleProps s)"
      "canvas_width s' = canvas_width s" "canvas_height s' = canvas_height s"
      "\<forall>k < particleCount P. stepped P noise3D rnd s' (particleProps s) (particleProps s') k"
    by blast
  have ib: "inBounds s' (particleProps s) k = inBounds s (particleProps s) k"
    using s'(3,4) by (simp add: inBounds_def outOfBounds_def)
  have "stepped P noise3D rnd s' (particleProps s) (particleProps s') k" using s'(5) k by simp
  then show ?thesis using s'(1,2) len ib by (auto simp: stepped_def)
qed

lemma animate_respawns:
  assumes "length (particleProps s) = 9 * particleCount P" and "k < particleCount P"
  shows "\<exists>s'. animate P noise3D rnd now s = Some s' \<and>
           (if respawns s k then (\<exists>r. spawnedAt P rnd r s' (particleProps s') k)
            else movedTo noise3D s' (particleProps s) (particleProps s') k)"
  using animate_slot[OF assms, of noise3D rnd now] by (auto simp: respawns_def)

lemma staysInBounds_nth:
  assumes "staysInBounds P noise3D rnd s ts k" "j < length ts"
    "run P noise3D rnd (map Frame (take j ts)) s = Some t"
  shows "inBounds t (particleProps t) k"
  using assms by (auto simp: staysInBounds_def list_all_iff split: option.splits)

lemma ageing:
  assumes len: "length (particleProps s) = 9 * particleCount P" and k: "k < particleCount P"
    and born: "p_life (particleProps s) k = 0"
    and stay: "staysInBounds P noise3D rnd s ts k"
    and j: "j \<le> length ts" "real j \<le> p_ttl (particleProps s) k"
  shows "\<exists>t. run P noise3D rnd (map Frame (take j ts)) s = Some t \<and>
           length (particleProps t) = 9 * particleCount P \<and>
           p_life (particleProps t) k = real j \<and>
           p_ttl (particleProps t) k = p_ttl (particleProps s) k"
  using j
proof (induction j)
  case 0
  then show ?case using len born by simp
next
  case (Suc j)
  then have jl: "j < length ts" and jt: "real j + 1 \<le> p_ttl (particleProps s) k" by simp_all
  from Suc.IH jl jt obtain t where
    t: "run P noise3D rnd (map Frame (take j ts)) s = Some t"
      "length (particleProps t) = 9 * particleCount P"
      "p_life (particleProps t) k = real j"
      "p_ttl (particleProps t) k = p_ttl (particleProps s) k"
    by auto
  have ib: "inBounds t (particleProps t) k" using staysInBounds_nth[OF stay jl t(1)] .
  have ne: "\<not> expired (particleProps t) k" using t(3,4) jt by (simp add: expired_def)
  from animate_slot[OF t(2) k, of noise3D rnd "ts ! j"] ib ne obtain t' where
    t': "animate P noise3D rnd (ts ! j) t = Some t'"
      "length (particleProps t') = 9 * particleCount P"
      "movedTo noise3D t' (particleProps t) (particleProps t') k"
    by auto
  show ?case
    using run_take_Suc[OF jl, of P noise3D rnd s] t t' by (simp add: movedTo_def)
qed

lemma filter_single:
  assumes "n < len" and "\<And>j. j < len \<Longrightarrow> Q j \<longleftrightarrow> j = n"
  shows "filter Q [0..<len] = [n]"
proof -
  have "filter Q [0..<len] = filter (\<lambda>j. j = n) [0..<len]"
    using assms(2) by (intro filter_cong) simp_all
  also have "\<dots> = [n]"
    using assms(1)
  proof (induction len)
    case 0
    then show ?case by simp
  next
    case (Suc len)
    show ?case
    proof (cases "n = len")
      case True
      have "filter (\<lambda>j. j = n) [0..<len] = []"
        using True by (simp add: filter_empty_conv)
      then show ?thesis using True by simp
    next
      case False
      then have "n < len" using Suc.prems by simp
      from Suc.IH[OF this] False show ?thesis by simp
    qed
  qed
  finally show ?thesis .
qed

text \<open>
  C1. A particle is spawned with age 0 and lifetime \<open>L\<close>, and stays inside the expanded
  box at the start of each of the next \<open>\<lceil>L\<rceil> + 1\<close> frames. Then exactly one of these
  frames respawns the particle, the frame number \<open>m = \<lfloor>L\<rfloor> + 1\<close> (which is \<open>\<lceil>L\<rceil>\<close> or
  \<open>\<lceil>L\<rceil> + 1\<close>): before frame \<open>m\<close> the age counts the frames and the lifetime is
  unchanged; in frame \<open>m\<close> the incremented age exceeds the lifetime and the slot is
  respawned with age 0 and a freshly drawn lifetime; in a frame after \<open>m\<close> the age counts
  on from 0.
\<close>

theorem lifetime_respawn:
  assumes "random_source rnd"
    and "length (particleProps s) = 9 * particleCount P" and "k < particleCount P"
    and "p_life (particleProps s) k = 0" and "p_ttl (particleProps s) k = L" and "0 \<le> L"
    and "length ts = nat \<lceil>L\<rceil> + 1"
    and "staysInBounds P noise3D rnd s ts k"
  shows "nat \<lfloor>L\<rfloor> + 1 \<le> length ts \<and>
    respawnFrames P noise3D rnd s ts k = [nat \<lfloor>L\<rfloor>] \<and>
    (\<forall>j \<le> nat \<lfloor>L\<rfloor>. \<exists>t. run P noise3D rnd (map Frame (take j ts)) s = Some t \<and>
         p_life (particleProps t) k = real j \<and> p_ttl (particleProps t) k = L) \<and>
    (\<exists>t. run P noise3D rnd (map Frame (take (nat \<lfloor>L\<rfloor>) ts)) s = Some t \<and>
         p_life (particleProps t) k + 1 > p_ttl (particleProps t) k) \<and>
    (\<exists>t r. run P noise3D rnd (map Frame (take (nat \<lfloor>L\<rfloor> + 1) ts)) s = Some t \<and>
         spawnedAt P rnd r t (particleProps t) k \<and> p_life (particleProps t) k = 0) \<and>
    (\<forall>j. nat \<lfloor>L\<rfloor> + 1 < j \<and> j \<le> length ts \<longrightarrow>
         (\<exists>t. run P noise3D rnd (map Frame (take j ts)) s = Some t \<and>
              p_life (particleProps t) k = real (j - (nat \<lfloor>L\<rfloor> + 1))))"
proof -
  define n where "n = nat \<lfloor>L\<rfloor>"
  have nL: "real n \<le> L" "L < real n + 1"
    using assms(6) unfolding n_def by linarith+
  have "\<lceil>L\<rceil> \<le> \<lfloor>L\<rfloor> + 1" by linarith
  moreover have "\<lfloor>L\<rfloor> \<le> \<lceil>L\<rceil>" by linarith
  ultimately have cl: "n \<le> nat \<lceil>L\<rceil>" "nat \<lceil>L\<rceil> \<le> n + 1"
    using assms(6) unfolding n_def by linarith+
  have lts: "n + 1 \<le> length ts" "length ts \<le> n + 2" using cl assms(7) by simp_all
  note len = assms(2) and k = assms(3) and born = assms(4) and stay = assms(8)
  have before: "\<exists>t. run P noise3D rnd (map Frame (take j ts)) s = Some t \<and>
           length (particleProps t) = 9 * particleCount P \<and>
           p_life (particleProps t) k = real j \<and> p_ttl (particleProps t) k = L"
    if "j \<le> n" for j
    using ageing[OF len k born stay, of j] that lts(1) nL(1) assms(5) by simp
  from before[of n] obtain t where
    t: "run P noise3D rnd (map Frame (take n ts)) s = Some t"
      "length (particleProps t) = 9 * particleCount P"
      "p_life (particleProps t) k = real n" "p_ttl (particleProps t) k = L"
    by auto
  have ex: "expired (particleProps t) k" using t(3,4) nL(2) by (simp add: expired_def)
  have nl: "n < length ts" using lts(1) by simp
  from animate_slot[OF t(2) k, of noise3D rnd "ts ! n"] ex obtain t' r where
    t': "animate P noise3D rnd (ts ! n) t = Some t'"
      "length (particleProps t') = 9 * particleCount P"
      "spawnedAt P rnd r t' (particleProps t') k"
    by auto
  have rt': "run P noise3D rnd (map Frame (take (n + 1) ts)) s = Some t'"
    using run_take_Suc[OF nl, of P noise3D rnd s] t(1) t'(1) by simp
  have life0: "p_life (particleProps t') k = 0" using t'(3) by (simp add: spawnedAt_def)
  have ttl': "baseTTL \<le> p_ttl (particleProps t') k"
    using spawnedAt_ranges(1)[OF assms(1) t'(3)] .
  have ne': "\<not> expired (particleProps t') k"
    using life0 ttl' by (simp add: expired_def baseTTL_def)
  have after: "\<exists>u. run P noise3D rnd (map Frame (take j ts)) s = Some u \<and>
              p_life (particleProps u) k = real (j - (n + 1))"
    if j: "n + 1 < j" "j \<le> length ts" for j
  proof -
    have je: "j = Suc (n + 1)" and l: "n + 1 < length ts" using j lts(2) by simp_all
    have ib: "inBounds t' (particleProps t') k" using staysInBounds_nth[OF stay l rt'] .
    from animate_slot[OF t'(2) k, of noise3D rnd "ts ! (n + 1)"] ib ne' obtain u where
      u: "animate P noise3D rnd (ts ! (n + 1)) t' = Some u"
        "movedTo noise3D u (particleProps t') (particleProps u) k"
      by auto
    have "run P noise3D rnd (map Frame (take (Suc (n + 1)) ts)) s = Some u"
      using run_take_Suc[OF l, of P noise3D rnd s] rt' u(1) by simp
    moreover have "p_life (particleProps u) k = 1" using u(2) life0 by (simp add: movedTo_def)
    ultimately show ?thesis using je by simp
  qed
  have once: "(case run P noise3D rnd (map Frame (take j ts)) s of
                 None \<Rightarrow> False | Some u \<Rightarrow> respawns u k) \<longleftrightarrow> j = n"
    if j: "j < length ts" for j
  proof -
    consider "j < n" | "j = n" | "j = n + 1" using j lts(2) by linarith
    then show ?thesis
    proof cases
      case 1
      from before[of j] 1 obtain u where
        u: "run P noise3D rnd (map Frame (take j ts)) s = Some u"
          "p_life (particleProps u) k = real j" "p_ttl (particleProps u) k = L"
        by auto
      have "real j + 1 \<le> real n" using 1 by simp
      then have "\<not> expired (particleProps u) k" using u(2,3) nL(1) by (simp add: expired_def)
      moreover have "inBounds u (particleProps u) k" using staysInBounds_nth[OF stay j u(1)] .
      ultimately show ?thesis using u(1) 1 by (simp add: respawns_def)
    next
      case 2
      then show ?thesis using t(1) ex by (simp add: respawns_def)
    next
      case 3
      then have "inBounds t' (particleProps t') k"
        using staysInBounds_nth[OF stay _ rt'] j by simp
      then show ?thesis using 3 rt' ne' by (simp add: respawns_def)
    qed
  qed
  have rf: "respawnFrames P noise3D rnd s ts k = [n]"
    unfolding respawnFrames_def using nl once by (rule filter_single)
  have "p_life (particleProps t) k + 1 > p_ttl (particleProps t) k"
    using ex by (simp add: expired_def)
  with lts(1) rf before t(1) rt' t'(3) life0 after show ?thesis
    unfolding n_def[symmetric] by blast
qed

lemma random_source_third: "random_source rnd_third"
  by (simp add: random_source_def rnd_third_def)

lemma mount_still: "mount stillProps rnd_third 0 100 100 = Some stillState"
  by (simp add: mount_def stillProps_def stillState_def resize_def
      particlePropsLength_def particlePropCount_def initLoop.simps initParticle_def typed_set_def
      Let_def rnd_third_def rand_def randRange_def baseTTL_def rangeTTL_def rangeHue_def
      numeral_eq_Suc)

lemma stillInv_run:
  assumes "stillInv s"
  shows "\<exists>t. run stillProps noise3D rnd_third (map Frame ts) s = Some t \<and> stillInv t"
proof (rule run_rule[of stillInv s "map Frame ts" stillProps noise3D rnd_third, OF assms])
  fix e and t :: vortex
  assume e: "e \<in> set (map Frame ts)" and inv: "stillInv t"
  from e obtain now where now: "e = Frame now" by auto
  have len: "length (particleProps t) = 9 * particleCount stillProps"
    using inv by (simp add: stillInv_def stillProps_def)
  from animate_char[OF len, of noise3D rnd_third now] obtain t' where
    t': "animate stillProps noise3D rnd_third now t = Some t'"
      "length (particleProps t') = length (particleProps t)"
      "canvas_width t' = canvas_width t" "canvas_height t' = canvas_height t"
      "center t' = center t"
      "\<forall>k < particleCount stillProps.
          stepped stillProps noise3D rnd_third t' (particleProps t) (particleProps t') k"
    by blast
  have "stepped stillProps noise3D rnd_third t' (particleProps t) (particleProps t') 0"
    using t'(6) by (simp add: stillProps_def)
  then have "p_x (particleProps t') 0 = 33 \<and> p_y (particleProps t') 0 = 50 \<and>
      p_speed (particleProps t') 0 = 0"
    using inv t'(3,5)
    by (auto simp: stepped_def movedTo_def spawnedAt_def next_x_def next_y_def stillInv_def
        stillProps_def rnd_third_def rand_def randRange_def split: if_splits)
  then have "stillInv t'" using inv t'(2-5) by (simp add: stillInv_def)
  with t'(1) now show "\<exists>t'. handle stillProps noise3D rnd_third e t = Some t' \<and> stillInv t'"
    by simp
qed

lemma stillState_stays: "staysInBounds stillProps noise3D rnd_third stillState ts 0"
proof -
  have inv: "stillInv stillState" by (simp add: stillInv_def stillState_def p_defs)
  have "case run stillProps noise3D rnd_third (map Frame (take j ts)) stillState of
          None \<Rightarrow> False | Some t \<Rightarrow> inBounds t (particleProps t) 0" for j
  proof -
    from stillInv_run[OF inv, of noise3D "take j ts"] obtain t where
      "run stillProps noise3D rnd_third (map Frame (take j ts)) stillState = Some t" "stillInv t"
      by blast
    then show ?thesis by (simp add: stillInv_def inBounds_def outOfBounds_def)
  qed
  then show ?thesis by (simp add: staysInBounds_def list_all_iff)
qed

lemma still_lifetime_rounded: "\<lceil>199/2 :: real\<rceil> = 100" "\<lfloor>199/2 :: real\<rfloor> = 99"
  by linarith+

theorem lifetime_respawn_witness:
  "random_source rnd_third \<and>
   mount stillProps rnd_third 0 100 100 = Some stillState \<and>
   length (particleProps stillState) = 9 * particleCount stillProps \<and>
   0 < particleCount stillProps \<and>
   p_life (particleProps stillState) 0 = 0 \<and> p_ttl (particleProps stillState) 0 = 199/2 \<and>
   length (replicate 101 (16::int)) = nat \<lceil>199/2 :: real\<rceil> + 1 \<and>
   staysInBounds stillProps noise_zero rnd_third stillState (replicate 101 16) 0 \<and>
   respawnFrames stillProps noise_zero rnd_third stillState (replicate 101 16) 0 = [99] \<and>
   (\<exists>t. run stillProps noise_zero rnd_third (map Frame (take 99 (replicate 101 16))) stillState = Some t \<and>
        p_life (particleProps t) 0 = 99 \<and> p_ttl (particleProps t) 0 = 199/2) \<and>
   (\<exists>t. run stillProps noise_zero rnd_third (map Frame (take 100 (replicate 101 16))) stillState = Some t \<and>
        p_life (particleProps t) 0 = 0) \<and>
   (\<exists>t. run stillProps noise_zero rnd_third (map Frame (take 101 (replicate 101 16))) stillState = Some t \<and>
        p_life (particleProps t) 0 = 1)"
proof -
  define ts where "ts = replicate 101 (16::int)"
  have h: "length (particleProps stillState) = 9 * particleCount stillProps"
    "0 < particleCount stillProps"
    "p_life (particleProps stillState) 0 = 0" "p_ttl (particleProps stillState) 0 = 199/2"
    "(0::real) \<le> 199/2"
    by (simp_all add: stillState_def stillProps_def p_defs)
  have l: "length ts = nat \<lceil>199/2 :: real\<rceil> + 1" by (simp add: still_lifetime_rounded ts_def)
  have lt: "length ts = 101" by (simp add: ts_def)
  have n: "nat \<lfloor>199/2 :: real\<rfloor> = 99" by (simp add: still_lifetime_rounded)
  note th = lifetime_respawn[OF random_source_third h(1-5) l stillState_stays[of noise_zero ts],
      unfolded n]
  from th have th1: "\<forall>j \<le> 99. \<exists>t. run stillProps noise_zero rnd_third (map Frame (take j ts)) stillState = Some t \<and>
         p_life (particleProps t) 0 = real j \<and> p_ttl (particleProps t) 0 = 199/2"
    by (elim conjE)
  from th have th0: "respawnFrames stillProps noise_zero rnd_third stillState ts 0 = [99]"
    by (elim conjE)
  from th have th3: "\<exists>t r. run stillProps noise_zero rnd_third (map Frame (take (99 + 1) ts)) stillState = Some t \<and>
         spawnedAt stillProps rnd_third r t (particleProps t) 0 \<and> p_life (particleProps t) 0 = 0"
    by (elim conjE)
  from th have th4: "\<forall>j. 99 + 1 < j \<and> j \<le> length ts \<longrightarrow>
         (\<exists>t. run stillProps noise_zero rnd_third (map Frame (take j ts)) stillState = Some t \<and>
              p_life (particleProps t) 0 = real (j - (99 + 1)))"
    by (elim conjE)
  have a: "\<exists>t. run stillProps noise_zero rnd_third (map Frame (take 99 ts)) stillState = Some t \<and>
        p_life (particleProps t) 0 = 99 \<and> p_ttl (particleProps t) 0 = 199/2"
    using th1[rule_format, of 99] by simp
  have e100: "(99::nat) + 1 = 100" by simp
  have b: "\<exists>t. run stillProps noise_zero rnd_third (map Frame (take 100 ts)) stillState = Some t \<and>
        p_life (particleProps t) 0 = 0"
    using th3 unfolding e100 by blast
  have d: "\<exists>t. run stillProps noise_zero rnd_third (map Frame (take 101 ts)) stillState = Some t \<and>
        p_life (particleProps t) 0 = 1"
    using th4[rule_format, of 101] lt by simp
  from random_source_third mount_still h(1-4) l stillState_stays[of noise_zero ts] th0 a b d
  show ?thesis
    unfolding ts_def by (intro conjI)
qed

section \<open>The end-to-end scenario\<close>

lemma random_source_edge: "random_source rnd_edge"
  by (simp add: random_source_def rnd_edge_def)

lemma simulate_snoc:
  "simulate P noise3D rnd now w h (es @ [e]) =
     (case simulate P noise3D rnd now w h es of
        None \<Rightarrow> None
      | Some s \<Rightarrow> handle P noise3D rnd e s)"
  by (simp add: simulate_def run_append split: option.splits)

lemma drifting_mount:
  assumes "mount e2eProps rnd_edge 0 100 100 = Some s"
  shows "drifting 0 s"
proof -
  from mount_char[of e2eProps rnd_edge 0 100 100] assms have
    s: "length (particleProps s) = 9 * particleCount e2eProps"
      "canvas_width s = 100" "canvas_height s = 100" "center s = (50, 50)"
    and all: "\<forall>k < particleCount e2eProps. spawnedAt e2eProps rnd_edge (6 * k) s (particleProps s) k"
    by auto
  have "0 < particleCount e2eProps" by (simp add: e2eProps_def)
  with all have "spawnedAt e2eProps rnd_edge (6 * 0) s (particleProps s) 0" by blast
  with s show ?thesis
    by (simp add: drifting_def spawnedAt_def rnd_edge_def rand_def randRange_def
        baseTTL_def rangeTTL_def e2eProps_def)
qed

lemma half_power_small:
  assumes "4 \<le> j"
  shows "(1/2 :: real) ^ j \<le> 1/16"
proof -
  have a: "(1/2 :: real) ^ j \<le> (1/2) ^ 4" using assms by (intro power_decreasing) simp_all
  have e: "(1/2 :: real) ^ 4 = 1/16" by (simp add: power_divide)
  show ?thesis using a unfolding e .
qed

lemma drifting_step:
  assumes d: "drifting j s" and j: "j \<le> 51"
  shows "\<exists>s'. animate e2eProps noise_zero rnd_edge now s = Some s' \<and> drifting (Suc j) s'"
proof -
  let ?pp = "particleProps s"
  have len: "length ?pp = 9 * particleCount e2eProps" using d by (simp add: drifting_def)
  have k: "0 < particleCount e2eProps" by (simp add: e2eProps_def)
  have f: "canvas_width s = 100" "canvas_height s = 100"
    "p_x ?pp 0 = 989/10 + real j + (1/2) ^ j" "p_y ?pp 0 = 50"
    "p_vx ?pp 0 = 1 - (1/2) ^ j" "p_vy ?pp 0 = 0" "p_life ?pp 0 = real j"
    "p_ttl ?pp 0 = 125" "p_speed ?pp 0 = 1"
    using d by (simp_all add: drifting_def)
  have pw: "0 \<le> (1/2 :: real) ^ j" "(1/2 :: real) ^ j \<le> 1" by (simp_all add: power_le_one)
  have xhi: "p_x ?pp 0 \<le> 150"
  proof (cases "j \<le> 50")
    case True
    then have "real j \<le> 50" by simp
    then show ?thesis using f(3) pw(2) by linarith
  next
    case False
    then have "4 \<le> j" and "real j \<le> 51" using j by simp_all
    then show ?thesis using f(3) half_power_small[of j] by linarith
  qed
  have xlo: "- 50 \<le> p_x ?pp 0" using f(3) pw(1) by linarith
  have ib: "inBounds s ?pp 0"
    using xhi xlo f(1,2,4) by (simp add: inBounds_def outOfBounds_def)
  have "real j + 1 \<le> 125" using j by simp
  then have ne: "\<not> expired ?pp 0" using f(7,8) by (simp add: expired_def)
  from animate_slot[OF len k, of noise_zero rnd_edge now] ib ne obtain s' where
    s': "animate e2eProps noise_zero rnd_edge now s = Some s'"
      "length (particleProps s') = 9 * particleCount e2eProps"
      "movedTo noise_zero s' ?pp (particleProps s') 0"
    by auto
  from animate_char[OF len, of noise_zero rnd_edge now] s'(1) have
    c: "canvas_width s' = canvas_width s" "canvas_height s' = canvas_height s"
    by auto
  have ang: "angle noise_zero s' ?pp 0 = 0" by (simp add: angle_def noise_zero_def)
  have vx: "next_vx noise_zero s' ?pp 0 = 1 - (1/2) ^ Suc j"
    by (simp add: next_vx_def ang f(5) lerp_def algebra_simps)
  have vy: "next_vy noise_zero s' ?pp 0 = 0"
    by (simp add: next_vy_def ang f(6) lerp_def)
  have x: "next_x noise_zero s' ?pp 0 = 989/10 + real (Suc j) + (1/2) ^ Suc j"
    by (simp add: next_x_def vx f(3,9))
  have y: "next_y noise_zero s' ?pp 0 = 50"
    by (simp add: next_y_def vy f(4))
  have "drifting (Suc j) s'"
    using s'(2,3) c f(1,2,7,8,9) vx vy x y by (simp add: drifting_def movedTo_def)
  with s'(1) show ?thesis by blast
qed

lemma drifting_run:
  assumes "j \<le> 52"
  shows "\<exists>s. simulate e2eProps noise_zero rnd_edge 0 100 100 (replicate j (Frame 0)) = Some s \<and>
           drifting j s"
  using assms
proof (induction j)
  case 0
  from mount_char[of e2eProps rnd_edge 0 100 100] obtain s where
    s: "mount e2eProps rnd_edge 0 100 100 = Some s" by blast
  with drifting_mount[OF s] show ?case by (simp add: simulate_Nil)
next
  case (Suc j)
  then obtain s where
    s: "simulate e2eProps noise_zero rnd_edge 0 100 100 (replicate j (Frame 0)) = Some s"
      "drifting j s"
    by auto
  from Suc.prems have "j \<le> 51" by simp
  from drifting_step[OF s(2) this, of 0] obtain s' where
    s': "animate e2eProps noise_zero rnd_edge 0 s = Some s'" "drifting (Suc j) s'" by blast
  have "replicate (Suc j) (Frame 0) = replicate j (Frame 0) @ [Frame 0]"
    by (simp add: replicate_append_same)
  then show ?case using s(1) s' by (simp only: simulate_snoc) simp
qed

text \<open>
  C3 (as stated, refuted). In the scenario, with a noise function that is constantly 0
  and a particle spawned at \<open>x = 99.9\<close>, \<open>y = 50\<close> with lifetime 125, the stored \<open>x\<close> of
  particle 0 after 52 frames is \<open>150.9 + 2\<^sup>-\<^sup>5\<^sup>2\<close>, beyond 150.
\<close>

theorem e2e_x_counterexample:
  "random_source rnd_edge \<and>
   xAfter e2eProps noise_zero rnd_edge 0 100 100 (replicate 52 (Frame 0)) 0 =
     Some (1509/10 + (1/2) ^ 52) \<and>
   \<not> (1509/10 + (1/2) ^ 52 \<le> (150 :: real))"
proof -
  from drifting_run[of 52] obtain s where
    s: "simulate e2eProps noise_zero rnd_edge 0 100 100 (replicate 52 (Frame 0)) = Some s"
      "drifting 52 s"
    by auto
  have "p_x (particleProps s) 0 = 1509/10 + (1/2) ^ 52"
    using s(2) by (simp add: drifting_def)
  then have "xAfter e2eProps noise_zero rnd_edge 0 100 100 (replicate 52 (Frame 0)) 0 =
     Some (1509/10 + (1/2) ^ 52)"
    using s(1) by (simp add: xAfter_def)
  moreover have "\<not> (1509/10 + (1/2) ^ 52 \<le> (150 :: real))"
  proof -
    have "0 \<le> (1/2 :: real) ^ 52" by simp
    then show ?thesis by linarith
  qed
  ultimately show ?thesis using random_source_edge by simp
qed

lemma e2eInv_mount:
  assumes rs: "random_source rnd" and m: "mount e2eProps rnd now 100 100 = Some s"
  shows "e2eInv s"
proof -
  from mount_char[of e2eProps rnd now 100 100] m have
    s: "length (particleProps s) = 9 * particleCount e2eProps" "canvas_width s = 100"
    and all: "\<forall>k < particleCount e2eProps. spawnedAt e2eProps rnd (6 * k) s (particleProps s) k"
    by auto
  have "p_speed (particleProps s) k = 1 \<and> \<bar>p_vx (particleProps s) k\<bar> \<le> 1 \<and>
        - 51 \<le> p_x (particleProps s) k \<and> p_x (particleProps s) k \<le> 151"
    if "k < particleCount e2eProps" for k
  proof -
    from all that have sp: "spawnedAt e2eProps rnd (6 * k) s (particleProps s) k" by blast
    have u: "0 \<le> rnd (6 * k)" "rnd (6 * k) < 1" using rs by (simp_all add: random_source_def)
    have "0 \<le> rand (rnd (6 * k)) 100" "rand (rnd (6 * k)) 100 \<le> 100"
      using rand_bounds(1,2)[OF u, of 100] by simp_all
    then show ?thesis using sp s(2)
      by (simp add: spawnedAt_def rand_def e2eProps_def)
  qed
  then show ?thesis using s by (simp add: e2eInv_def)
qed

lemma e2eInv_animate:
  assumes rs: "random_source rnd" and inv: "e2eInv s"
  shows "\<exists>s'. animate e2eProps noise3D rnd now s = Some s' \<and> e2eInv s'"
proof -
  let ?pp = "particleProps s"
  have len: "length ?pp = 9 * particleCount e2eProps" and w: "canvas_width s = 100"
    using inv by (simp_all add: e2eInv_def)
  from animate_char[OF len, of noise3D rnd now] obtain s' where
    s': "animate e2eProps noise3D rnd now s = Some s'"
      "length (particleProps s') = length ?pp"
      "canvas_width s' = canvas_width s"
      "\<forall>k < particleCount e2eProps. stepped e2eProps noise3D rnd s' ?pp (particleProps s') k"
    by blast
  have "p_speed (particleProps s') k = 1 \<and> \<bar>p_vx (particleProps s') k\<bar> \<le> 1 \<and>
        - 51 \<le> p_x (particleProps s') k \<and> p_x (particleProps s') k \<le> 151"
    if k: "k < particleCount e2eProps" for k
  proof -
    have old: "p_speed ?pp k = 1" "\<bar>p_vx ?pp k\<bar> \<le> 1"
      using inv k by (simp_all add: e2eInv_def)
    from s'(4) k have st: "stepped e2eProps noise3D rnd s' ?pp (particleProps s') k" by blast
    show ?thesis
    proof (cases "inBounds s' ?pp k \<and> \<not> expired ?pp k")
      case True
      with st have mv: "movedTo noise3D s' ?pp (particleProps s') k" by (simp add: stepped_def)
      have x: "- 50 \<le> p_x ?pp k" "p_x ?pp k \<le> 150"
        using True s'(3) w by (simp_all add: inBounds_def outOfBounds_def)
      have v: "- 1 \<le> next_vx noise3D s' ?pp k" "next_vx noise3D s' ?pp k \<le> 1"
        using lerp_between[of "1/2" "- 1" "p_vx ?pp k" 1 "cos (angle noise3D s' ?pp k)"] old(2)
        by (simp_all add: next_vx_def abs_le_iff)
      have "next_x noise3D s' ?pp k = p_x ?pp k + next_vx noise3D s' ?pp k"
        using old(1) by (simp add: next_x_def)
      then have "- 51 \<le> next_x noise3D s' ?pp k" "next_x noise3D s' ?pp k \<le> 151"
        using x v by linarith+
      then show ?thesis using mv old(1) v by (simp add: movedTo_def abs_le_iff)
    next
      case False
      with st obtain r where sp: "spawnedAt e2eProps rnd r s' (particleProps s') k"
        by (auto simp: stepped_def)
      have u: "0 \<le> rnd r" "rnd r < 1" using rs by (simp_all add: random_source_def)
      have "0 \<le> rand (rnd r) 100" "rand (rnd r) 100 \<le> 100"
        using rand_bounds(1,2)[OF u, of 100] by simp_all
      then show ?thesis using sp s'(3) w
        by (simp add: spawnedAt_def rand_def e2eProps_def)
    qed
  qed
  then have "e2eInv s'" using s'(2,3) len w by (simp add: e2eInv_def)
  with s'(1) show ?thesis by blast
qed

text \<open>
  C3 (amended). In the scenario on a \<open>100 \<times> 100\<close> surface, after any number of frames
  the stored \<open>x\<close> of each of the 10 particles is a real number in \<open>[-51, 151]\<close>: a
  particle inside \<open>[-50, 150]\<close> when a frame starts moves by at most \<open>speed = 1\<close>, and a
  particle outside is respawned into \<open>[0, 100)\<close> by the next frame.
\<close>

theorem e2e_x_bounds:
  assumes "random_source rnd"
  shows "\<exists>s. simulate e2eProps noise3D rnd now 100 100 (map Frame ts) = Some s \<and>
           (\<forall>k < particleCount e2eProps.
              - 51 \<le> p_x (particleProps s) k \<and> p_x (particleProps s) k \<le> 151)"
proof -
  have "\<exists>s. simulate e2eProps noise3D rnd now 100 100 (map Frame ts) = Some s \<and> e2eInv s"
  proof (rule simulate_rule)
    fix s assume "mount e2eProps rnd now 100 100 = Some s"
    then show "e2eInv s" using e2eInv_mount[OF assms] by simp
  next
    fix e and t :: vortex
    assume e: "e \<in> set (map Frame ts)" and inv: "e2eInv t"
    from e obtain t0 where "e = Frame t0" by auto
    then show "\<exists>t'. handle e2eProps noise3D rnd e t = Some t' \<and> e2eInv t'"
      using e2eInv_animate[OF assms inv, of noise3D t0] by simp
  qed
  then show ?thesis by (auto simp: e2eInv_def)
qed

theorem e2e_x_bounds_witness:
  "random_source rnd_edge \<and> particleCount e2eProps = 10 \<and>
   (\<exists>s. simulate e2eProps noise_zero rnd_edge 0 100 100 (map Frame (replicate 1000 0)) = Some s \<and>
      (\<forall>k < particleCount e2eProps.
         - 51 \<le> p_x (particleProps s) k \<and> p_x (particleProps s) k \<le> 151))"
  using e2e_x_bounds[OF random_source_edge, of noise_zero 0 "replicate 1000 0"]
  by (simp add: random_source_edge e2eProps_def)

section \<open>Rounding\<close>

lemma pow2_pos [simp]: "0 < pow2 e"
  by (simp add: pow2_def)

lemma pow2_nonneg [simp]: "0 \<le> pow2 e"
  by (simp add: pow2_def)

lemma pow2_neq0 [simp]: "pow2 e \<noteq> 0"
  by (simp add: pow2_def)

lemma pow2_not_le_0 [simp]: "\<not> pow2 e \<le> 0"
  by (simp add: not_le)

lemma pow2_0 [simp]: "pow2 0 = 1"
  by (simp add: pow2_def)

lemma pow2_add: "pow2 (a + b) = pow2 a * pow2 b"
  by (simp add: pow2_def powr_add)

lemma pow2_diff: "pow2 (a - b) = pow2 a / pow2 b"
  by (simp add: pow2_def powr_diff)

lemma pow2_nat: "pow2 (int n) = 2 ^ n"
  by (simp add: pow2_def powr_realpow)

lemma pow2_neg_nat: "pow2 (- int n) = 1 / 2 ^ n"
  by (simp add: pow2_def powr_minus powr_realpow inverse_eq_divide)

lemma pow2_le_iff [simp]: "pow2 a \<le> pow2 b \<longleftrightarrow> a \<le> b"
  by (simp add: pow2_def)

lemma pow2_less_iff [simp]: "pow2 a < pow2 b \<longleftrightarrow> a < b"
  by (simp add: pow2_def)

lemma pow2_int_of_nonneg:
  assumes "0 \<le> e"
  shows "pow2 e = of_int (2 ^ nat e)"
  using assms pow2_nat[of "nat e"] by simp

lemma pow2_split:
  assumes "u \<le> B"
  shows "of_int (2 ^ nat (B - u)) * pow2 u = pow2 B"
proof -
  have "pow2 B = pow2 ((B - u) + u)" by simp
  also have "\<dots> = pow2 (B - u) * pow2 u" by (rule pow2_add)
  also have "pow2 (B - u) = of_int (2 ^ nat (B - u))"
    using assms by (intro pow2_int_of_nonneg) simp
  finally show ?thesis by simp
qed

lemma rne_cases: "rne y = \<lfloor>y\<rfloor> \<or> rne y = \<lfloor>y\<rfloor> + 1"
  by (simp add: rne_def Let_def)

lemma rne_of_int [simp]: "rne (of_int k) = k"
  by (simp add: rne_def Let_def)

lemma rne_err: "\<bar>of_int (rne y) - y\<bar> \<le> 1/2"
proof -
  have "of_int \<lfloor>y\<rfloor> \<le> y" "y < of_int \<lfloor>y\<rfloor> + 1" by linarith+
  then show ?thesis by (auto simp: rne_def Let_def)
qed

lemma rne_le_int:
  assumes "y \<le> of_int N"
  shows "rne y \<le> N"
proof (cases "y = of_int N")
  case True
  then show ?thesis by simp
next
  case False
  with assms have "y < of_int N" by simp
  then have "\<lfloor>y\<rfloor> < N" by (simp add: floor_less_iff)
  then show ?thesis using rne_cases[of y] by auto
qed

lemma rne_ge_int:
  assumes "of_int N \<le> y"
  shows "N \<le> rne y"
proof -
  have "N \<le> \<lfloor>y\<rfloor>" using assms by (simp add: le_floor_iff)
  then show ?thesis using rne_cases[of y] by auto
qed

lemma rne_mono:
  assumes "x \<le> y"
  shows "rne x \<le> rne y"
proof (cases "\<lfloor>x\<rfloor> = \<lfloor>y\<rfloor>")
  case True
  have "x - of_int \<lfloor>x\<rfloor> \<le> y - of_int \<lfloor>y\<rfloor>" using assms True by simp
  then show ?thesis using True by (auto simp: rne_def Let_def)
next
  case False
  have "\<lfloor>x\<rfloor> \<le> \<lfloor>y\<rfloor>" using assms by (rule floor_mono)
  with False have "\<lfloor>x\<rfloor> + 1 \<le> \<lfloor>y\<rfloor>" by simp
  then show ?thesis using rne_cases[of x] rne_cases[of y] by auto
qed

lemma rne_minus: "rne (- y) = - rne y"
proof (cases "y = of_int \<lfloor>y\<rfloor>")
  case True
  then obtain k where "y = of_int k" by blast
  then show ?thesis by (simp flip: of_int_minus)
next
  case False
  then have c: "\<lceil>y\<rceil> = \<lfloor>y\<rfloor> + 1" by (simp add: ceiling_altdef)
  have f: "\<lfloor>- y\<rfloor> = - \<lfloor>y\<rfloor> - 1" using c by (simp add: ceiling_def)
  have d: "- y - of_int \<lfloor>- y\<rfloor> = 1 - (y - of_int \<lfloor>y\<rfloor>)" using f by simp
  have e: "even (- \<lfloor>y\<rfloor> - 1) \<longleftrightarrow> odd \<lfloor>y\<rfloor>" by simp
  show ?thesis
    unfolding rne_def Let_def d f e by auto
qed

lemma binade_bounds:
  assumes "x \<noteq> 0"
  shows "pow2 (binade x) \<le> \<bar>x\<bar>" "\<bar>x\<bar> < pow2 (binade x + 1)"
proof -
  have "0 < \<bar>x\<bar>" using assms by simp
  from floor_log_eq_powr_iff[OF this, of 2 "binade x"]
  show "pow2 (binade x) \<le> \<bar>x\<bar>" "\<bar>x\<bar> < pow2 (binade x + 1)"
    by (simp_all add: binade_def pow2_def)
qed

lemma binade_eq:
  assumes "pow2 a \<le> \<bar>x\<bar>" "\<bar>x\<bar> < pow2 (a + 1)"
  shows "binade x = a"
proof -
  have "0 < \<bar>x\<bar>" using assms(1) pow2_pos[of a] by linarith
  from floor_log_eq_powr_iff[OF this, of 2 a] assms
  show ?thesis by (simp add: binade_def pow2_def)
qed

lemma binade_less:
  assumes "x \<noteq> 0" "\<bar>x\<bar> < pow2 b"
  shows "binade x < b"
proof -
  have "pow2 (binade x) < pow2 b" using binade_bounds(1)[OF assms(1)] assms(2) by linarith
  then show ?thesis by simp
qed

lemma binade_ge:
  assumes "pow2 b \<le> \<bar>x\<bar>"
  shows "b \<le> binade x"
proof -
  have x: "x \<noteq> 0" using assms by auto
  have "pow2 b < pow2 (binade x + 1)" using binade_bounds(2)[OF x] assms by linarith
  then show ?thesis by simp
qed

lemma binade_mono:
  assumes "x \<noteq> 0" "\<bar>x\<bar> \<le> \<bar>y\<bar>"
  shows "binade x \<le> binade y"
  using binade_ge[of "binade x" y] binade_bounds(1)[OF assms(1)] assms(2) by linarith

lemma binade_minus [simp]: "binade (- x) = binade x"
  by (simp add: binade_def)

lemma ulp_exp_minus [simp]: "ulp_exp p emin (- x) = ulp_exp p emin x"
  by (simp add: ulp_exp_def)

lemma round_bin_0 [simp]: "round_bin p emin 0 = 0"
  by (simp add: round_bin_def)

lemma round_bin_minus: "round_bin p emin (- x) = - round_bin p emin x"
  by (simp add: round_bin_def rne_minus)

lemma round_bin_nonneg:
  assumes "0 \<le> x"
  shows "0 \<le> round_bin p emin x"
proof (cases "x = 0")
  case True
  then show ?thesis by simp
next
  case False
  have "of_int 0 \<le> x / pow2 (ulp_exp p emin x)" using assms by simp
  from rne_ge_int[OF this] show ?thesis using False by (simp add: round_bin_def)
qed

lemma round_bin_eval:
  assumes "pow2 a \<le> \<bar>x\<bar>" "\<bar>x\<bar> < pow2 (a + 1)"
    and "u = max (a - int p + 1) emin" and "rne (x / pow2 u) = k"
  shows "round_bin p emin x = of_int k * pow2 u"
proof -
  have x: "x \<noteq> 0" using assms(1) by auto
  have "ulp_exp p emin x = u" using binade_eq[OF assms(1,2)] assms(3) by (simp add: ulp_exp_def)
  then show ?thesis using x assms(4) by (simp add: round_bin_def)
qed

lemma round_bin_repr:
  assumes "representable p emin x"
  shows "round_bin p emin x = x"
proof (cases "x = 0")
  case True
  then show ?thesis by simp
next
  case False
  from assms obtain k e where k: "x = of_int k * pow2 e" "\<bar>k\<bar> < 2 ^ p" "emin \<le> e"
    by (auto simp: representable_def)
  define u where "u = ulp_exp p emin x"
  have "\<bar>x\<bar> = of_int \<bar>k\<bar> * pow2 e" using k(1) by (simp add: abs_mult)
  also have "\<dots> < 2 ^ p * pow2 e"
  proof -
    have "(of_int \<bar>k\<bar> :: real) < of_int (2 ^ p)" using k(2) by (simp only: of_int_less_iff)
    then show ?thesis by simp
  qed
  also have "\<dots> = pow2 (int p + e)" by (simp add: pow2_add pow2_nat)
  finally have "binade x < int p + e" using binade_less[OF False] by simp
  then have ue: "u \<le> e" using k(3) by (simp add: u_def ulp_exp_def)
  have "pow2 e = pow2 (e - u) * pow2 u" by (simp flip: pow2_add)
  also have "pow2 (e - u) = of_int (2 ^ nat (e - u))" using ue by (simp add: pow2_int_of_nonneg)
  finally have "x / pow2 u = of_int (k * 2 ^ nat (e - u))" using k(1) by simp
  then have "rne (x / pow2 u) = k * 2 ^ nat (e - u)" by (simp only: rne_of_int)
  then have "round_bin p emin x = of_int (k * 2 ^ nat (e - u)) * pow2 u"
    using False by (simp add: round_bin_def u_def)
  also have "\<dots> = x"
    using \<open>x / pow2 u = of_int (k * 2 ^ nat (e - u))\<close> by (simp add: field_simps)
  finally show ?thesis .
qed

lemma round_bin_err:
  "\<bar>round_bin p emin x - x\<bar> \<le> pow2 (ulp_exp p emin x) / 2"
proof (cases "x = 0")
  case True
  then show ?thesis by simp
next
  case False
  let ?u = "pow2 (ulp_exp p emin x)"
  have "round_bin p emin x - x = (of_int (rne (x / ?u)) - x / ?u) * ?u"
    using False by (simp add: round_bin_def algebra_simps)
  then have "\<bar>round_bin p emin x - x\<bar> = \<bar>of_int (rne (x / ?u)) - x / ?u\<bar> * ?u"
    by (simp add: abs_mult)
  also have "\<dots> \<le> (1/2) * ?u"
    using rne_err[of "x / ?u"] by (intro mult_right_mono) simp_all
  finally show ?thesis by simp
qed

lemma round_bin_mono_pos:
  assumes "0 < x" "x \<le> y" and p: "0 < p"
  shows "round_bin p emin x \<le> round_bin p emin y"
proof -
  have x0: "x \<noteq> 0" and y0: "y \<noteq> 0" and ypos: "0 < y" using assms by auto
  define ux where "ux = ulp_exp p emin x"
  define uy where "uy = ulp_exp p emin y"
  have b: "binade x \<le> binade y" using binade_mono[OF x0, of y] assms by simp
  then have u: "ux \<le> uy" by (simp add: ux_def uy_def ulp_exp_def)
  have rx: "round_bin p emin x = of_int (rne (x / pow2 ux)) * pow2 ux"
    and ry: "round_bin p emin y = of_int (rne (y / pow2 uy)) * pow2 uy"
    using x0 y0 by (simp_all add: round_bin_def ux_def uy_def)
  show ?thesis
  proof (cases "ux = uy")
    case True
    have "x / pow2 ux \<le> y / pow2 uy" using assms(2) True by (simp add: divide_right_mono)
    from rne_mono[OF this] show ?thesis unfolding rx ry using True by simp
  next
    case False
    with u have lt: "ux < uy" by simp
    then have uy_eq: "uy = binade y - int p + 1" and "emin < uy"
      using u by (auto simp: ux_def uy_def ulp_exp_def)
    define B where "B = binade y"
    have ux_ge: "binade x - int p + 1 \<le> ux" by (simp add: ux_def ulp_exp_def)
    have bx: "binade x + 1 \<le> B" using ux_ge lt uy_eq by (simp add: B_def)
    have xB: "x \<le> pow2 B"
    proof -
      have "x < pow2 (binade x + 1)" using binade_bounds(2)[OF x0] assms(1) by simp
      also have "\<dots> \<le> pow2 B" using bx by simp
      finally show ?thesis by simp
    qed
    have yB: "pow2 B \<le> y" using binade_bounds(1)[OF y0] ypos by (simp add: B_def)
    have Bux: "0 \<le> B - ux" using lt uy_eq by (simp add: B_def)
    have Buy: "0 \<le> B - uy" using uy_eq p by (simp add: B_def)
    have "x / pow2 ux \<le> pow2 B / pow2 ux" using xB by (simp add: divide_right_mono)
    also have "\<dots> = of_int (2 ^ nat (B - ux))"
      using pow2_int_of_nonneg[OF Bux] by (simp add: pow2_diff)
    finally have "rne (x / pow2 ux) \<le> 2 ^ nat (B - ux)" by (rule rne_le_int)
    then have "(of_int (rne (x / pow2 ux)) :: real) \<le> of_int (2 ^ nat (B - ux))"
      by (simp only: of_int_le_iff)
    then have "round_bin p emin x \<le> of_int (2 ^ nat (B - ux)) * pow2 ux"
      unfolding rx by (intro mult_right_mono) simp_all
    also have "\<dots> = pow2 B"
      using Bux by (intro pow2_split) simp
    finally have lo: "round_bin p emin x \<le> pow2 B" .
    have "of_int (2 ^ nat (B - uy)) = pow2 B / pow2 uy"
      using pow2_int_of_nonneg[OF Buy] by (simp add: pow2_diff)
    also have "\<dots> \<le> y / pow2 uy" using yB by (simp add: divide_right_mono)
    finally have "2 ^ nat (B - uy) \<le> rne (y / pow2 uy)" by (rule rne_ge_int)
    then have "(of_int (2 ^ nat (B - uy)) :: real) \<le> of_int (rne (y / pow2 uy))"
      by (simp only: of_int_le_iff)
    then have "of_int (2 ^ nat (B - uy)) * pow2 uy \<le> round_bin p emin y"
      unfolding ry by (intro mult_right_mono) simp_all
    moreover have "of_int (2 ^ nat (B - uy)) * pow2 uy = pow2 B"
      using Buy by (intro pow2_split) simp
    ultimately have "pow2 B \<le> round_bin p emin y" by simp
    with lo show ?thesis by simp
  qed
qed

lemma round_bin_mono:
  assumes "x \<le> y" and p: "0 < p"
  shows "round_bin p emin x \<le> round_bin p emin y"
proof -
  consider "0 < x" | "x \<le> 0" "0 \<le> y" | "y < 0" by linarith
  then show ?thesis
  proof cases
    case 1
    then show ?thesis using round_bin_mono_pos[OF _ assms] by simp
  next
    case 2
    have "round_bin p emin x \<le> 0"
      using round_bin_nonneg[of "- x" p emin] 2(1) by (simp add: round_bin_minus)
    moreover have "0 \<le> round_bin p emin y" using round_bin_nonneg[OF 2(2)] .
    ultimately show ?thesis by simp
  next
    case 3
    then have "0 < - y" "- y \<le> - x" using assms by simp_all
    from round_bin_mono_pos[OF this p, of emin] show ?thesis by (simp add: round_bin_minus)
  qed
qed

section \<open>The two formats\<close>

lemma rd64_mono: "x \<le> y \<Longrightarrow> rd64 x \<le> rd64 y"
  by (simp add: rd64_def round_bin_mono)

lemma rd32_mono: "x \<le> y \<Longrightarrow> rd32 x \<le> rd32 y"
  by (simp add: rd32_def round_bin_mono)

lemma rd64_0 [simp]: "rd64 0 = 0"
  by (simp add: rd64_def)

lemma rd32_0 [simp]: "rd32 0 = 0"
  by (simp add: rd32_def)

lemma rd64_minus: "rd64 (- x) = - rd64 x"
  by (simp add: rd64_def round_bin_minus)

lemma rd32_minus: "rd32 (- x) = - rd32 x"
  by (simp add: rd32_def round_bin_minus)

lemma rd64_nonneg: "0 \<le> x \<Longrightarrow> 0 \<le> rd64 x"
  by (simp add: rd64_def round_bin_nonneg)

lemma rd32_nonneg: "0 \<le> x \<Longrightarrow> 0 \<le> rd32 x"
  by (simp add: rd32_def round_bin_nonneg)

lemma rd64_id: "representable 53 (- 1074) x \<Longrightarrow> rd64 x = x"
  by (simp add: rd64_def round_bin_repr)

lemma rd32_id: "representable 24 (- 149) x \<Longrightarrow> rd32 x = x"
  by (simp add: rd32_def round_bin_repr)

lemma representable_dyadic:
  assumes "\<bar>k\<bar> < 2 ^ p" "emin \<le> - int n"
  shows "representable p emin (of_int k / 2 ^ n)"
  unfolding representable_def
  using assms by (intro exI[of _ k] exI[of _ "- int n"]) (simp add: pow2_neg_nat)

lemma representable_int:
  assumes "\<bar>k\<bar> < 2 ^ p" "emin \<le> 0"
  shows "representable p emin (of_int k)"
  using representable_dyadic[of k p emin 0] assms by simp

lemma representable_wider:
  assumes "representable p emin x" "p \<le> q" "emin' \<le> emin"
  shows "representable q emin' x"
proof -
  from assms(1) obtain k e where k: "x = of_int k * pow2 e" "\<bar>k\<bar> < 2 ^ p" "emin \<le> e"
    by (auto simp: representable_def)
  have "(2::int) ^ p \<le> 2 ^ q" using assms(2) by (intro power_increasing) simp_all
  with k(2) have "\<bar>k\<bar> < 2 ^ q" by (rule order.strict_trans2)
  with k(1,3) assms(3) show ?thesis unfolding representable_def by (intro exI[of _ k] exI[of _ e]) simp
qed

lemma representable_scale:
  assumes "representable p emin x" "\<bar>c\<bar> * 2 ^ p \<le> 2 ^ q" "emin' \<le> emin - int n"
  shows "representable q emin' (of_int c * x / 2 ^ n)"
proof -
  from assms(1) obtain k e where k: "x = of_int k * pow2 e" "\<bar>k\<bar> < 2 ^ p" "emin \<le> e"
    by (auto simp: representable_def)
  have x: "of_int c * x / 2 ^ n = of_int (c * k) * pow2 (e - int n)"
    using k(1) by (simp add: pow2_diff pow2_nat)
  have "\<bar>c * k\<bar> < 2 ^ q"
  proof (cases "c = 0")
    case True
    then show ?thesis by simp
  next
    case False
    then have "0 < \<bar>c\<bar>" by simp
    then have "\<bar>c\<bar> * \<bar>k\<bar> < \<bar>c\<bar> * 2 ^ p" using k(2) by (simp add: mult_strict_left_mono)
    from this assms(2) have "\<bar>c\<bar> * \<bar>k\<bar> < 2 ^ q" by (rule order.strict_trans2)
    then show ?thesis by (simp add: abs_mult)
  qed
  moreover have "emin' \<le> e - int n" using k(3) assms(3) by simp
  ultimately show ?thesis unfolding representable_def x
    by (intro exI[of _ "c * k"] exI[of _ "e - int n"]) simp
qed

lemma is_float32_double: "is_float32 x \<Longrightarrow> is_double x"
proof -
  assume a: "is_float32 x"
  then have "representable 53 (- 1074) x"
    using representable_wider[of 24 "- 149" x 53 "- 1074"] by (simp add: is_float32_def)
  moreover have "\<bar>x\<bar> < pow2 1024"
  proof -
    have "\<bar>x\<bar> < pow2 128" using a by (simp add: is_float32_def)
    also have "pow2 128 \<le> pow2 1024" by simp
    finally show ?thesis .
  qed
  ultimately show ?thesis by (simp add: is_double_def)
qed

lemma rd64_double: "is_double x \<Longrightarrow> rd64 x = x"
  by (simp add: is_double_def rd64_id)

lemma rd32_float32: "is_float32 x \<Longrightarrow> rd32 x = x"
  by (simp add: is_float32_def rd32_id)

lemma rd64_int:
  assumes "\<bar>k\<bar> < 2 ^ 53"
  shows "rd64 (of_int k) = of_int k"
  using representable_int[of k 53 "- 1074"] assms by (simp add: rd64_id)

lemma rd32_int:
  assumes "\<bar>k\<bar> < 2 ^ 24"
  shows "rd32 (of_int k) = of_int k"
  using representable_int[of k 24 "- 149"] assms by (simp add: rd32_id)

lemma rd64_dyadic:
  assumes "\<bar>k\<bar> < 2 ^ 53" "n \<le> 1074"
  shows "rd64 (of_int k / 2 ^ n) = of_int k / 2 ^ n"
  using representable_dyadic[of k 53 "- 1074" n] assms by (simp add: rd64_id)

lemma rd32_dyadic:
  assumes "\<bar>k\<bar> < 2 ^ 24" "n \<le> 149"
  shows "rd32 (of_int k / 2 ^ n) = of_int k / 2 ^ n"
  using representable_dyadic[of k 24 "- 149" n] assms by (simp add: rd32_id)

lemma rd64_numerals [simp]:
  "rd64 1 = 1" "rd64 (1/2) = 1/2" "rd64 2 = 2"
  using rd64_int[of 1] rd64_dyadic[of 1 1] rd64_int[of 2] by simp_all

lemma rd32_1 [simp]: "rd32 1 = 1"
  using rd32_int[of 1] by simp

lemma rd64_abs_le:
  assumes "\<bar>x\<bar> \<le> b" "rd64 b = b"
  shows "\<bar>rd64 x\<bar> \<le> b"
proof -
  have "rd64 x \<le> rd64 b" using assms(1) by (intro rd64_mono) simp
  moreover have "rd64 (- b) \<le> rd64 x" using assms(1) by (intro rd64_mono) simp
  ultimately show ?thesis using assms(2) by (simp add: rd64_minus abs_le_iff)
qed

lemma rd32_abs_le:
  assumes "\<bar>x\<bar> \<le> b" "rd32 b = b"
  shows "\<bar>rd32 x\<bar> \<le> b"
proof -
  have "rd32 x \<le> rd32 b" using assms(1) by (intro rd32_mono) simp
  moreover have "rd32 (- b) \<le> rd32 x" using assms(1) by (intro rd32_mono) simp
  ultimately show ?thesis using assms(2) by (simp add: rd32_minus abs_le_iff)
qed

section \<open>The operations in the code's arithmetic\<close>

lemma fl_initParticle_char:
  assumes "9 * k + 9 \<le> length (particleProps s)"
  shows "\<exists>s'. fl_initParticle P H (9 * k) s = Some s' \<and> same_env s s' \<and>
           untouched (particleProps s) (particleProps s') k \<and>
           strokes s' = strokes s \<and> randCalls s' = randCalls s + 6 \<and>
           fl_spawnedAt P H (randCalls s) s (particleProps s') k"
proof -
  define src where "src = map rd32 [rand64 (Math_random H (randCalls s)) (real (canvas_width s)),
     add64 (snd (center s)) (randRange64 (Math_random H (randCalls s + 1)) (rangeY P)), 0, 0, 0,
     add64 baseTTL (rand64 (Math_random H (randCalls s + 2)) rangeTTL),
     add64 (baseSpeed P) (rand64 (Math_random H (randCalls s + 3)) (rangeSpeed P)),
     add64 (baseRadius P) (rand64 (Math_random H (randCalls s + 4)) (rangeRadius P)),
     add64 (colorTransitionRef s) (rand64 (Math_random H (randCalls s + 5)) rangeHue)]"
  have ls: "length src = 9" by (simp add: src_def)
  from typed_set_Some[of "9 * k" src "particleProps s"] assms ls
  obtain arr where arr: "typed_set (particleProps s) src (9 * k) = Some arr"
    "length arr = length (particleProps s)"
    "\<And>m. m < length (particleProps s) \<Longrightarrow> m < 9 * k \<or> 9 * k + 9 \<le> m \<Longrightarrow> arr ! m = particleProps s ! m"
    "\<And>d. d < 9 \<Longrightarrow> arr ! (9 * k + d) = src ! d"
    by auto
  have eq: "fl_initParticle P H (9 * k) s = Some (s\<lparr>particleProps := arr, randCalls := randCalls s + 6\<rparr>)"
    using arr(1) by (simp add: fl_initParticle_def Let_def src_def)
  have sp: "fl_spawnedAt P H (randCalls s) s arr k"
    using arr(4)[of 0] arr(4)[of 1] arr(4)[of 2] arr(4)[of 3] arr(4)[of 4] arr(4)[of 5]
      arr(4)[of 6] arr(4)[of 7] arr(4)[of 8]
    by (simp add: fl_spawnedAt_def p_defs src_def)
  show ?thesis
    using eq sp arr(2,3) by (simp add: same_env_def untouched_def)
qed

lemmas fl_next_defs = fl_next_x_def fl_next_y_def fl_next_vx_def fl_next_vy_def fl_next_hue_def
  fl_angle_def

lemma fl_updateParticle_inBounds:
  assumes len: "9 * k + 9 \<le> length (particleProps s)"
    and inb: "inBounds s (particleProps s) k"
  shows "\<exists>s2. same_env s s2 \<and> untouched (particleProps s) (particleProps s2) k \<and>
           randCalls s2 = randCalls s \<and>
           fl_movedTo H s (particleProps s) (particleProps s2) k \<and>
           fl_updateParticle P H (9 * k) s =
             (if fl_expired (particleProps s) k then fl_initParticle P H (9 * k) s2 else Some s2)"
proof -
  define pp where "pp = particleProps s"
  define i where "i = 9 * k"
  define pp1 where "pp1 = (if \<bar>sub64 (pp ! (8 + i)) (colorTransitionRef s)\<bar> > 1
      then pp[8 + i := rd32 (lerp64 (pp ! (8 + i)) (colorTransitionRef s) tenth64)] else pp)"
  define n where "n = mul64 (mul64 (noise_of H (mul64 (pp ! i) xOff64) (mul64 (pp ! (1 + i)) yOff64)
      (mul64 (real (tick s)) zOff64)) noiseSteps) TAU64"
  define vx where "vx = lerp64 (pp ! (2 + i)) (Math_cos H n) (1/2)"
  define vy where "vy = lerp64 (pp ! (3 + i)) (Math_sin H n) (1/2)"
  define x2 where "x2 = add64 (pp ! i) (mul64 vx (pp ! (6 + i)))"
  define y2 where "y2 = add64 (pp ! (1 + i)) (mul64 vy (pp ! (6 + i)))"
  define pp2 where "pp2 = pp1[i := rd32 x2, 1 + i := rd32 y2, 2 + i := rd32 vx, 3 + i := rd32 vy,
      4 + i := rd32 (add64 (pp1 ! (4 + i)) 1)]"
  define s2 where "s2 = s\<lparr>particleProps := pp2,
     strokes := fl_drawParticle (strokes s) (pp ! i) (pp ! (1 + i)) x2 y2
        (pp1 ! (4 + i)) (pp1 ! (5 + i)) (pp1 ! (7 + i)) (pp1 ! (8 + i))\<rparr>"
  have li: "i + 9 \<le> length pp" using len by (simp add: pp_def i_def)
  have l1: "length pp1 = length pp" by (simp add: pp1_def)
  have l2: "length pp2 = length pp" by (simp add: pp2_def l1)
  have p1: "pp1 ! m = pp ! m" if "m \<noteq> 8 + i" for m
    using that by (simp add: pp1_def)
  have p1h: "pp1 ! (8 + i) = fl_next_hue s pp k"
    using li by (simp add: pp1_def fl_next_hue_def p_hue_def i_def add.commute)
  have v: "vx = fl_next_vx H s pp k" "vy = fl_next_vy H s pp k"
    "x2 = fl_next_x H s pp k" "y2 = fl_next_y H s pp k"
    by (simp_all add: vx_def vy_def x2_def y2_def n_def fl_next_defs p_defs i_def add.commute)
  have q: "pp2 ! i = rd32 x2" "pp2 ! (1 + i) = rd32 y2" "pp2 ! (2 + i) = rd32 vx"
    "pp2 ! (3 + i) = rd32 vy"
    "pp2 ! (4 + i) = rd32 (add64 (pp ! (4 + i)) 1)" "pp2 ! (5 + i) = pp ! (5 + i)"
    "pp2 ! (6 + i) = pp ! (6 + i)" "pp2 ! (7 + i) = pp ! (7 + i)"
    "pp2 ! (8 + i) = fl_next_hue s pp k"
    using li by (simp_all add: pp2_def l1 p1 p1h)
  have un: "pp2 ! m = pp ! m" if "m < i \<or> i + 9 \<le> m" for m
    using that by (auto simp: pp2_def p1)
  have upd: "fl_updateParticle P H i s =
      (if pp2 ! (4 + i) > pp2 ! (5 + i) then fl_initParticle P H i s2 else Some s2)"
    using li inb
    unfolding fl_updateParticle_def Let_def inBounds_def s2_def pp2_def y2_def x2_def vy_def vx_def n_def pp1_def
    by (simp add: pp_def p_x_def p_y_def i_def)
  have ex: "(pp2 ! (4 + i) > pp2 ! (5 + i)) = fl_expired pp k"
    using q(5,6) by (simp add: fl_expired_def p_defs i_def add.commute)
  have mv: "fl_movedTo H s pp pp2 k"
    using q v by (simp add: fl_movedTo_def p_defs i_def add.commute)
  have "same_env s s2" by (simp add: same_env_def s2_def l2 pp_def)
  moreover have "untouched pp (particleProps s2) k"
    using un by (simp add: untouched_def s2_def i_def)
  moreover have "randCalls s2 = randCalls s" by (simp add: s2_def)
  ultimately show ?thesis
    using mv upd ex unfolding pp_def[symmetric] i_def[symmetric]
    by (intro exI[of _ s2]) (simp add: s2_def)
qed

lemma fl_spawnedAt_env:
  assumes "same_env s t"
  shows "fl_spawnedAt P H r t pp k = fl_spawnedAt P H r s pp k"
  using assms by (simp add: same_env_def fl_spawnedAt_def)

lemma fl_updateParticle_char:
  assumes len: "9 * k + 9 \<le> length (particleProps s)"
  shows "\<exists>s'. fl_updateParticle P H (9 * k) s = Some s' \<and> same_env s s' \<and>
           untouched (particleProps s) (particleProps s') k \<and>
           (if inBounds s (particleProps s) k \<and> \<not> fl_expired (particleProps s) k
            then fl_movedTo H s (particleProps s) (particleProps s') k \<and> randCalls s' = randCalls s
            else fl_spawnedAt P H (randCalls s) s (particleProps s') k \<and> randCalls s' = randCalls s + 6)"
proof (cases "inBounds s (particleProps s) k")
  case False
  then have "fl_updateParticle P H (9 * k) s = fl_initParticle P H (9 * k) s"
    using len by (simp add: fl_updateParticle_def Let_def inBounds_def p_x_def p_y_def)
  with fl_initParticle_char[OF len, of P H] False show ?thesis by auto
next
  case True
  from fl_updateParticle_inBounds[OF len True, of H P]
  obtain s2 where s2: "same_env s s2" "untouched (particleProps s) (particleProps s2) k"
    "randCalls s2 = randCalls s"
    "fl_movedTo H s (particleProps s) (particleProps s2) k"
    "fl_updateParticle P H (9 * k) s =
             (if fl_expired (particleProps s) k then fl_initParticle P H (9 * k) s2 else Some s2)"
    by blast
  show ?thesis
  proof (cases "fl_expired (particleProps s) k")
    case False
    with True s2 show ?thesis by simp
  next
    case ex: True
    have len2: "9 * k + 9 \<le> length (particleProps s2)"
      using len s2(1) by (simp add: same_env_def)
    from fl_initParticle_char[OF len2, of P H]
    obtain s' where s': "fl_initParticle P H (9 * k) s2 = Some s'" "same_env s2 s'"
      "untouched (particleProps s2) (particleProps s') k" "strokes s' = strokes s2"
      "randCalls s' = randCalls s2 + 6"
      "fl_spawnedAt P H (randCalls s2) s2 (particleProps s') k"
      by blast
    have "same_env s s'" using s2(1) s'(2) by (simp add: same_env_def)
    moreover have "untouched (particleProps s) (particleProps s') k"
      using untouched_trans[OF s2(2) s'(3)] s2(1) by (simp add: same_env_def)
    moreover have "fl_spawnedAt P H (randCalls s) s (particleProps s') k"
      using s'(6) s2(3) fl_spawnedAt_env[OF s2(1)] by simp
    ultimately show ?thesis
      using True ex s2(3,5) s'(1,5) by simp
  qed
qed

lemma fl_particleLoop_rule:
  assumes "I m s" and "m \<le> particleCount P"
    and step: "\<And>j t. j < particleCount P \<Longrightarrow> I j t \<Longrightarrow>
                 \<exists>t'. fl_updateParticle P H (9 * j) t = Some t' \<and> I (Suc j) t'"
  shows "\<exists>s'. fl_particleLoop P H (9 * m) s = Some s' \<and> I (particleCount P) s'"
  using assms(1,2)
proof (induction "particleCount P - m" arbitrary: m s)
  case 0
  then have "m = particleCount P" by simp
  then show ?case using "0.prems"(1)
    by (simp add: fl_particleLoop.simps[of P H "9 * m" s] particlePropsLength_def particlePropCount_def)
next
  case (Suc d)
  then have lt: "m < particleCount P" by simp
  from step[OF lt Suc.prems(1)] obtain t' where
    t': "fl_updateParticle P H (9 * m) s = Some t'" "I (Suc m) t'" by blast
  have "d = particleCount P - Suc m" using Suc.hyps(2) by simp
  from Suc.hyps(1)[OF this t'(2)] lt
  obtain s' where "fl_particleLoop P H (9 * Suc m) t' = Some s'" "I (particleCount P) s'"
    by auto
  then show ?case using lt t'(1)
    by (simp add: fl_particleLoop.simps[of P H "9 * m" s] particlePropsLength_def
        particlePropCount_def add.commute)
qed

lemma fl_stepped_cong_old:
  assumes "same_env s t" "sameSlot pp ppt k"
  shows "fl_stepped P H t ppt pp' k = fl_stepped P H s pp pp' k"
  using assms(1) sameSlot_fields[OF assms(2)]
  by (simp add: fl_stepped_def same_env_def inBounds_def outOfBounds_def fl_expired_def
      fl_movedTo_def fl_spawnedAt_def fl_next_defs)

lemma fl_stepped_cong_new:
  assumes "sameSlot pp' pp'' k"
  shows "fl_stepped P H s pp pp'' k = fl_stepped P H s pp pp' k"
  using sameSlot_fields[OF assms]
  by (simp add: fl_stepped_def fl_movedTo_def fl_spawnedAt_def)

lemma fl_updateParticle_stepped:
  assumes len: "9 * k + 9 \<le> length (particleProps s)"
  shows "\<exists>s'. fl_updateParticle P H (9 * k) s = Some s' \<and> same_env s s' \<and>
           untouched (particleProps s) (particleProps s') k \<and> randCalls s \<le> randCalls s' \<and>
           fl_stepped P H s (particleProps s) (particleProps s') k"
proof -
  from fl_updateParticle_char[OF len, of P H] obtain s' where
    s': "fl_updateParticle P H (9 * k) s = Some s'" "same_env s s'"
      "untouched (particleProps s) (particleProps s') k"
      "if inBounds s (particleProps s) k \<and> \<not> fl_expired (particleProps s) k
       then fl_movedTo H s (particleProps s) (particleProps s') k \<and> randCalls s' = randCalls s
       else fl_spawnedAt P H (randCalls s) s (particleProps s') k \<and> randCalls s' = randCalls s + 6"
    by blast
  have "fl_stepped P H s (particleProps s) (particleProps s') k"
    using s'(4) by (auto simp: fl_stepped_def split: if_splits)
  moreover have "randCalls s \<le> randCalls s'" using s'(4) by (auto split: if_splits)
  ultimately show ?thesis using s'(1-3) by blast
qed

lemma fl_particleLoop_slots:
  assumes len: "length (particleProps s) = 9 * particleCount P"
  shows "\<exists>s'. fl_particleLoop P H 0 s = Some s' \<and> same_env s s' \<and>
           randCalls s \<le> randCalls s' \<and>
           (\<forall>k < particleCount P. fl_stepped P H s (particleProps s) (particleProps s') k)"
proof -
  define I where "I = (\<lambda>m t. same_env s t \<and> randCalls s \<le> randCalls t \<and>
     (\<forall>k < particleCount P.
        if k < m then fl_stepped P H s (particleProps s) (particleProps t) k
        else sameSlot (particleProps s) (particleProps t) k))"
  have init: "I 0 s" by (simp add: I_def same_env_def sameSlot_refl)
  have step: "\<exists>t'. fl_updateParticle P H (9 * j) t = Some t' \<and> I (Suc j) t'"
    if j: "j < particleCount P" and inv: "I j t" for j t
  proof -
    have env: "same_env s t" and rc: "randCalls s \<le> randCalls t"
      using inv by (simp_all add: I_def)
    have lt: "length (particleProps t) = 9 * particleCount P"
      using env len by (simp add: same_env_def)
    have lj: "9 * j + 9 \<le> length (particleProps t)" using j lt by simp
    have sj: "sameSlot (particleProps s) (particleProps t) j" using inv j by (simp add: I_def)
    from fl_updateParticle_stepped[OF lj, of P H] obtain t' where
      t': "fl_updateParticle P H (9 * j) t = Some t'" "same_env t t'"
        "untouched (particleProps t) (particleProps t') j" "randCalls t \<le> randCalls t'"
        "fl_stepped P H t (particleProps t) (particleProps t') j"
      by blast
    have env': "same_env s t'" using env t'(2) by (simp add: same_env_def)
    have slots: "if k < Suc j then fl_stepped P H s (particleProps s) (particleProps t') k
        else sameSlot (particleProps s) (particleProps t') k" if k: "k < particleCount P" for k
    proof (cases "k = j")
      case True
      from fl_stepped_cong_old[OF env sj] t'(5) True show ?thesis by simp
    next
      case False
      have lk: "9 * k + 9 \<le> length (particleProps t)" using k lt by simp
      have same: "sameSlot (particleProps t) (particleProps t') k"
        using untouched_sameSlot[OF t'(3) False lk] .
      show ?thesis
      proof (cases "k < j")
        case True
        then have "fl_stepped P H s (particleProps s) (particleProps t) k"
          using inv k by (simp add: I_def)
        with fl_stepped_cong_new[OF same] True show ?thesis by simp
      next
        case False
        with \<open>k \<noteq> j\<close> have gt: "\<not> k < Suc j" "\<not> k < j" by simp_all
        then have "sameSlot (particleProps s) (particleProps t) k"
          using inv k by (simp add: I_def)
        from sameSlot_trans[OF this same] gt show ?thesis by simp
      qed
    qed
    show ?thesis using t'(1,4) env' rc slots unfolding I_def by auto
  qed
  from fl_particleLoop_rule[of I 0 s P H, OF init _ step]
  obtain s' where "fl_particleLoop P H 0 s = Some s'" "I (particleCount P) s'"
    by auto
  then show ?thesis by (auto simp: I_def)
qed

lemma fl_stepped_env:
  assumes "same_env s t"
  shows "fl_stepped P H t pp pp' k = fl_stepped P H s pp pp' k"
  using fl_stepped_cong_old[OF assms sameSlot_refl] .

lemma fl_animate_char:
  assumes len: "length (particleProps s) = 9 * particleCount P"
  shows "\<exists>s'. fl_animate P H now s = Some s' \<and>
           length (particleProps s') = length (particleProps s) \<and>
           canvas_width s' = canvas_width s \<and> canvas_height s' = canvas_height s \<and>
           center s' = center s \<and>
           (if now - lastColorChangeRef s \<ge> COLOR_CHANGE_INTERVAL
            then targetColorRef s' = getNextColor64 (Math_random H (randCalls s)) \<and>
                 lastColorChangeRef s' = now
            else targetColorRef s' = targetColorRef s \<and> lastColorChangeRef s' = lastColorChangeRef s) \<and>
           colorTransitionRef s' =
             lerp64 (colorTransitionRef s) (targetColorRef s') TRANSITION_SPEED64 \<and>
           randCalls s \<le> randCalls s' \<and>
           (\<forall>k < particleCount P. fl_stepped P H s' (particleProps s) (particleProps s') k)"
proof -
  define s0 where "s0 = s\<lparr>tick := (if tick s < 2 ^ 53 then tick s + 1 else tick s), strokes := []\<rparr>"
  define s1 where "s1 = (if now - lastColorChangeRef s0 \<ge> COLOR_CHANGE_INTERVAL
                then s0\<lparr>targetColorRef := getNextColor64 (Math_random H (randCalls s0)),
                       randCalls := randCalls s0 + 1,
                       lastColorChangeRef := now\<rparr>
                else s0)"
  define s2 where "s2 = s1\<lparr>colorTransitionRef :=
                    lerp64 (colorTransitionRef s1) (targetColorRef s1) TRANSITION_SPEED64\<rparr>"
  have an: "fl_animate P H now s = fl_particleLoop P H 0 s2"
    by (simp add: fl_animate_def fl_draw_def fl_updateAndDrawParticles_def Let_def s2_def s1_def s0_def)
  have pp2: "particleProps s2 = particleProps s" by (simp add: s2_def s1_def s0_def)
  have len2: "length (particleProps s2) = 9 * particleCount P" using len pp2 by simp
  from fl_particleLoop_slots[OF len2, of H] obtain s' where
    s': "fl_particleLoop P H 0 s2 = Some s'" "same_env s2 s'" "randCalls s2 \<le> randCalls s'"
      "\<forall>k < particleCount P. fl_stepped P H s2 (particleProps s2) (particleProps s') k"
    by blast
  have g: "canvas_width s2 = canvas_width s" "canvas_height s2 = canvas_height s"
    "center s2 = center s" "randCalls s \<le> randCalls s2"
    "if now - lastColorChangeRef s \<ge> COLOR_CHANGE_INTERVAL
     then targetColorRef s2 = getNextColor64 (Math_random H (randCalls s)) \<and> lastColorChangeRef s2 = now
     else targetColorRef s2 = targetColorRef s \<and> lastColorChangeRef s2 = lastColorChangeRef s"
    "colorTransitionRef s2 = lerp64 (colorTransitionRef s) (targetColorRef s2) TRANSITION_SPEED64"
    by (simp_all add: s2_def s1_def s0_def)
  have e: "length (particleProps s') = length (particleProps s)"
    "canvas_width s' = canvas_width s2" "canvas_height s' = canvas_height s2"
    "center s' = center s2" "targetColorRef s' = targetColorRef s2"
    "lastColorChangeRef s' = lastColorChangeRef s2" "colorTransitionRef s' = colorTransitionRef s2"
    using s'(2) pp2 by (simp_all add: same_env_def)
  have "\<forall>k < particleCount P. fl_stepped P H s' (particleProps s) (particleProps s') k"
    using s'(4) pp2 fl_stepped_env[OF s'(2), of P H] by simp
  moreover have "randCalls s \<le> randCalls s'" using g(4) s'(3) by simp
  ultimately show ?thesis
    unfolding an using s'(1) g(1-3,5,6) e by (simp split: if_splits)
qed

lemma fl_initLoop_rule:
  assumes "I m s" and "m \<le> particleCount P"
    and step: "\<And>j t. j < particleCount P \<Longrightarrow> I j t \<Longrightarrow>
                 \<exists>t'. fl_initParticle P H (9 * j) t = Some t' \<and> I (Suc j) t'"
  shows "\<exists>s'. fl_initLoop P H (9 * m) s = Some s' \<and> I (particleCount P) s'"
  using assms(1,2)
proof (induction "particleCount P - m" arbitrary: m s)
  case 0
  then have "m = particleCount P" by simp
  then show ?case using "0.prems"(1)
    by (simp add: fl_initLoop.simps[of P H "9 * m" s] particlePropsLength_def particlePropCount_def)
next
  case (Suc d)
  then have lt: "m < particleCount P" by simp
  from step[OF lt Suc.prems(1)] obtain t' where
    t': "fl_initParticle P H (9 * m) s = Some t'" "I (Suc m) t'" by blast
  have "d = particleCount P - Suc m" using Suc.hyps(2) by simp
  from Suc.hyps(1)[OF this t'(2)] lt
  obtain s' where "fl_initLoop P H (9 * Suc m) t' = Some s'" "I (particleCount P) s'"
    by auto
  then show ?case using lt t'(1)
    by (simp add: fl_initLoop.simps[of P H "9 * m" s] particlePropsLength_def
        particlePropCount_def add.commute)
qed

lemma fl_spawnedAt_cong:
  assumes "sameSlot pp pp' k"
  shows "fl_spawnedAt P H r s pp' k = fl_spawnedAt P H r s pp k"
  using sameSlot_fields[OF assms] by (simp add: fl_spawnedAt_def)

lemma fl_initLoop_slots:
  assumes len: "length (particleProps s) = 9 * particleCount P"
  shows "\<exists>s'. fl_initLoop P H 0 s = Some s' \<and> same_env s s' \<and> strokes s' = strokes s \<and>
           randCalls s' = randCalls s + 6 * particleCount P \<and>
           (\<forall>k < particleCount P. fl_spawnedAt P H (randCalls s + 6 * k) s (particleProps s') k)"
proof -
  define I where "I = (\<lambda>m t. same_env s t \<and> strokes t = strokes s \<and>
     randCalls t = randCalls s + 6 * m \<and>
     (\<forall>k < m. fl_spawnedAt P H (randCalls s + 6 * k) s (particleProps t) k))"
  have init: "I 0 s" by (simp add: I_def same_env_def)
  have step: "\<exists>t'. fl_initParticle P H (9 * j) t = Some t' \<and> I (Suc j) t'"
    if j: "j < particleCount P" and inv: "I j t" for j t
  proof -
    have env: "same_env s t" and rc: "randCalls t = randCalls s + 6 * j"
      and st: "strokes t = strokes s"
      using inv by (simp_all add: I_def)
    have lt: "length (particleProps t) = 9 * particleCount P"
      using env len by (simp add: same_env_def)
    have lj: "9 * j + 9 \<le> length (particleProps t)" using j lt by simp
    from fl_initParticle_char[OF lj, of P H] obtain t' where
      t': "fl_initParticle P H (9 * j) t = Some t'" "same_env t t'"
        "untouched (particleProps t) (particleProps t') j" "strokes t' = strokes t"
        "randCalls t' = randCalls t + 6"
        "fl_spawnedAt P H (randCalls t) t (particleProps t') j"
      by blast
    have env': "same_env s t'" using env t'(2) by (simp add: same_env_def)
    have slots: "fl_spawnedAt P H (randCalls s + 6 * k) s (particleProps t') k" if k: "k < Suc j" for k
    proof (cases "k = j")
      case True
      then show ?thesis using t'(6) rc fl_spawnedAt_env[OF env, of P H] by simp
    next
      case False
      then have kj: "k < j" using k by simp
      have lk: "9 * k + 9 \<le> length (particleProps t)" using kj j lt by simp
      have same: "sameSlot (particleProps t) (particleProps t') k"
        using untouched_sameSlot[OF t'(3) False lk] .
      have "fl_spawnedAt P H (randCalls s + 6 * k) s (particleProps t) k"
        using inv kj by (simp add: I_def)
      then show ?thesis using fl_spawnedAt_cong[OF same] by simp
    qed
    show ?thesis using t'(1,4,5) env' rc st slots unfolding I_def by auto
  qed
  from fl_initLoop_rule[of I 0 s P H, OF init _ step]
  obtain s' where "fl_initLoop P H 0 s = Some s'" "I (particleCount P) s'"
    by auto
  then show ?thesis by (auto simp: I_def)
qed

lemma fl_mount_char:
  "\<exists>s. fl_mount P H now w h = Some s \<and>
       length (particleProps s) = 9 * particleCount P \<and>
       colorTransitionRef s = baseHue P \<and> targetColorRef s = baseHue P \<and>
       lastColorChangeRef s = now \<and> canvas_width s = w \<and> canvas_height s = h \<and>
       center s = ((1/2) * real w, (1/2) * real h) \<and> tick s = 0 \<and> strokes s = [] \<and>
       randCalls s = 6 * particleCount P \<and>
       (\<forall>k < particleCount P. fl_spawnedAt P H (6 * k) s (particleProps s) k)"
proof -
  define s0 where "s0 = resize w h
          \<lparr> particleProps = replicate (particlePropsLength P) 0,
            colorTransitionRef = baseHue P,
            targetColorRef = baseHue P,
            lastColorChangeRef = now,
            canvas_width = 0, canvas_height = 0,
            center = (0, 0),
            tick = 0,
            randCalls = 0,
            strokes = [] \<rparr>"
  have m: "fl_mount P H now w h = fl_initLoop P H 0 s0" by (simp add: fl_mount_def s0_def)
  have len: "length (particleProps s0) = 9 * particleCount P"
    by (simp add: s0_def resize_def particlePropsLength_def particlePropCount_def)
  from fl_initLoop_slots[OF len, of H] obtain s where
    s: "fl_initLoop P H 0 s0 = Some s" "same_env s0 s" "strokes s = strokes s0"
      "randCalls s = randCalls s0 + 6 * particleCount P"
      "\<forall>k < particleCount P. fl_spawnedAt P H (randCalls s0 + 6 * k) s0 (particleProps s) k"
    by blast
  have g: "colorTransitionRef s0 = baseHue P" "targetColorRef s0 = baseHue P"
    "lastColorChangeRef s0 = now" "canvas_width s0 = w" "canvas_height s0 = h"
    "center s0 = ((1/2) * real w, (1/2) * real h)" "tick s0 = 0" "strokes s0 = []"
    "randCalls s0 = 0"
    by (simp_all add: s0_def resize_def)
  have "\<forall>k < particleCount P. fl_spawnedAt P H (6 * k) s (particleProps s) k"
    using s(5) g(9) fl_spawnedAt_env[OF s(2), of P H] by simp
  then show ?thesis
    unfolding m using s(1-4) g len by (simp add: same_env_def)
qed

lemma fl_run_rule:
  assumes "Inv s"
    and step: "\<And>e t. e \<in> set es \<Longrightarrow> Inv t \<Longrightarrow>
                 \<exists>t'. fl_handle P H e t = Some t' \<and> Inv t'"
  shows "\<exists>s'. fl_run P H es s = Some s' \<and> Inv s'"
  using assms
proof (induction es arbitrary: s)
  case Nil
  then show ?case by simp
next
  case (Cons e es)
  from Cons.prems(2)[of e s] Cons.prems(1) obtain t' where
    t': "fl_handle P H e s = Some t'" "Inv t'" by auto
  have "\<exists>s'. fl_run P H es t' = Some s' \<and> Inv s'"
    by (rule Cons.IH[OF t'(2)]) (use Cons.prems(2) in auto)
  with t'(1) show ?case by simp
qed

lemma fl_simulate_rule:
  assumes m: "\<And>s. fl_mount P H now w h = Some s \<Longrightarrow> Inv s"
    and step: "\<And>e t. e \<in> set es \<Longrightarrow> Inv t \<Longrightarrow>
                 \<exists>t'. fl_handle P H e t = Some t' \<and> Inv t'"
  shows "\<exists>s'. fl_simulate P H now w h es = Some s' \<and> Inv s'"
proof -
  from fl_mount_char[of P H now w h] obtain s where s: "fl_mount P H now w h = Some s" by blast
  from fl_run_rule[of Inv s es P H, OF m[OF s] step] s
  show ?thesis by (simp add: fl_simulate_def)
qed

lemma fl_simulate_Nil: "fl_simulate P H now w h [] = fl_mount P H now w h"
  by (simp add: fl_simulate_def split: option.splits)

section \<open>Evaluating a rounding\<close>

lemma pow2_numeral: "pow2 (numeral n) = 2 ^ numeral n"
  using pow2_nat[of "numeral n"] by simp

lemma pow2_neg_numeral: "pow2 (- numeral n) = 1 / 2 ^ numeral n"
  using pow2_neg_nat[of "numeral n"] by simp

lemma pow2_1: "pow2 1 = 2"
  using pow2_nat[of 1] by simp

lemma pow2_ge_1: "0 \<le> e \<Longrightarrow> 1 \<le> pow2 e"
  using pow2_le_iff[of 0 e] by simp

lemma rne_near:
  assumes "\<bar>y - of_int k\<bar> < 1/2"
  shows "rne y = k"
proof -
  have b: "of_int k - 1 \<le> y" "y < of_int k + 1" using assms by linarith+
  have "\<lfloor>y\<rfloor> = k \<or> \<lfloor>y\<rfloor> = k - 1"
  proof (cases "of_int k \<le> y")
    case True
    then have "\<lfloor>y\<rfloor> = k" using b(2) by (simp add: floor_unique)
    then show ?thesis by simp
  next
    case False
    then have "\<lfloor>y\<rfloor> = k - 1" using b(1) by (intro floor_unique) simp_all
    then show ?thesis by simp
  qed
  then show ?thesis
  proof
    assume f: "\<lfloor>y\<rfloor> = k"
    then have "y - of_int \<lfloor>y\<rfloor> < 1/2" using assms by linarith
    then show ?thesis using f by (simp add: rne_def Let_def)
  next
    assume f: "\<lfloor>y\<rfloor> = k - 1"
    have "of_int k - 1/2 < y" using assms by linarith
    moreover have "real_of_int \<lfloor>y\<rfloor> = of_int k - 1" using f by simp
    ultimately have "1/2 < y - of_int \<lfloor>y\<rfloor>" by linarith
    then show ?thesis using f by (simp add: rne_def Let_def)
  qed
qed

lemma rne_tie:
  assumes "\<bar>y - of_int k\<bar> = 1/2" "even k"
  shows "rne y = k"
proof -
  from assms(1) have "y = of_int k + 1/2 \<or> y = of_int k - 1/2" by (auto simp: abs_if split: if_splits)
  then show ?thesis
  proof
    assume y: "y = of_int k + 1/2"
    have "\<lfloor>y\<rfloor> = k" unfolding y by linarith
    then show ?thesis using y assms(2) by (simp add: rne_def Let_def)
  next
    assume y: "y = of_int k - 1/2"
    have f: "\<lfloor>y\<rfloor> = k - 1" unfolding y by linarith
    have "odd (k - 1)" using assms(2) by simp
    then show ?thesis using y f by (simp add: rne_def Let_def)
  qed
qed

lemma rd64_near:
  assumes "pow2 a \<le> \<bar>x\<bar>" "\<bar>x\<bar> < pow2 (a + 1)" "- 1022 \<le> a"
    and "\<bar>x / pow2 (a - 52) - of_int k\<bar> < 1/2"
  shows "rd64 x = of_int k * pow2 (a - 52)"
  unfolding rd64_def
  using assms(3) by (intro round_bin_eval[OF assms(1,2) _ rne_near[OF assms(4)]]) simp

lemma rd64_tie:
  assumes "pow2 a \<le> \<bar>x\<bar>" "\<bar>x\<bar> < pow2 (a + 1)" "- 1022 \<le> a"
    and "\<bar>x / pow2 (a - 52) - of_int k\<bar> = 1/2" "even k"
  shows "rd64 x = of_int k * pow2 (a - 52)"
  unfolding rd64_def
  using assms(3) by (intro round_bin_eval[OF assms(1,2) _ rne_tie[OF assms(4,5)]]) simp

lemma rd32_near:
  assumes "pow2 a \<le> \<bar>x\<bar>" "\<bar>x\<bar> < pow2 (a + 1)" "- 126 \<le> a"
    and "\<bar>x / pow2 (a - 23) - of_int k\<bar> < 1/2"
  shows "rd32 x = of_int k * pow2 (a - 23)"
  unfolding rd32_def
  using assms(3) by (intro round_bin_eval[OF assms(1,2) _ rne_near[OF assms(4)]]) simp

lemma rd32_tie:
  assumes "pow2 a \<le> \<bar>x\<bar>" "\<bar>x\<bar> < pow2 (a + 1)" "- 126 \<le> a"
    and "\<bar>x / pow2 (a - 23) - of_int k\<bar> = 1/2" "even k"
  shows "rd32 x = of_int k * pow2 (a - 23)"
  unfolding rd32_def
  using assms(3) by (intro round_bin_eval[OF assms(1,2) _ rne_tie[OF assms(4,5)]]) simp

lemma tenth64_value: "tenth64 = 3602879701896397 / 2 ^ 55"
proof -
  have "rd64 (1/10) = of_int 7205759403792794 * pow2 (- 4 - 52)"
    by (rule rd64_near) (simp_all add: pow2_neg_numeral)
  then show ?thesis by (simp add: tenth64_def pow2_neg_numeral)
qed

section \<open>The fade envelope in the code's arithmetic\<close>

lemma float32_pos_bound:
  assumes "is_float32 m"
  shows "\<bar>m\<bar> < pow2 128" "rd64 m = m" "rd64 (m / 2) = m / 2" "rd64 (3 * m / 2) = 3 * m / 2"
proof -
  have r: "representable 24 (- 149) m" using assms by (simp add: is_float32_def)
  show "\<bar>m\<bar> < pow2 128" using assms by (simp add: is_float32_def)
  show "rd64 m = m" using rd64_double[OF is_float32_double[OF assms]] .
  show "rd64 (m / 2) = m / 2"
    using representable_scale[OF r, of 1 53 "- 1074" 1] by (simp add: rd64_id)
  show "rd64 (3 * m / 2) = 3 * m / 2"
    using representable_scale[OF r, of 3 53 "- 1074" 1] by (simp add: rd64_id)
qed

lemma fadeInOut64_start:
  assumes "is_float32 m" "0 < m"
  shows "fadeInOut64 0 m = Some 0"
proof -
  note f = float32_pos_bound[OF assms(1)]
  have hm: "mul64 (1/2) m = m / 2" using f(3) by (simp add: mul64_def)
  have a: "add64 0 (m / 2) = m / 2" using f(3) by (simp add: add64_def)
  have lt: "\<not> pow2 1024 \<le> \<bar>m / 2\<bar>"
  proof -
    have "\<bar>m / 2\<bar> < pow2 128" using f(1) assms(2) by simp
    also have "pow2 128 \<le> pow2 1024" by simp
    finally show ?thesis by simp
  qed
  have r: "js_rem (m / 2) m = m / 2" using js_rem_half[OF assms(2)] by simp
  show ?thesis
    using assms(2) lt by (simp add: fadeInOut64_def Let_def hm a r sub64_def div64_def)
qed

lemma fadeInOut64_middle:
  assumes "is_float32 m" "0 < m"
  shows "fadeInOut64 (div64 m 2) m = Some 1"
proof -
  note f = float32_pos_bound[OF assms(1)]
  have t: "div64 m 2 = m / 2" using f(3) by (simp add: div64_def)
  have hm: "mul64 (1/2) m = m / 2" using f(3) by (simp add: mul64_def)
  have a: "add64 (m / 2) (m / 2) = m" using f(2) by (simp add: add64_def)
  have lt: "\<not> pow2 1024 \<le> \<bar>m\<bar>"
  proof -
    have "pow2 128 \<le> pow2 1024" by simp
    with f(1) show ?thesis by linarith
  qed
  have r: "js_rem m m = 0" using js_rem_self[OF assms(2)] .
  have s: "sub64 0 (m / 2) = - (m / 2)"
    using f(3) rd64_minus[of "m / 2"] by (simp add: sub64_def)
  have d: "div64 (m / 2) (m / 2) = 1" using assms(2) by (simp add: div64_def)
  show ?thesis
    using assms(2) lt by (simp add: fadeInOut64_def Let_def t hm a r s d)
qed

lemma fadeInOut64_end:
  assumes "is_float32 m" "0 < m"
  shows "fadeInOut64 m m = Some 0"
proof -
  note f = float32_pos_bound[OF assms(1)]
  have hm: "mul64 (1/2) m = m / 2" using f(3) by (simp add: mul64_def)
  have "m + m / 2 = 3 * m / 2" by simp
  then have a: "add64 m (m / 2) = 3 * m / 2" using f(4) by (simp add: add64_def)
  have lt: "\<not> pow2 1024 \<le> \<bar>3 * m / 2\<bar>"
  proof -
    have "\<bar>3 * m / 2\<bar> < 2 * pow2 128" using f(1) assms(2) by simp
    also have "2 * pow2 128 = pow2 129" using pow2_add[of 1 128] by (simp add: pow2_1)
    also have "pow2 129 \<le> pow2 1024" by simp
    finally show ?thesis by simp
  qed
  have "js_rem (m + (1/2) * m) m = (1/2) * m" using js_rem_three_halves[OF assms(2)] .
  then have r: "js_rem (3 * m / 2) m = m / 2" by (simp add: algebra_simps)
  show ?thesis
    using assms(2) lt by (simp add: fadeInOut64_def Let_def hm a r sub64_def div64_def)
qed

lemma fadeInOut64_tenth: "fadeInOut64 tenth64 tenth64 = Some (5 / 2 ^ 54)"
proof -
  define m :: real where "m = 3602879701896397 / 2 ^ 55"
  have hm: "mul64 (1/2) m = 3602879701896397 / 2 ^ 56"
    unfolding mul64_def m_def using rd64_dyadic[of 3602879701896397 56] by simp
  have "rd64 (10808639105689191 / 2 ^ 56) = of_int 5404319552844596 * pow2 (- 3 - 52)"
    by (rule rd64_tie) (simp_all add: pow2_neg_numeral)
  then have a: "add64 m (3602879701896397 / 2 ^ 56) = 5404319552844596 / 2 ^ 55"
    by (simp add: add64_def m_def pow2_neg_numeral)
  have lt: "\<not> pow2 1024 \<le> \<bar>5404319552844596 / 2 ^ 55 :: real\<bar>"
    using pow2_ge_1[of 1024] by simp
  have q: "\<lfloor>(5404319552844596 / 2 ^ 55) / m\<rfloor> = 1" unfolding m_def by (simp add: floor_unique)
  have r: "js_rem (5404319552844596 / 2 ^ 55) m = 1801439850948199 / 2 ^ 55"
    unfolding js_rem_def js_trunc_def q by (simp add: m_def)
  have s: "sub64 (1801439850948199 / 2 ^ 55) (3602879701896397 / 2 ^ 56) = 1 / 2 ^ 56"
    unfolding sub64_def using rd64_dyadic[of 1 56] by simp
  have "rd64 (1 / 3602879701896397) = of_int 5629499534213120 * pow2 (- 52 - 52)"
    by (rule rd64_near) (simp_all add: pow2_neg_numeral)
  then have d: "div64 \<bar>1 / 2 ^ 56\<bar> (3602879701896397 / 2 ^ 56) = 5 / 2 ^ 54"
    by (simp add: div64_def pow2_neg_numeral)
  have "fadeInOut64 m m = Some (5 / 2 ^ 54)"
    unfolding fadeInOut64_def Let_def hm a r s d
    using lt by simp
  then show ?thesis by (simp add: tenth64_value m_def)
qed



lemma is_float32_int:
  assumes "\<bar>k\<bar> < 2 ^ 24"
  shows "is_float32 (of_int k)"
proof -
  have "\<bar>real_of_int k\<bar> < 2 ^ 24" using assms by (metis of_int_abs of_int_less_numeral_power_cancel_iff)
  also have "(2::real) ^ 24 = pow2 24" by (simp add: pow2_numeral)
  also have "pow2 24 < pow2 128" by simp
  finally show ?thesis using representable_int[of k 24 "- 149"] assms by (simp add: is_float32_def)
qed


section \<open>Ranges of a spawned particle in the code's arithmetic\<close>

lemma is_double_int:
  assumes "\<bar>k\<bar> < 2 ^ 53"
  shows "is_double (of_int k)"
proof -
  have "\<bar>real_of_int k\<bar> < 2 ^ 53" using assms by (metis of_int_abs of_int_less_numeral_power_cancel_iff)
  also have "(2::real) ^ 53 = pow2 53" by (simp add: pow2_numeral)
  also have "pow2 53 < pow2 1024" by simp
  finally show ?thesis using representable_int[of k 53 "- 1074"] assms by (simp add: is_double_def)
qed

lemma is_double_dyadic:
  assumes "\<bar>k\<bar> < 2 ^ 53" "n \<le> 1074"
  shows "is_double (of_int k / 2 ^ n)"
proof -
  have "\<bar>real_of_int k\<bar> < 2 ^ 53" using assms by (metis of_int_abs of_int_less_numeral_power_cancel_iff)
  moreover have "\<bar>real_of_int k / 2 ^ n\<bar> \<le> \<bar>real_of_int k\<bar>"
    by (simp add: divide_le_eq mult_le_cancel_left1)
  ultimately have "\<bar>real_of_int k / 2 ^ n\<bar> < 2 ^ 53" by linarith
  also have "(2::real) ^ 53 = pow2 53" by (simp add: pow2_numeral)
  also have "pow2 53 < pow2 1024" by simp
  finally show ?thesis using representable_dyadic[of k 53 "- 1074" n] assms by (simp add: is_double_def)
qed

lemma rand64_bounds:
  assumes "0 \<le> u" "u < 1" "0 \<le> n" "rd64 n = n"
  shows "0 \<le> rand64 u n" "rand64 u n \<le> n"
proof -
  have "0 \<le> n * u" using assms by simp
  then show "0 \<le> rand64 u n" unfolding rand64_def mul64_def by (rule rd64_nonneg)
  have "n * u \<le> n" using assms mult_left_le[of u n] by simp
  from rd64_mono[OF this] show "rand64 u n \<le> n" using assms(4) by (simp add: rand64_def mul64_def)
qed

lemma spawn_value_bounds:
  assumes "0 \<le> u" "u < 1" "0 \<le> n" "rd64 n = n" "rd64 b = b"
  shows "rd32 b \<le> rd32 (add64 b (rand64 u n))" "rd32 (add64 b (rand64 u n)) \<le> rd32 (add64 b n)"
proof -
  note r = rand64_bounds[OF assms(1-4)]
  have "rd64 b \<le> rd64 (b + rand64 u n)" using r(1) by (intro rd64_mono) simp
  then have "b \<le> add64 b (rand64 u n)" using assms(5) by (simp add: add64_def)
  then show "rd32 b \<le> rd32 (add64 b (rand64 u n))" by (rule rd32_mono)
  have "add64 b (rand64 u n) \<le> add64 b n" unfolding add64_def using r(2) by (intro rd64_mono) simp
  then show "rd32 (add64 b (rand64 u n)) \<le> rd32 (add64 b n)" by (rule rd32_mono)
qed

lemma ttl_consts:
  "rd64 baseTTL = baseTTL" "rd64 rangeTTL = rangeTTL" "rd32 baseTTL = baseTTL"
  "rd32 (add64 baseTTL rangeTTL) = baseTTL + rangeTTL" "0 \<le> rangeTTL"
  using rd64_int[of 50] rd64_int[of 150] rd64_int[of 200] rd32_int[of 50] rd32_int[of 200]
  by (simp_all add: baseTTL_def rangeTTL_def add64_def)

lemma fl_spawnedAt_ranges:
  assumes rs: "random_source (Math_random H)" and sp: "fl_spawnedAt P H r s pp k"
  shows "baseTTL \<le> p_ttl pp k" "p_ttl pp k \<le> baseTTL + rangeTTL"
    "is_double (baseSpeed P) \<Longrightarrow> is_double (rangeSpeed P) \<Longrightarrow> 0 \<le> rangeSpeed P \<Longrightarrow>
       rd32 (baseSpeed P) \<le> p_speed pp k \<and>
       p_speed pp k \<le> rd32 (add64 (baseSpeed P) (rangeSpeed P))"
    "is_double (baseRadius P) \<Longrightarrow> is_double (rangeRadius P) \<Longrightarrow> 0 \<le> rangeRadius P \<Longrightarrow>
       rd32 (baseRadius P) \<le> p_radius pp k \<and>
       p_radius pp k \<le> rd32 (add64 (baseRadius P) (rangeRadius P))"
proof -
  have u: "0 \<le> Math_random H n" "Math_random H n < 1" for n
    using rs by (simp_all add: random_source_def)
  have ttl: "p_ttl pp k = rd32 (add64 baseTTL (rand64 (Math_random H (r + 2)) rangeTTL))"
    and sp': "p_speed pp k = rd32 (add64 (baseSpeed P) (rand64 (Math_random H (r + 3)) (rangeSpeed P)))"
    and ra: "p_radius pp k = rd32 (add64 (baseRadius P) (rand64 (Math_random H (r + 4)) (rangeRadius P)))"
    using sp by (simp_all add: fl_spawnedAt_def)
  from spawn_value_bounds[OF u ttl_consts(5,2,1), of "r + 2"]
  show "baseTTL \<le> p_ttl pp k" "p_ttl pp k \<le> baseTTL + rangeTTL"
    by (simp_all add: ttl ttl_consts)
  show "rd32 (baseSpeed P) \<le> p_speed pp k \<and>
       p_speed pp k \<le> rd32 (add64 (baseSpeed P) (rangeSpeed P))"
    if "is_double (baseSpeed P)" "is_double (rangeSpeed P)" "0 \<le> rangeSpeed P"
    using spawn_value_bounds[OF u that(3) rd64_double[OF that(2)] rd64_double[OF that(1)], of "r + 3"]
    by (simp add: sp')
  show "rd32 (baseRadius P) \<le> p_radius pp k \<and>
       p_radius pp k \<le> rd32 (add64 (baseRadius P) (rangeRadius P))"
    if "is_double (baseRadius P)" "is_double (rangeRadius P)" "0 \<le> rangeRadius P"
    using spawn_value_bounds[OF u that(3) rd64_double[OF that(2)] rd64_double[OF that(1)], of "r + 4"]
    by (simp add: ra)
qed

lemma float32_sum:
  assumes "is_float32 b" "is_float32 (b + n)"
  shows "rd32 b = b" "rd32 (add64 b n) = b + n"
  using rd32_float32[OF assms(1)] rd32_float32[OF assms(2)]
    rd64_double[OF is_float32_double[OF assms(2)]]
  by (simp_all add: add64_def)

lemma top_random: "random_source (Math_random (const_host (1 - 1 / 2 ^ 53)))"
  by (simp add: random_source_def const_host_def)

lemma half_random: "random_source (Math_random (const_host (1/2)))"
  by (simp add: random_source_def const_host_def)

lemma props_ok_default: "props_ok oneParticleProps"
proof -
  have "is_double 400" "is_double 0" "is_double (3/2)" "is_double 1" "is_double 2" "is_double 220"
    using is_double_int[of 400] is_double_int[of 0] is_double_dyadic[of 3 1] is_double_int[of 1]
      is_double_int[of 2] is_double_int[of 220]
    by simp_all
  then show ?thesis
    by (simp add: props_ok_def oneParticleProps_def defaultProps_def pow2_numeral)
qed

lemma top_lifetime:
  "rd32 (add64 baseTTL (rand64 (1 - 1 / 2 ^ 53) rangeTTL)) = 200"
proof -
  have "rd64 (150 * (1 - 1 / 2 ^ 53)) = of_int 5277655813324799 * pow2 (7 - 52)"
    by (rule rd64_near) (simp_all add: pow2_neg_numeral pow2_numeral)
  then have m: "rand64 (1 - 1 / 2 ^ 53) rangeTTL = 5277655813324799 / 2 ^ 45"
    by (simp add: rand64_def mul64_def rangeTTL_def pow2_neg_numeral)
  have a: "add64 baseTTL (5277655813324799 / 2 ^ 45) = 7036874417766399 / 2 ^ 45"
    unfolding add64_def baseTTL_def using rd64_dyadic[of 7036874417766399 45] by simp
  have "rd32 (7036874417766399 / 2 ^ 45) = of_int 13107200 * pow2 (7 - 23)"
    by (rule rd32_near) (simp_all add: pow2_neg_numeral pow2_numeral)
  then show ?thesis unfolding m a by (simp add: pow2_neg_numeral)
qed

lemma top_speed:
  "rd32 (add64 0 (rand64 (1 - 1 / 2 ^ 53) (3/2))) = 3/2"
proof -
  have "rd64 (3/2 * (1 - 1 / 2 ^ 53)) = of_int 6755399441055743 * pow2 (0 - 52)"
    by (rule rd64_near) (simp_all add: pow2_neg_numeral pow2_1)
  then have m: "rand64 (1 - 1 / 2 ^ 53) (3/2) = 6755399441055743 / 2 ^ 52"
    by (simp add: rand64_def mul64_def pow2_neg_numeral)
  have a: "add64 0 (6755399441055743 / 2 ^ 52) = 6755399441055743 / 2 ^ 52"
    unfolding add64_def using rd64_dyadic[of 6755399441055743 52] by simp
  have "rd32 (6755399441055743 / 2 ^ 52) = of_int 12582912 * pow2 (0 - 23)"
    by (rule rd32_near) (simp_all add: pow2_neg_numeral pow2_1)
  then show ?thesis unfolding m a by (simp add: pow2_neg_numeral)
qed

lemma top_radius:
  "rd32 (add64 1 (rand64 (1 - 1 / 2 ^ 53) 2)) = 3"
proof -
  have m: "rand64 (1 - 1 / 2 ^ 53) 2 = 9007199254740991 / 2 ^ 52"
    unfolding rand64_def mul64_def using rd64_dyadic[of 9007199254740991 52] by simp
  have "rd64 (13510798882111487 / 2 ^ 52) = of_int 6755399441055744 * pow2 (1 - 52)"
    by (rule rd64_tie) (simp_all add: pow2_neg_numeral pow2_numeral pow2_1)
  then have a: "add64 1 (9007199254740991 / 2 ^ 52) = 3"
    by (simp add: add64_def pow2_neg_numeral)
  show ?thesis unfolding m a using rd32_int[of 3] by simp
qed

text \<open>
  C6 (as stated, refuted). The code computes in binary64 and stores binary32. With the
  default props and \<^verbatim>\<open>Math.random()\<close> returning \<open>1 - 2\<^sup>-\<^sup>5\<^sup>3\<close>, the largest number below 1,
  the spawned particle has lifetime \<open>200 = baseTTL + rangeTTL\<close>, speed
  \<open>1.5 = baseSpeed + rangeSpeed\<close> and radius \<open>3 = baseRadius + rangeRadius\<close>: none of the
  three upper bounds is strict.
\<close>

theorem fl_spawn_ranges_counterexample:
  "random_source (Math_random (const_host (1 - 1 / 2 ^ 53))) \<and>
   0 \<le> rangeSpeed oneParticleProps \<and> 0 \<le> rangeRadius oneParticleProps \<and>
   (\<exists>s'. fl_initParticle oneParticleProps (const_host (1 - 1 / 2 ^ 53)) (9 * 0) (blankState 220) = Some s' \<and>
      p_ttl (particleProps s') 0 = 200 \<and> p_speed (particleProps s') 0 = 3/2 \<and>
      p_radius (particleProps s') 0 = 3 \<and>
      \<not> halfOpenRanges oneParticleProps (particleProps s') 0)"
proof -
  let ?H = "const_host (1 - 1 / 2 ^ 53)" and ?P = oneParticleProps
  have len: "9 * 0 + 9 \<le> length (particleProps (blankState 220))" by (simp add: blankState_def)
  from fl_initParticle_char[OF len, of ?P ?H] obtain s' where
    s': "fl_initParticle ?P ?H (9 * 0) (blankState 220) = Some s'"
      "fl_spawnedAt ?P ?H (randCalls (blankState 220)) (blankState 220) (particleProps s') 0"
    by blast
  have v: "p_ttl (particleProps s') 0 = 200" "p_speed (particleProps s') 0 = 3/2"
    "p_radius (particleProps s') 0 = 3"
    using s'(2) top_lifetime top_speed top_radius
    by (simp_all add: fl_spawnedAt_def const_host_def oneParticleProps_def defaultProps_def)
  have "\<not> halfOpenRanges ?P (particleProps s') 0"
    by (simp add: halfOpenRanges_def v baseTTL_def rangeTTL_def)
  with s'(1) v top_random show ?thesis
    by (simp add: oneParticleProps_def defaultProps_def)
qed

text \<open>
  C6 (amended). When \<^verbatim>\<open>Math.random()\<close> returns values in \<open>[0, 1)\<close>, the props are finite
  numbers and the configured ranges are not negative, a particle written by
  \<open>initParticle\<close> has its lifetime in the closed interval \<open>[baseTTL, baseTTL + rangeTTL]\<close>,
  its speed between the binary32 roundings of \<open>baseSpeed\<close> and of
  \<open>baseSpeed + rangeSpeed\<close>, and its radius between those of \<open>baseRadius\<close> and of
  \<open>baseRadius + rangeRadius\<close>. When the base and the sum are binary32 values, as they are
  for the default props, these are the closed intervals
  \<open>[baseSpeed, baseSpeed + rangeSpeed]\<close> and \<open>[baseRadius, baseRadius + rangeRadius]\<close>.
\<close>

theorem fl_spawn_ranges:
  assumes "random_source (Math_random H)" and "props_ok P"
    and "0 \<le> rangeSpeed P" and "0 \<le> rangeRadius P"
    and "9 * k + 9 \<le> length (particleProps s)"
  shows "\<exists>s'. fl_initParticle P H (9 * k) s = Some s' \<and>
           baseTTL \<le> p_ttl (particleProps s') k \<and> p_ttl (particleProps s') k \<le> baseTTL + rangeTTL \<and>
           rd32 (baseSpeed P) \<le> p_speed (particleProps s') k \<and>
           p_speed (particleProps s') k \<le> rd32 (add64 (baseSpeed P) (rangeSpeed P)) \<and>
           rd32 (baseRadius P) \<le> p_radius (particleProps s') k \<and>
           p_radius (particleProps s') k \<le> rd32 (add64 (baseRadius P) (rangeRadius P)) \<and>
           (is_float32 (baseSpeed P) \<and> is_float32 (baseSpeed P + rangeSpeed P) \<longrightarrow>
              baseSpeed P \<le> p_speed (particleProps s') k \<and>
              p_speed (particleProps s') k \<le> baseSpeed P + rangeSpeed P) \<and>
           (is_float32 (baseRadius P) \<and> is_float32 (baseRadius P + rangeRadius P) \<longrightarrow>
              baseRadius P \<le> p_radius (particleProps s') k \<and>
              p_radius (particleProps s') k \<le> baseRadius P + rangeRadius P)"
proof -
  from fl_initParticle_char[OF assms(5), of P H] obtain s' where
    s': "fl_initParticle P H (9 * k) s = Some s'"
      "fl_spawnedAt P H (randCalls s) s (particleProps s') k"
    by blast
  have d: "is_double (baseSpeed P)" "is_double (rangeSpeed P)"
    "is_double (baseRadius P)" "is_double (rangeRadius P)"
    using assms(2) by (simp_all add: props_ok_def)
  note r = fl_spawnedAt_ranges[OF assms(1) s'(2)]
  note sp = r(3)[OF d(1,2) assms(3)] and ra = r(4)[OF d(3,4) assms(4)]
  have "baseSpeed P \<le> p_speed (particleProps s') k \<and>
        p_speed (particleProps s') k \<le> baseSpeed P + rangeSpeed P"
    if "is_float32 (baseSpeed P)" "is_float32 (baseSpeed P + rangeSpeed P)"
    using sp float32_sum[OF that] by simp
  moreover have "baseRadius P \<le> p_radius (particleProps s') k \<and>
        p_radius (particleProps s') k \<le> baseRadius P + rangeRadius P"
    if "is_float32 (baseRadius P)" "is_float32 (baseRadius P + rangeRadius P)"
    using ra float32_sum[OF that] by simp
  ultimately show ?thesis using s'(1) r(1,2) sp ra by blast
qed

lemma is_float32_dyadic:
  assumes "\<bar>k\<bar> < 2 ^ 24" "n \<le> 149"
  shows "is_float32 (of_int k / 2 ^ n)"
proof -
  have "\<bar>real_of_int k\<bar> < 2 ^ 24" using assms by (metis of_int_abs of_int_less_numeral_power_cancel_iff)
  moreover have "\<bar>real_of_int k / 2 ^ n\<bar> \<le> \<bar>real_of_int k\<bar>"
    by (simp add: divide_le_eq mult_le_cancel_left1)
  ultimately have "\<bar>real_of_int k / 2 ^ n\<bar> < 2 ^ 24" by linarith
  also have "(2::real) ^ 24 = pow2 24" by (simp add: pow2_numeral)
  also have "pow2 24 < pow2 128" by simp
  finally show ?thesis using representable_dyadic[of k 24 "- 149" n] assms by (simp add: is_float32_def)
qed

theorem fl_spawn_ranges_witness:
  "random_source (Math_random (const_host (1/2))) \<and> props_ok oneParticleProps \<and>
   0 \<le> rangeSpeed oneParticleProps \<and> 0 \<le> rangeRadius oneParticleProps \<and>
   9 * 0 + 9 \<le> length (particleProps (blankState 220)) \<and>
   is_float32 (baseSpeed oneParticleProps) \<and>
   is_float32 (baseSpeed oneParticleProps + rangeSpeed oneParticleProps) \<and>
   is_float32 (baseRadius oneParticleProps) \<and>
   is_float32 (baseRadius oneParticleProps + rangeRadius oneParticleProps) \<and>
   (\<exists>s'. fl_initParticle oneParticleProps (const_host (1/2)) (9 * 0) (blankState 220) = Some s' \<and>
      baseTTL \<le> p_ttl (particleProps s') 0 \<and> p_ttl (particleProps s') 0 \<le> baseTTL + rangeTTL \<and>
      0 \<le> p_speed (particleProps s') 0 \<and> p_speed (particleProps s') 0 \<le> 3/2 \<and>
      1 \<le> p_radius (particleProps s') 0 \<and> p_radius (particleProps s') 0 \<le> 3)"
proof -
  let ?P = oneParticleProps
  have h: "0 \<le> rangeSpeed ?P" "0 \<le> rangeRadius ?P"
    "9 * 0 + 9 \<le> length (particleProps (blankState 220))"
    by (simp_all add: oneParticleProps_def defaultProps_def blankState_def)
  have f: "is_float32 (baseSpeed ?P)" "is_float32 (baseSpeed ?P + rangeSpeed ?P)"
    "is_float32 (baseRadius ?P)" "is_float32 (baseRadius ?P + rangeRadius ?P)"
    using is_float32_int[of 0] is_float32_dyadic[of 3 1] is_float32_int[of 1] is_float32_int[of 3]
    by (simp_all add: oneParticleProps_def defaultProps_def)
  from fl_spawn_ranges[OF half_random props_ok_default h] f
  obtain s' where s': "fl_initParticle ?P (const_host (1/2)) (9 * 0) (blankState 220) = Some s'"
    "baseTTL \<le> p_ttl (particleProps s') 0" "p_ttl (particleProps s') 0 \<le> baseTTL + rangeTTL"
    "baseSpeed ?P \<le> p_speed (particleProps s') 0"
    "p_speed (particleProps s') 0 \<le> baseSpeed ?P + rangeSpeed ?P"
    "baseRadius ?P \<le> p_radius (particleProps s') 0"
    "p_radius (particleProps s') 0 \<le> baseRadius ?P + rangeRadius ?P"
    by blast
  have "0 \<le> p_speed (particleProps s') 0" "p_speed (particleProps s') 0 \<le> 3/2"
    "1 \<le> p_radius (particleProps s') 0" "p_radius (particleProps s') 0 \<le> 3"
    using s'(4-7) by (simp_all add: oneParticleProps_def defaultProps_def)
  with s'(1-3) have "\<exists>s'. fl_initParticle ?P (const_host (1/2)) (9 * 0) (blankState 220) = Some s' \<and>
      baseTTL \<le> p_ttl (particleProps s') 0 \<and> p_ttl (particleProps s') 0 \<le> baseTTL + rangeTTL \<and>
      0 \<le> p_speed (particleProps s') 0 \<and> p_speed (particleProps s') 0 \<le> 3/2 \<and>
      1 \<le> p_radius (particleProps s') 0 \<and> p_radius (particleProps s') 0 \<le> 3"
    by blast
  with half_random props_ok_default h f show ?thesis by blast
qed

section \<open>Hues in the code's arithmetic\<close>

lemma pow2_m1: "pow2 (- 1) = 1 / 2"
  using pow2_neg_nat[of 1] by simp

lemmas pow2_simps = pow2_numeral pow2_neg_numeral pow2_1 pow2_m1

lemma TRANSITION_SPEED64_value: "TRANSITION_SPEED64 = 5764607523034235 / 2 ^ 58"
proof -
  have "rd64 (2/100) = of_int 5764607523034235 * pow2 (- 6 - 52)"
    by (rule rd64_near) (simp_all add: pow2_simps)
  then show ?thesis by (simp add: TRANSITION_SPEED64_def pow2_simps)
qed

lemma one_minus_speed: "sub64 1 TRANSITION_SPEED64 = 8827055269646172 / 2 ^ 53"
proof -
  have "rd64 (1 - 5764607523034235 / 2 ^ 58) = of_int 8827055269646172 * pow2 (- 1 - 52)"
    by (rule rd64_near) (simp_all add: pow2_simps)
  then show ?thesis by (simp add: sub64_def TRANSITION_SPEED64_value pow2_simps)
qed

lemma one_minus_tenth: "sub64 1 tenth64 = 8106479329266893 / 2 ^ 53"
proof -
  have "rd64 (1 - 3602879701896397 / 2 ^ 55) = of_int 8106479329266893 * pow2 (- 1 - 52)"
    by (rule rd64_near) (simp_all add: pow2_simps)
  then show ?thesis by (simp add: sub64_def tenth64_value pow2_simps)
qed

lemma lerp64_mono:
  assumes "0 \<le> sub64 1 sp" "0 \<le> sp" "a \<le> a'" "b \<le> b'"
  shows "lerp64 a b sp \<le> lerp64 a' b' sp"
proof -
  have "mul64 (sub64 1 sp) a \<le> mul64 (sub64 1 sp) a'"
    unfolding mul64_def using assms(1,3) by (intro rd64_mono mult_left_mono)
  moreover have "mul64 sp b \<le> mul64 sp b'"
    unfolding mul64_def using assms(2,4) by (intro rd64_mono mult_left_mono)
  ultimately show ?thesis unfolding lerp64_def add64_def by (intro rd64_mono add_mono)
qed

lemma lerp64_zero: "lerp64 0 0 sp = 0"
  by (simp add: lerp64_def add64_def mul64_def)

lemma lerp64_360: "lerp64 360 360 TRANSITION_SPEED64 = 360"
proof -
  have "rd64 (8827055269646172 / 2 ^ 53 * 360) = of_int 6206523236469965 * pow2 (8 - 52)"
    by (rule rd64_near) (simp_all add: pow2_simps)
  then have p1: "mul64 (8827055269646172 / 2 ^ 53) 360 = 6206523236469965 / 2 ^ 44"
    by (simp add: mul64_def pow2_simps)
  have "rd64 (5764607523034235 / 2 ^ 58 * 360) = of_int 8106479329266893 * pow2 (2 - 52)"
    by (rule rd64_near) (simp_all add: pow2_simps)
  then have p2: "mul64 (5764607523034235 / 2 ^ 58) 360 = 8106479329266893 / 2 ^ 50"
    by (simp add: mul64_def pow2_simps)
  have "rd64 (6206523236469965 / 2 ^ 44 + 8106479329266893 / 2 ^ 50)
          = of_int 6333186975989760 * pow2 (8 - 52)"
    by (rule rd64_near) (simp_all add: pow2_simps)
  then have "add64 (6206523236469965 / 2 ^ 44) (8106479329266893 / 2 ^ 50) = 360"
    by (simp add: add64_def pow2_simps)
  then show ?thesis
    unfolding lerp64_def one_minus_speed unfolding TRANSITION_SPEED64_value p1 p2 .
qed

lemma lerp64_460: "lerp64 460 460 tenth64 = 460"
proof -
  have "rd64 (8106479329266893 / 2 ^ 53 * 460) = of_int 7283165022388224 * pow2 (8 - 52)"
    by (rule rd64_near) (simp_all add: pow2_simps)
  then have p1: "mul64 (8106479329266893 / 2 ^ 53) 460 = 414"
    by (simp add: mul64_def pow2_simps)
  have "rd64 (3602879701896397 / 2 ^ 55 * 460) = of_int 6473924464345088 * pow2 (5 - 52)"
    by (rule rd64_near) (simp_all add: pow2_simps)
  then have p2: "mul64 (3602879701896397 / 2 ^ 55) 460 = 46"
    by (simp add: mul64_def pow2_simps)
  have "add64 414 46 = 460" using rd64_int[of 460] by (simp add: add64_def)
  then show ?thesis
    unfolding lerp64_def one_minus_tenth unfolding tenth64_value p1 p2 .
qed

lemma speed_coeffs:
  "0 \<le> sub64 1 TRANSITION_SPEED64" "0 \<le> TRANSITION_SPEED64"
  "0 \<le> sub64 1 tenth64" "0 \<le> tenth64"
proof -
  show "0 \<le> sub64 1 TRANSITION_SPEED64" by (simp add: one_minus_speed)
  show "0 \<le> TRANSITION_SPEED64" by (simp add: TRANSITION_SPEED64_value)
  show "0 \<le> sub64 1 tenth64" by (simp add: one_minus_tenth)
  show "0 \<le> tenth64" by (simp add: tenth64_value)
qed

lemma getNextColor64_range:
  assumes "0 \<le> u" "u < 1"
  shows "0 \<le> getNextColor64 u" "getNextColor64 u \<le> 360"
proof -
  have "0 \<le> u * 360" "u * 360 \<le> 360" using assms by simp_all
  from rd64_nonneg[OF this(1)] rd64_mono[OF this(2)] rd64_int[of 360]
  have "0 \<le> mul64 u 360" "mul64 u 360 \<le> 360" by (simp_all add: mul64_def)
  then have "0 \<le> \<lfloor>mul64 u 360\<rfloor>" "\<lfloor>mul64 u 360\<rfloor> \<le> 360" by (simp_all add: floor_le_iff)
  then show "0 \<le> getNextColor64 u" "getNextColor64 u \<le> 360"
    by (simp_all add: getNextColor64_def)
qed

lemma global_hue_range:
  assumes "0 \<le> c" "c \<le> 360" "0 \<le> t" "t \<le> 360"
  shows "0 \<le> lerp64 c t TRANSITION_SPEED64" "lerp64 c t TRANSITION_SPEED64 \<le> 360"
  using lerp64_mono[OF speed_coeffs(1,2) assms(1,3)] lerp64_mono[OF speed_coeffs(1,2) assms(2,4)]
  by (simp_all add: lerp64_zero lerp64_360)

lemma fl_spawnedAt_hue:
  assumes rs: "random_source (Math_random H)" and sp: "fl_spawnedAt P H r s pp k"
    and c: "0 \<le> colorTransitionRef s" "colorTransitionRef s \<le> 360"
  shows "0 \<le> p_hue pp k" "p_hue pp k \<le> 460"
proof -
  have u: "0 \<le> Math_random H (r + 5)" "Math_random H (r + 5) < 1"
    using rs by (simp_all add: random_source_def)
  have h: "p_hue pp k = rd32 (add64 (colorTransitionRef s) (rand64 (Math_random H (r + 5)) rangeHue))"
    using sp by (simp add: fl_spawnedAt_def)
  have "rd64 rangeHue = rangeHue" "0 \<le> rangeHue" using rd64_int[of 100] by (simp_all add: rangeHue_def)
  from rand64_bounds[OF u this(2,1)]
  have r: "0 \<le> rand64 (Math_random H (r + 5)) rangeHue" "rand64 (Math_random H (r + 5)) rangeHue \<le> 100"
    by (simp_all add: rangeHue_def)
  have "rd64 0 \<le> rd64 (colorTransitionRef s + rand64 (Math_random H (r + 5)) rangeHue)"
    using c(1) r(1) by (intro rd64_mono) simp
  moreover have "rd64 (colorTransitionRef s + rand64 (Math_random H (r + 5)) rangeHue) \<le> rd64 460"
    using c(2) r(2) by (intro rd64_mono) simp
  ultimately have a: "0 \<le> add64 (colorTransitionRef s) (rand64 (Math_random H (r + 5)) rangeHue)"
    "add64 (colorTransitionRef s) (rand64 (Math_random H (r + 5)) rangeHue) \<le> 460"
    using rd64_int[of 460] by (simp_all add: add64_def)
  from rd32_nonneg[OF a(1)] rd32_mono[OF a(2)] rd32_int[of 460]
  show "0 \<le> p_hue pp k" "p_hue pp k \<le> 460" by (simp_all add: h)
qed

lemma fl_next_hue_range:
  assumes "0 \<le> colorTransitionRef s" "colorTransitionRef s \<le> 360"
    "0 \<le> p_hue pp k" "p_hue pp k \<le> 460"
  shows "0 \<le> fl_next_hue s pp k" "fl_next_hue s pp k \<le> 460"
proof -
  have c: "colorTransitionRef s \<le> 460" using assms(2) by simp
  have "0 \<le> lerp64 (p_hue pp k) (colorTransitionRef s) tenth64"
    "lerp64 (p_hue pp k) (colorTransitionRef s) tenth64 \<le> 460"
    using lerp64_mono[OF speed_coeffs(3,4) assms(3,1)] lerp64_mono[OF speed_coeffs(3,4) assms(4) c]
    by (simp_all add: lerp64_zero lerp64_460)
  from rd32_nonneg[OF this(1)] rd32_mono[OF this(2)] rd32_int[of 460]
  show "0 \<le> fl_next_hue s pp k" "fl_next_hue s pp k \<le> 460"
    using assms(3,4) by (simp_all add: fl_next_hue_def)
qed

lemma hueInv64_mount:
  assumes rs: "random_source (Math_random H)" and b: "0 \<le> baseHue P" "baseHue P \<le> 360"
    and m: "fl_mount P H now w h = Some s"
  shows "hueInv64 P s"
proof -
  from fl_mount_char[of P H now w h] m have
    s: "length (particleProps s) = 9 * particleCount P" "colorTransitionRef s = baseHue P"
      "targetColorRef s = baseHue P"
      "\<forall>k < particleCount P. fl_spawnedAt P H (6 * k) s (particleProps s) k"
    by auto
  have "0 \<le> p_hue (particleProps s) k \<and> p_hue (particleProps s) k \<le> 460"
    if "k < particleCount P" for k
    using fl_spawnedAt_hue[OF rs, of P "6 * k" s "particleProps s" k] s(2,4) b that by simp
  then show ?thesis using s(1-3) b by (simp add: hueInv64_def)
qed

lemma hueInv64_animate:
  assumes rs: "random_source (Math_random H)" and inv: "hueInv64 P s"
  shows "\<exists>s'. fl_animate P H now s = Some s' \<and> hueInv64 P s'"
proof -
  have len: "length (particleProps s) = 9 * particleCount P" using inv by (simp add: hueInv64_def)
  from fl_animate_char[OF len, of H now] obtain s' where
    s': "fl_animate P H now s = Some s'"
      "length (particleProps s') = length (particleProps s)"
      "if now - lastColorChangeRef s \<ge> COLOR_CHANGE_INTERVAL
       then targetColorRef s' = getNextColor64 (Math_random H (randCalls s)) \<and> lastColorChangeRef s' = now
       else targetColorRef s' = targetColorRef s \<and> lastColorChangeRef s' = lastColorChangeRef s"
      "colorTransitionRef s' = lerp64 (colorTransitionRef s) (targetColorRef s') TRANSITION_SPEED64"
      "\<forall>k < particleCount P. fl_stepped P H s' (particleProps s) (particleProps s') k"
    by blast
  have u: "0 \<le> Math_random H (randCalls s)" "Math_random H (randCalls s) < 1"
    using rs by (simp_all add: random_source_def)
  have t: "0 \<le> targetColorRef s'" "targetColorRef s' \<le> 360"
    using s'(3) getNextColor64_range[OF u] inv by (auto simp: hueInv64_def split: if_splits)
  have c0: "0 \<le> colorTransitionRef s" "colorTransitionRef s \<le> 360"
    using inv by (simp_all add: hueInv64_def)
  have c: "0 \<le> colorTransitionRef s'" "colorTransitionRef s' \<le> 360"
    using global_hue_range[OF c0 t] s'(4) by simp_all
  have "0 \<le> p_hue (particleProps s') k \<and> p_hue (particleProps s') k \<le> 460"
    if k: "k < particleCount P" for k
  proof -
    have old: "0 \<le> p_hue (particleProps s) k" "p_hue (particleProps s) k \<le> 460"
      using inv k by (simp_all add: hueInv64_def)
    from s'(5) k have "fl_stepped P H s' (particleProps s) (particleProps s') k" by simp
    then show ?thesis
      using fl_next_hue_range[OF c old] fl_spawnedAt_hue[OF rs _ c]
      by (auto simp: fl_stepped_def fl_movedTo_def split: if_splits)
  qed
  then show ?thesis using s'(1,2) len t c by (auto simp: hueInv64_def)
qed

lemma hueInv64_resize: "hueInv64 P s \<Longrightarrow> hueInv64 P (resize w h s)"
  by (simp add: hueInv64_def resize_def)

lemma hueInv64_simulate:
  assumes "random_source (Math_random H)" and "0 \<le> baseHue P" and "baseHue P \<le> 360"
  shows "\<exists>s. fl_simulate P H now w h es = Some s \<and> hueInv64 P s"
proof (rule fl_simulate_rule)
  fix s assume "fl_mount P H now w h = Some s"
  then show "hueInv64 P s" using hueInv64_mount[OF assms] by simp
next
  fix e and t :: vortex assume "hueInv64 P t"
  then show "\<exists>t'. fl_handle P H e t = Some t' \<and> hueInv64 P t'"
    using hueInv64_animate[OF assms(1), of P t] hueInv64_resize[of P t]
    by (cases e) simp_all
qed

lemma seven_eighths_random: "random_source (Math_random (const_host (7/8)))"
  by (simp add: random_source_def const_host_def)

lemma props_ok_warm: "props_ok warmHueProps"
proof -
  have "is_double 400" "is_double 0" "is_double (3/2)" "is_double 1" "is_double 2" "is_double 300"
    using is_double_int[of 400] is_double_int[of 0] is_double_dyadic[of 3 1] is_double_int[of 1]
      is_double_int[of 2] is_double_int[of 300]
    by simp_all
  then show ?thesis
    by (simp add: props_ok_def warmHueProps_def defaultProps_def pow2_numeral)
qed

lemma warm_spawn_hue: "rd32 (add64 300 (rand64 (7/8) rangeHue)) = 775/2"
proof -
  have m: "rand64 (7/8) rangeHue = 175/2"
    unfolding rand64_def mul64_def rangeHue_def using rd64_dyadic[of 175 1] by simp
  have a: "add64 300 (175/2) = 775/2"
    unfolding add64_def using rd64_dyadic[of 775 1] by simp
  show ?thesis unfolding m a using rd32_dyadic[of 775 1] by simp
qed

text \<open>
  C2 (as stated, refuted). With \<open>baseHue = 300\<close> and \<^verbatim>\<open>Math.random()\<close> returning \<open>0.875\<close>,
  the particle that the effect spawns has the hue \<open>387.5\<close>: \<open>initParticle\<close> adds up to
  \<open>rangeHue = 100\<close> to the global hue and nothing reduces a hue modulo 360.
\<close>

theorem fl_hue_counterexample:
  "random_source (Math_random (const_host (7/8))) \<and>
   0 \<le> baseHue warmHueProps \<and> baseHue warmHueProps < 360 \<and>
   (\<exists>s. fl_simulate warmHueProps (const_host (7/8)) 0 100 100 [] = Some s \<and>
        p_hue (particleProps s) 0 = 775/2 \<and> \<not> p_hue (particleProps s) 0 < 360)"
proof -
  from fl_mount_char[of warmHueProps "const_host (7/8)" 0 100 100] obtain s where
    s: "fl_mount warmHueProps (const_host (7/8)) 0 100 100 = Some s"
      "colorTransitionRef s = baseHue warmHueProps"
      "\<forall>k < particleCount warmHueProps.
         fl_spawnedAt warmHueProps (const_host (7/8)) (6 * k) s (particleProps s) k"
    by blast
  have "fl_spawnedAt warmHueProps (const_host (7/8)) (6 * 0) s (particleProps s) 0"
    using s(3) by (simp add: warmHueProps_def)
  then have "p_hue (particleProps s) 0 = 775/2"
    using s(2) warm_spawn_hue
    by (simp add: fl_spawnedAt_def const_host_def warmHueProps_def defaultProps_def)
  with s(1) seven_eighths_random show ?thesis
    by (simp add: fl_simulate_Nil warmHueProps_def defaultProps_def)
qed

text \<open>
  C2 (amended). When \<open>0 \<le> baseHue \<le> 360\<close>, \<^verbatim>\<open>Math.random()\<close> returns values in \<open>[0, 1)\<close> and
  the props are finite, then at spawn and after every frame the global hue is in
  \<open>[0, 360]\<close> and the hue of every particle is in the closed interval \<open>[0, 460]\<close>.
\<close>

theorem fl_hue_bounds:
  assumes "random_source (Math_random H)" and "props_ok P"
    and "0 \<le> baseHue P" and "baseHue P \<le> 360"
  shows "\<exists>s. fl_simulate P H now w h es = Some s \<and>
           0 \<le> colorTransitionRef s \<and> colorTransitionRef s \<le> 360 \<and>
           (\<forall>k < particleCount P.
              0 \<le> p_hue (particleProps s) k \<and> p_hue (particleProps s) k \<le> 460)"
  using hueInv64_simulate[OF assms(1,3,4), of now w h es] by (auto simp: hueInv64_def)

theorem fl_hue_bounds_witness:
  "random_source (Math_random (const_host (7/8))) \<and> props_ok warmHueProps \<and>
   0 \<le> baseHue warmHueProps \<and> baseHue warmHueProps \<le> 360 \<and>
   0 < particleCount warmHueProps \<and>
   (\<exists>s. fl_simulate warmHueProps (const_host (7/8)) 0 100 100
           [Frame 16, Resize 80 60, Frame 33] = Some s \<and>
        0 \<le> colorTransitionRef s \<and> colorTransitionRef s \<le> 360 \<and>
        (\<forall>k < particleCount warmHueProps.
           0 \<le> p_hue (particleProps s) k \<and> p_hue (particleProps s) k \<le> 460))"
proof -
  have h: "0 \<le> baseHue warmHueProps" "baseHue warmHueProps \<le> 360"
    "0 < particleCount warmHueProps"
    by (simp_all add: warmHueProps_def defaultProps_def)
  from fl_hue_bounds[OF seven_eighths_random props_ok_warm h(1,2)] h seven_eighths_random
    props_ok_warm
  show ?thesis by blast
qed

section \<open>Easing of the global hue in the code's arithmetic\<close>

lemma rd64_err_bound:
  assumes "\<bar>x\<bar> < pow2 a" "- 1021 \<le> a"
  shows "\<bar>rd64 x - x\<bar> \<le> pow2 (a - 54)"
proof (cases "x = 0")
  case True
  then show ?thesis by simp
next
  case False
  have "binade x < a" using binade_less[OF False assms(1)] .
  then have "ulp_exp 53 (- 1074) x \<le> a - 53" using assms(2) by (simp add: ulp_exp_def)
  then have "pow2 (ulp_exp 53 (- 1074) x) \<le> pow2 (a - 53)" by simp
  moreover have "pow2 (a - 53) / 2 = pow2 (a - 54)"
    using pow2_diff[of "a - 53" 1] by (simp add: pow2_1)
  ultimately show ?thesis using round_bin_err[of 53 "- 1074" x] unfolding rd64_def by linarith
qed

lemma lerp64_err:
  assumes "0 \<le> a" "a \<le> 360" "0 \<le> b" "b \<le> 360"
  shows "\<bar>lerp64 a b TRANSITION_SPEED64 - lerp a b TRANSITION_SPEED64\<bar> \<le> 1 / 2 ^ 43"
proof -
  define s :: real where "s = 5764607523034235 / 2 ^ 58"
  define k1 :: real where "k1 = 8827055269646172 / 2 ^ 53"
  define p1 where "p1 = rd64 (k1 * a)"
  define p2 where "p2 = rd64 (s * b)"
  have L: "lerp64 a b TRANSITION_SPEED64 = rd64 (p1 + p2)"
    unfolding lerp64_def one_minus_speed unfolding TRANSITION_SPEED64_value
    by (simp add: p1_def p2_def k1_def s_def mul64_def add64_def)
  have E: "lerp a b TRANSITION_SPEED64 = (1 - s) * a + s * b"
    by (simp add: lerp_def TRANSITION_SPEED64_value s_def)
  have k: "k1 = 1 - s - 5 / 2 ^ 58" by (simp add: k1_def s_def)
  have k01: "0 \<le> k1" "k1 \<le> 1" and s01: "0 \<le> s" "s \<le> 1/45" by (simp_all add: k1_def s_def)
  have ka: "0 \<le> k1 * a" "k1 * a \<le> 360"
  proof -
    show "0 \<le> k1 * a" using k01(1) assms(1) by simp
    have "k1 * a \<le> 1 * a" using k01(2) assms(1) by (intro mult_right_mono)
    then show "k1 * a \<le> 360" using assms(2) by simp
  qed
  have sb: "0 \<le> s * b" "s * b \<le> 8"
  proof -
    show "0 \<le> s * b" using s01(1) assms(3) by simp
    have "s * b \<le> (1/45) * 360" using s01 assms(3,4) by (intro mult_mono) simp_all
    then show "s * b \<le> 8" by simp
  qed
  have "\<bar>k1 * a\<bar> < pow2 9" using ka by (simp add: pow2_numeral)
  from rd64_err_bound[OF this] have e1: "\<bar>p1 - k1 * a\<bar> \<le> 1 / 2 ^ 45"
    by (simp add: p1_def pow2_neg_numeral)
  have "\<bar>s * b\<bar> < pow2 4" using sb by (simp add: pow2_numeral)
  from rd64_err_bound[OF this] have e2: "\<bar>p2 - s * b\<bar> \<le> 1 / 2 ^ 50"
    by (simp add: p2_def pow2_neg_numeral)
  note e1' = e1[unfolded abs_le_iff] and e2' = e2[unfolded abs_le_iff]
  have c1: "(1 / 2 ^ 45 :: real) \<le> 1" "(1 / 2 ^ 50 :: real) \<le> 1" by simp_all
  have "p1 + p2 < 1024" "- (p1 + p2) < 1024"
    using ka sb e1'[THEN conjunct1] e1'[THEN conjunct2] e2'[THEN conjunct1] e2'[THEN conjunct2] c1
    by linarith+
  then have "\<bar>p1 + p2\<bar> < pow2 10" by (simp add: pow2_numeral abs_less_iff)
  from rd64_err_bound[OF this] have e3: "\<bar>rd64 (p1 + p2) - (p1 + p2)\<bar> \<le> 1 / 2 ^ 44"
    by (simp add: pow2_neg_numeral)
  note e3' = e3[unfolded abs_le_iff]
  have d: "(k1 * a + s * b) - ((1 - s) * a + s * b) = - (5 / 2 ^ 58) * a"
    by (simp add: k algebra_simps)
  have d1: "0 \<le> (5 / 2 ^ 58) * a" "(5 / 2 ^ 58) * a \<le> 1 / 2 ^ 47" using assms(1,2) by simp_all
  define B :: real where "B = 1 / 2 ^ 44 + 1 / 2 ^ 45 + 1 / 2 ^ 50 + 1 / 2 ^ 47"
  have B: "B \<le> 1 / 2 ^ 43" by (simp add: B_def)
  have "rd64 (p1 + p2) - ((1 - s) * a + s * b) \<le> B"
    "- (rd64 (p1 + p2) - ((1 - s) * a + s * b)) \<le> B"
    unfolding B_def
    using e1'[THEN conjunct1] e1'[THEN conjunct2] e2'[THEN conjunct1] e2'[THEN conjunct2]
      e3'[THEN conjunct1] e3'[THEN conjunct2] d d1
    by linarith+
  with B show ?thesis unfolding L E abs_le_iff by linarith
qed

lemma lerp64_near_interval:
  assumes "0 \<le> a" "a \<le> 360" "0 \<le> b" "b \<le> 360"
  shows "min a b - 1 / 2 ^ 43 \<le> lerp64 a b TRANSITION_SPEED64"
    "lerp64 a b TRANSITION_SPEED64 \<le> max a b + 1 / 2 ^ 43"
proof -
  have t: "0 \<le> TRANSITION_SPEED64" "TRANSITION_SPEED64 \<le> 1"
    by (simp_all add: TRANSITION_SPEED64_value)
  have "min a b \<le> lerp a b TRANSITION_SPEED64" "lerp a b TRANSITION_SPEED64 \<le> max a b"
    using lerp_between[OF t, of "min a b" a "max a b" b] by simp_all
  moreover note e = lerp64_err[OF assms, unfolded abs_le_iff]
  ultimately show "min a b - 1 / 2 ^ 43 \<le> lerp64 a b TRANSITION_SPEED64"
    "lerp64 a b TRANSITION_SPEED64 \<le> max a b + 1 / 2 ^ 43"
    using e[THEN conjunct1] e[THEN conjunct2] by linarith+
qed

lemma lerp64_closer:
  assumes "0 \<le> a" "a \<le> 360" "0 \<le> b" "b \<le> 360" "1 / 2 ^ 37 < \<bar>a - b\<bar>"
  shows "\<bar>lerp64 a b TRANSITION_SPEED64 - b\<bar> < \<bar>a - b\<bar>"
proof -
  define s :: real where "s = 5764607523034235 / 2 ^ 58"
  have s: "1 / 2 ^ 6 < s" "s < 1" by (simp_all add: s_def)
  have "lerp a b TRANSITION_SPEED64 - b = (1 - s) * (a - b)"
    by (simp add: lerp_def TRANSITION_SPEED64_value s_def algebra_simps)
  then have "\<bar>lerp a b TRANSITION_SPEED64 - b\<bar> = (1 - s) * \<bar>a - b\<bar>"
    using s(2) by (simp add: abs_mult)
  then have x: "\<bar>lerp a b TRANSITION_SPEED64 - b\<bar> = \<bar>a - b\<bar> - s * \<bar>a - b\<bar>"
    by (simp add: algebra_simps)
  have "(1 / 2 ^ 6) * (1 / 2 ^ 37) < s * \<bar>a - b\<bar>"
    using s(1) assms(5) by (intro mult_strict_mono) simp_all
  moreover have "(1 / 2 ^ 6) * (1 / 2 ^ 37) = (1 / 2 ^ 43 :: real)" by simp
  ultimately have y: "1 / 2 ^ 43 < s * \<bar>a - b\<bar>" by simp
  have tri: "\<bar>lerp64 a b TRANSITION_SPEED64 - b\<bar>
      \<le> \<bar>lerp64 a b TRANSITION_SPEED64 - lerp a b TRANSITION_SPEED64\<bar>
        + \<bar>lerp a b TRANSITION_SPEED64 - b\<bar>"
    by linarith
  from lerp64_err[OF assms(1-4)] x y tri show ?thesis by linarith
qed

lemma lerp64_seven: "lerp64 7 7 TRANSITION_SPEED64 = 7 - 1 / 2 ^ 50"
proof -
  have "rd64 (8827055269646172 / 2 ^ 53 * 7) = of_int 7723673360940400 * pow2 (2 - 52)"
    by (rule rd64_tie) (simp_all add: pow2_simps)
  then have p1: "mul64 (8827055269646172 / 2 ^ 53) 7 = 7723673360940400 / 2 ^ 50"
    by (simp add: mul64_def pow2_simps)
  have "rd64 (5764607523034235 / 2 ^ 58 * 7) = of_int 5044031582654956 * pow2 (- 3 - 52)"
    by (rule rd64_near) (simp_all add: pow2_simps)
  then have p2: "mul64 (5764607523034235 / 2 ^ 58) 7 = 5044031582654956 / 2 ^ 55"
    by (simp add: mul64_def pow2_simps)
  have "rd64 (7723673360940400 / 2 ^ 50 + 5044031582654956 / 2 ^ 55)
          = of_int 7881299347898367 * pow2 (2 - 52)"
    by (rule rd64_near) (simp_all add: pow2_simps)
  then have "add64 (7723673360940400 / 2 ^ 50) (5044031582654956 / 2 ^ 55) = 7 - 1 / 2 ^ 50"
    by (simp add: add64_def pow2_simps)
  then show ?thesis
    unfolding lerp64_def one_minus_speed unfolding TRANSITION_SPEED64_value p1 p2 .
qed

lemma lerp64_stall:
  "lerp64 (180 + 9 / 2 ^ 45) 180 TRANSITION_SPEED64 = 180 + 9 / 2 ^ 45"
proof -
  have x: "(180 + 9 / 2 ^ 45 :: real) = 6333186975989769 / 2 ^ 45" by simp
  have "rd64 (8827055269646172 / 2 ^ 53 * (6333186975989769 / 2 ^ 45))
          = of_int 6206523236469974 * pow2 (7 - 52)"
    by (rule rd64_near) (simp_all add: pow2_simps)
  then have p1: "mul64 (8827055269646172 / 2 ^ 53) (6333186975989769 / 2 ^ 45)
      = 6206523236469974 / 2 ^ 45"
    by (simp add: mul64_def pow2_simps)
  have "rd64 (5764607523034235 / 2 ^ 58 * 180) = of_int 8106479329266893 * pow2 (1 - 52)"
    by (rule rd64_near) (simp_all add: pow2_simps)
  then have p2: "mul64 (5764607523034235 / 2 ^ 58) 180 = 8106479329266893 / 2 ^ 51"
    by (simp add: mul64_def pow2_simps)
  have "rd64 (6206523236469974 / 2 ^ 45 + 8106479329266893 / 2 ^ 51)
          = of_int 6333186975989769 * pow2 (7 - 52)"
    by (rule rd64_near) (simp_all add: pow2_simps)
  then have "add64 (6206523236469974 / 2 ^ 45) (8106479329266893 / 2 ^ 51)
      = 6333186975989769 / 2 ^ 45"
    by (simp add: add64_def pow2_simps)
  then show ?thesis
    unfolding x lerp64_def one_minus_speed unfolding TRANSITION_SPEED64_value p1 p2 .
qed

lemma getNextColor64_half: "getNextColor64 (1/2) = 180"
  using rd64_int[of 180] by (simp add: getNextColor64_def mul64_def)

text \<open>
  C4 (as stated, refuted). The easing is computed in binary64. With \<open>baseHue = 7\<close> the
  first frame takes \<open>currentHue = targetHue = 7\<close> to \<open>lerp(7, 7, 0.02) = 7 - 2\<^sup>-\<^sup>5\<^sup>0\<close>
  (\<open>6.999999999999999\<close>), outside \<open>[min(old, target), max(old, target)] = [7, 7]\<close>. And the
  step does not always move towards the target: with the target 180 it maps
  \<open>180 + 9 \<times> 2\<^sup>-\<^sup>4\<^sup>5\<close> (\<open>180.00000000000026\<close>) to itself.
\<close>

theorem fl_global_hue_counterexample:
  "(\<exists>s s'. fl_simulate sevenHueProps (const_host (1/2)) 0 100 100 [] = Some s \<and>
      fl_animate sevenHueProps (const_host (1/2)) 16 s = Some s' \<and>
      colorTransitionRef s = 7 \<and> targetColorRef s' = 7 \<and>
      colorTransitionRef s' = 7 - 1 / 2 ^ 50 \<and>
      \<not> min (colorTransitionRef s) (targetColorRef s') \<le> colorTransitionRef s') \<and>
   lerp64 (180 + 9 / 2 ^ 45) 180 TRANSITION_SPEED64 = 180 + 9 / 2 ^ 45 \<and>
   \<not> \<bar>lerp64 (180 + 9 / 2 ^ 45) 180 TRANSITION_SPEED64 - 180\<bar> < \<bar>180 + 9 / 2 ^ 45 - (180::real)\<bar>"
proof -
  let ?P = sevenHueProps and ?H = "const_host (1/2)"
  from fl_mount_char[of ?P ?H 0 100 100] obtain s where
    s: "fl_mount ?P ?H 0 100 100 = Some s" "length (particleProps s) = 9 * particleCount ?P"
      "colorTransitionRef s = baseHue ?P" "targetColorRef s = baseHue ?P"
      "lastColorChangeRef s = 0"
    by blast
  from fl_animate_char[OF s(2), of ?H 16] obtain s' where
    s': "fl_animate ?P ?H 16 s = Some s'"
      "if 16 - lastColorChangeRef s \<ge> COLOR_CHANGE_INTERVAL
       then targetColorRef s' = getNextColor64 (Math_random ?H (randCalls s)) \<and>
            lastColorChangeRef s' = 16
       else targetColorRef s' = targetColorRef s \<and> lastColorChangeRef s' = lastColorChangeRef s"
      "colorTransitionRef s' = lerp64 (colorTransitionRef s) (targetColorRef s') TRANSITION_SPEED64"
    by blast
  have c: "colorTransitionRef s = 7" using s(3) by (simp add: sevenHueProps_def)
  have t: "targetColorRef s' = 7"
    using s'(2) s(4,5) by (simp add: COLOR_CHANGE_INTERVAL_def sevenHueProps_def)
  have c': "colorTransitionRef s' = 7 - 1 / 2 ^ 50" using s'(3) c t lerp64_seven by simp
  have "\<not> min (colorTransitionRef s) (targetColorRef s') \<le> colorTransitionRef s'"
    unfolding c t c' by simp
  with s(1) s'(1) c t c' have "\<exists>s s'. fl_simulate ?P ?H 0 100 100 [] = Some s \<and>
      fl_animate ?P ?H 16 s = Some s' \<and>
      colorTransitionRef s = 7 \<and> targetColorRef s' = 7 \<and>
      colorTransitionRef s' = 7 - 1 / 2 ^ 50 \<and>
      \<not> min (colorTransitionRef s) (targetColorRef s') \<le> colorTransitionRef s'"
    unfolding fl_simulate_Nil by blast
  moreover have "\<not> \<bar>lerp64 (180 + 9 / 2 ^ 45) 180 TRANSITION_SPEED64 - 180\<bar>
                    < \<bar>180 + 9 / 2 ^ 45 - (180::real)\<bar>"
    unfolding lerp64_stall by simp
  ultimately show ?thesis using lerp64_stall by blast
qed

text \<open>
  C4 (amended). After the effect has run, \<open>currentHue = targetHue = baseHue\<close>. When
  \<open>0 \<le> baseHue \<le> 360\<close>, in every frame that follows the new \<open>currentHue\<close> is within
  \<open>2\<^sup>-\<^sup>4\<^sup>3\<close> of the exact value of \<open>(1 - 0.02) * currentHue + 0.02 * targetHue\<close>, hence
  within \<open>2\<^sup>-\<^sup>4\<^sup>3\<close> of the interval between the old value and the frame's \<open>targetHue\<close>,
  and it is strictly closer to that target than before whenever the two differ by
  more than \<open>2\<^sup>-\<^sup>3\<^sup>7\<close>.
\<close>

theorem fl_global_hue_easing:
  assumes "random_source (Math_random H)" and "props_ok P"
    and "0 \<le> baseHue P" and "baseHue P \<le> 360"
  shows "(\<exists>s0. fl_mount P H now w h = Some s0 \<and>
            colorTransitionRef s0 = baseHue P \<and> targetColorRef s0 = baseHue P) \<and>
   (\<exists>s s'. fl_simulate P H now w h es = Some s \<and> fl_animate P H t s = Some s' \<and>
      \<bar>colorTransitionRef s' -
         lerp (colorTransitionRef s) (targetColorRef s') TRANSITION_SPEED64\<bar> \<le> 1 / 2 ^ 43 \<and>
      min (colorTransitionRef s) (targetColorRef s') - 1 / 2 ^ 43 \<le> colorTransitionRef s' \<and>
      colorTransitionRef s' \<le> max (colorTransitionRef s) (targetColorRef s') + 1 / 2 ^ 43 \<and>
      (1 / 2 ^ 37 < \<bar>colorTransitionRef s - targetColorRef s'\<bar> \<longrightarrow>
         \<bar>colorTransitionRef s' - targetColorRef s'\<bar> < \<bar>colorTransitionRef s - targetColorRef s'\<bar>))"
proof -
  from fl_mount_char[of P H now w h] have a:
    "\<exists>s0. fl_mount P H now w h = Some s0 \<and>
          colorTransitionRef s0 = baseHue P \<and> targetColorRef s0 = baseHue P"
    by blast
  from hueInv64_simulate[OF assms(1,3,4), of now w h es] obtain s where
    s: "fl_simulate P H now w h es = Some s" "hueInv64 P s"
    by blast
  have len: "length (particleProps s) = 9 * particleCount P" using s(2) by (simp add: hueInv64_def)
  from fl_animate_char[OF len, of H t] obtain s' where
    s': "fl_animate P H t s = Some s'"
      "colorTransitionRef s' = lerp64 (colorTransitionRef s) (targetColorRef s') TRANSITION_SPEED64"
    by blast
  from hueInv64_animate[OF assms(1) s(2), of t] s'(1) have inv': "hueInv64 P s'" by simp
  let ?c = "colorTransitionRef s" and ?g = "targetColorRef s'"
  have r: "0 \<le> ?c" "?c \<le> 360" "0 \<le> ?g" "?g \<le> 360"
    using s(2) inv' by (simp_all add: hueInv64_def)
  note b1 = lerp64_err[OF r] and b2 = lerp64_near_interval[OF r]
  have b3: "\<bar>colorTransitionRef s' - ?g\<bar> < \<bar>?c - ?g\<bar>" if "1 / 2 ^ 37 < \<bar>?c - ?g\<bar>"
    using lerp64_closer[OF r that] s'(2) by simp
  from a s(1) s'(1) b1 b2 b3 show ?thesis unfolding s'(2)[symmetric] by blast
qed

theorem fl_global_hue_easing_witness:
  "random_source (Math_random (const_host (1/2))) \<and> props_ok oneParticleProps \<and>
   0 \<le> baseHue oneParticleProps \<and> baseHue oneParticleProps \<le> 360 \<and>
   (\<exists>s s'. fl_simulate oneParticleProps (const_host (1/2)) 0 100 100 [] = Some s \<and>
      fl_animate oneParticleProps (const_host (1/2)) 20000 s = Some s' \<and>
      colorTransitionRef s = 220 \<and> targetColorRef s' = 180 \<and>
      1 / 2 ^ 37 < \<bar>colorTransitionRef s - targetColorRef s'\<bar> \<and>
      min (colorTransitionRef s) (targetColorRef s') - 1 / 2 ^ 43 \<le> colorTransitionRef s' \<and>
      colorTransitionRef s' \<le> max (colorTransitionRef s) (targetColorRef s') + 1 / 2 ^ 43 \<and>
      \<bar>colorTransitionRef s' - targetColorRef s'\<bar> < \<bar>colorTransitionRef s - targetColorRef s'\<bar>)"
proof -
  let ?P = oneParticleProps and ?H = "const_host (1/2)"
  have h: "0 \<le> baseHue ?P" "baseHue ?P \<le> 360"
    by (simp_all add: oneParticleProps_def defaultProps_def)
  from fl_global_hue_easing[OF half_random props_ok_default h, of 0 100 100 "[]" 20000]
  obtain s s' where
    s: "fl_simulate ?P ?H 0 100 100 [] = Some s"
      "fl_animate ?P ?H 20000 s = Some s'"
      "min (colorTransitionRef s) (targetColorRef s') - 1 / 2 ^ 43 \<le> colorTransitionRef s'"
      "colorTransitionRef s' \<le> max (colorTransitionRef s) (targetColorRef s') + 1 / 2 ^ 43"
      "1 / 2 ^ 37 < \<bar>colorTransitionRef s - targetColorRef s'\<bar> \<longrightarrow>
         \<bar>colorTransitionRef s' - targetColorRef s'\<bar> < \<bar>colorTransitionRef s - targetColorRef s'\<bar>"
    by blast
  from fl_mount_char[of ?P ?H 0 100 100] s(1) have
    m: "length (particleProps s) = 9 * particleCount ?P" "colorTransitionRef s = 220"
      "lastColorChangeRef s = 0"
    by (auto simp: fl_simulate_Nil oneParticleProps_def defaultProps_def)
  from fl_animate_char[OF m(1), of ?H 20000] s(2) m(3)
  have "targetColorRef s' = getNextColor64 (Math_random ?H (randCalls s))"
    by (auto simp: COLOR_CHANGE_INTERVAL_def)
  then have g: "targetColorRef s' = 180" by (simp add: const_host_def getNextColor64_half)
  have d: "1 / 2 ^ 37 < \<bar>colorTransitionRef s - targetColorRef s'\<bar>" unfolding m(2) g by simp
  with s(5) have "\<bar>colorTransitionRef s' - targetColorRef s'\<bar> < \<bar>colorTransitionRef s - targetColorRef s'\<bar>"
    by simp
  with s(1-4) m(2) g d have "\<exists>s s'. fl_simulate ?P ?H 0 100 100 [] = Some s \<and>
      fl_animate ?P ?H 20000 s = Some s' \<and>
      colorTransitionRef s = 220 \<and> targetColorRef s' = 180 \<and>
      1 / 2 ^ 37 < \<bar>colorTransitionRef s - targetColorRef s'\<bar> \<and>
      min (colorTransitionRef s) (targetColorRef s') - 1 / 2 ^ 43 \<le> colorTransitionRef s' \<and>
      colorTransitionRef s' \<le> max (colorTransitionRef s) (targetColorRef s') + 1 / 2 ^ 43 \<and>
      \<bar>colorTransitionRef s' - targetColorRef s'\<bar> < \<bar>colorTransitionRef s - targetColorRef s'\<bar>"
    by blast
  with half_random props_ok_default h show ?thesis by blast
qed

section \<open>Rounded values\<close>

lemma round_bin_representable:
  assumes p: "0 < p"
  shows "representable p emin (round_bin p emin x)"
proof (cases "x = 0")
  case True
  have "representable p emin (of_int 0 * pow2 emin)"
    unfolding representable_def by (intro exI[of _ 0] exI[of _ emin]) simp
  then show ?thesis using True by simp
next
  case False
  define u where "u = ulp_exp p emin x"
  define k where "k = rne (x / pow2 u)"
  have r: "round_bin p emin x = of_int k * pow2 u"
    using False by (simp add: round_bin_def u_def k_def)
  have ue: "emin \<le> u" and ua: "binade x + 1 - u \<le> int p" by (simp_all add: u_def ulp_exp_def)
  have "\<bar>x\<bar> < pow2 (binade x + 1)" using binade_bounds(2)[OF False] .
  also have "pow2 (binade x + 1) \<le> pow2 (int p + u)" using ua by simp
  also have "pow2 (int p + u) = 2 ^ p * pow2 u" by (simp add: pow2_add pow2_nat)
  finally have "\<bar>x\<bar> / pow2 u < 2 ^ p" by (simp add: pos_divide_less_eq)
  then have "\<bar>x / pow2 u\<bar> < 2 ^ p" by simp
  then have "x / pow2 u \<le> 2 ^ p" "- (2 ^ p) \<le> x / pow2 u" by linarith+
  then have y: "x / pow2 u \<le> of_int (2 ^ p)" "of_int (- (2 ^ p)) \<le> x / pow2 u"
    by simp_all
  from rne_le_int[OF y(1)] rne_ge_int[OF y(2)] have kb: "k \<le> 2 ^ p" "- (2 ^ p) \<le> k"
    by (simp_all add: k_def)
  have half: "(2::int) ^ p = 2 * 2 ^ (p - 1)" using p by (cases p) simp_all
  have hl: "(2::int) ^ (p - 1) < 2 ^ p" using half by simp
  have up: "pow2 (u + 1) = 2 * pow2 u" by (simp add: pow2_add pow2_1)
  consider "\<bar>k\<bar> < 2 ^ p" | "k = 2 ^ p" | "k = - (2 ^ p)" using kb by linarith
  then show ?thesis
  proof cases
    case 1
    then show ?thesis unfolding r representable_def using ue
      by (intro exI[of _ k] exI[of _ u]) simp
  next
    case 2
    have "of_int k * pow2 u = of_int (2 ^ (p - 1)) * pow2 (u + 1)"
      unfolding 2 up using half by simp
    moreover have "\<bar>(2::int) ^ (p - 1)\<bar> < 2 ^ p" using hl by simp
    ultimately show ?thesis unfolding r representable_def using ue
      by (intro exI[of _ "2 ^ (p - 1)"] exI[of _ "u + 1"]) simp
  next
    case 3
    have "of_int k * pow2 u = of_int (- (2 ^ (p - 1))) * pow2 (u + 1)"
      unfolding 3 up using half by simp
    moreover have "\<bar>- ((2::int) ^ (p - 1))\<bar> < 2 ^ p" using hl by simp
    ultimately show ?thesis unfolding r representable_def using ue
      by (intro exI[of _ "- (2 ^ (p - 1))"] exI[of _ "u + 1"]) simp
  qed
qed

lemma rd32_idem: "rd32 (rd32 x) = rd32 x"
  using round_bin_representable[of 24 "- 149" x] by (simp add: rd32_def round_bin_repr)

lemma stored_is_number:
  assumes "rd32 v = v"
  shows "rd64 v = v" "rd64 \<bar>v\<bar> = \<bar>v\<bar>"
proof -
  have "representable 24 (- 149) v"
    using round_bin_representable[of 24 "- 149" v] assms by (simp add: rd32_def)
  from representable_wider[OF this, of 53 "- 1074"] show v: "rd64 v = v" by (simp add: rd64_id)
  show "rd64 \<bar>v\<bar> = \<bar>v\<bar>" using v rd64_minus[of v] by (simp add: abs_if)
qed

section \<open>Direction components in the code's arithmetic\<close>

lemma lerp64_half_bounds:
  assumes "\<bar>v\<bar> \<le> 1" "\<bar>c\<bar> \<le> 1"
  shows "\<bar>lerp64 v c (1/2)\<bar> \<le> 1"
proof -
  have k: "0 \<le> sub64 1 (1/2)" "(0::real) \<le> 1/2" by (simp_all add: sub64_def)
  have hi: "lerp64 1 1 (1/2) = 1" by (simp add: lerp64_def sub64_def mul64_def add64_def)
  have "rd64 (- (1/2)) = - (1/2)" using rd64_minus[of "1/2"] by simp
  moreover have "rd64 (- 1) = - 1" using rd64_minus[of 1] by simp
  ultimately have lo: "lerp64 (- 1) (- 1) (1/2) = - 1"
    by (simp add: lerp64_def sub64_def mul64_def add64_def)
  have v: "- 1 \<le> v" "v \<le> 1" "- 1 \<le> c" "c \<le> 1" using assms by (simp_all add: abs_le_iff)
  from lerp64_mono[OF k v(1,3)] lerp64_mono[OF k v(2,4)] show ?thesis
    unfolding hi lo by (simp add: abs_le_iff)
qed

lemma fl_next_v_bounds:
  assumes "host_ok H" "\<bar>p_vx pp k\<bar> \<le> 1" "\<bar>p_vy pp k\<bar> \<le> 1"
  shows "\<bar>fl_next_vx H s pp k\<bar> \<le> 1" "\<bar>fl_next_vy H s pp k\<bar> \<le> 1"
    "\<bar>rd32 (fl_next_vx H s pp k)\<bar> \<le> 1" "\<bar>rd32 (fl_next_vy H s pp k)\<bar> \<le> 1"
proof -
  have c: "\<bar>Math_cos H x\<bar> \<le> 1" "\<bar>Math_sin H x\<bar> \<le> 1" for x
    using assms(1) by (simp_all add: host_ok_def)
  show x: "\<bar>fl_next_vx H s pp k\<bar> \<le> 1"
    unfolding fl_next_vx_def by (rule lerp64_half_bounds[OF assms(2) c(1)])
  show y: "\<bar>fl_next_vy H s pp k\<bar> \<le> 1"
    unfolding fl_next_vy_def by (rule lerp64_half_bounds[OF assms(3) c(2)])
  show "\<bar>rd32 (fl_next_vx H s pp k)\<bar> \<le> 1" using rd32_abs_le[OF x] by simp
  show "\<bar>rd32 (fl_next_vy H s pp k)\<bar> \<le> 1" using rd32_abs_le[OF y] by simp
qed

lemma step_between:
  assumes v: "\<bar>v\<bar> \<le> 1" and sp: "rd32 sp = sp"
  shows "rd32 (sub64 x \<bar>sp\<bar>) \<le> rd32 (add64 x (mul64 v sp))"
    "rd32 (add64 x (mul64 v sp)) \<le> rd32 (add64 x \<bar>sp\<bar>)"
proof -
  note d = stored_is_number[OF sp]
  have "\<bar>v * sp\<bar> \<le> 1 * \<bar>sp\<bar>" unfolding abs_mult using v by (intro mult_right_mono) simp_all
  then have b: "- \<bar>sp\<bar> \<le> v * sp" "v * sp \<le> \<bar>sp\<bar>" by (simp_all add: abs_le_iff)
  from rd64_mono[OF b(1)] rd64_mono[OF b(2)]
  have m: "- \<bar>sp\<bar> \<le> mul64 v sp" "mul64 v sp \<le> \<bar>sp\<bar>"
    using d(2) rd64_minus[of "\<bar>sp\<bar>"] by (simp_all add: mul64_def)
  have "sub64 x \<bar>sp\<bar> \<le> add64 x (mul64 v sp)"
    unfolding sub64_def add64_def using m(1) by (intro rd64_mono) simp
  then show "rd32 (sub64 x \<bar>sp\<bar>) \<le> rd32 (add64 x (mul64 v sp))" by (rule rd32_mono)
  have "add64 x (mul64 v sp) \<le> add64 x \<bar>sp\<bar>"
    unfolding add64_def using m(2) by (intro rd64_mono) simp
  then show "rd32 (add64 x (mul64 v sp)) \<le> rd32 (add64 x \<bar>sp\<bar>)" by (rule rd32_mono)
qed

lemma velInv64_mount:
  assumes m: "fl_mount P H now w h = Some s"
  shows "velInv64 P s \<and>
         (\<forall>k < particleCount P. p_vx (particleProps s) k = 0 \<and> p_vy (particleProps s) k = 0)"
proof -
  from fl_mount_char[of P H now w h] m have
    s: "length (particleProps s) = 9 * particleCount P"
      "\<forall>k < particleCount P. fl_spawnedAt P H (6 * k) s (particleProps s) k"
    by auto
  then show ?thesis by (auto simp: velInv64_def fl_spawnedAt_def rd32_idem)
qed

lemma velInv64_animate:
  assumes ok: "host_ok H" and inv: "velInv64 P s"
  shows "\<exists>s'. fl_animate P H now s = Some s' \<and> velInv64 P s' \<and>
           (\<forall>k < particleCount P.
              if inBounds s (particleProps s) k \<and> \<not> fl_expired (particleProps s) k
              then rd32 (sub64 (p_x (particleProps s) k) \<bar>p_speed (particleProps s) k\<bar>)
                     \<le> p_x (particleProps s') k \<and>
                   p_x (particleProps s') k
                     \<le> rd32 (add64 (p_x (particleProps s) k) \<bar>p_speed (particleProps s) k\<bar>) \<and>
                   rd32 (sub64 (p_y (particleProps s) k) \<bar>p_speed (particleProps s) k\<bar>)
                     \<le> p_y (particleProps s') k \<and>
                   p_y (particleProps s') k
                     \<le> rd32 (add64 (p_y (particleProps s) k) \<bar>p_speed (particleProps s) k\<bar>) \<and>
                   p_speed (particleProps s') k = p_speed (particleProps s) k
              else p_vx (particleProps s') k = 0 \<and> p_vy (particleProps s') k = 0)"
proof -
  have len: "length (particleProps s) = 9 * particleCount P" using inv by (simp add: velInv64_def)
  from fl_animate_char[OF len, of H now] obtain s' where
    s': "fl_animate P H now s = Some s'"
      "length (particleProps s') = length (particleProps s)"
      "canvas_width s' = canvas_width s" "canvas_height s' = canvas_height s"
      "\<forall>k < particleCount P. fl_stepped P H s' (particleProps s) (particleProps s') k"
    by blast
  have ib: "inBounds s' pp k = inBounds s pp k" for pp k
    using s'(3,4) by (simp add: inBounds_def outOfBounds_def)
  have each: "(\<bar>p_vx (particleProps s') k\<bar> \<le> 1 \<and> \<bar>p_vy (particleProps s') k\<bar> \<le> 1 \<and>
       rd32 (p_speed (particleProps s') k) = p_speed (particleProps s') k) \<and>
      (if inBounds s (particleProps s) k \<and> \<not> fl_expired (particleProps s) k
       then rd32 (sub64 (p_x (particleProps s) k) \<bar>p_speed (particleProps s) k\<bar>)
              \<le> p_x (particleProps s') k \<and>
            p_x (particleProps s') k
              \<le> rd32 (add64 (p_x (particleProps s) k) \<bar>p_speed (particleProps s) k\<bar>) \<and>
            rd32 (sub64 (p_y (particleProps s) k) \<bar>p_speed (particleProps s) k\<bar>)
              \<le> p_y (particleProps s') k \<and>
            p_y (particleProps s') k
              \<le> rd32 (add64 (p_y (particleProps s) k) \<bar>p_speed (particleProps s) k\<bar>) \<and>
            p_speed (particleProps s') k = p_speed (particleProps s) k
       else p_vx (particleProps s') k = 0 \<and> p_vy (particleProps s') k = 0)"
    if k: "k < particleCount P" for k
  proof -
    have old: "\<bar>p_vx (particleProps s) k\<bar> \<le> 1" "\<bar>p_vy (particleProps s) k\<bar> \<le> 1"
      and sp: "rd32 (p_speed (particleProps s) k) = p_speed (particleProps s) k"
      using inv k by (simp_all add: velInv64_def)
    from s'(5) k have st: "fl_stepped P H s' (particleProps s) (particleProps s') k" by simp
    show ?thesis
    proof (cases "inBounds s (particleProps s) k \<and> \<not> fl_expired (particleProps s) k")
      case True
      with st ib have mv: "fl_movedTo H s' (particleProps s) (particleProps s') k"
        by (simp add: fl_stepped_def)
      note v = fl_next_v_bounds[OF ok old, of s']
      note bx = step_between[OF v(1) sp, of "p_x (particleProps s) k"]
      note by' = step_between[OF v(2) sp, of "p_y (particleProps s) k"]
      have "p_x (particleProps s') k = rd32 (add64 (p_x (particleProps s) k)
              (mul64 (fl_next_vx H s' (particleProps s) k) (p_speed (particleProps s) k)))"
        "p_y (particleProps s') k = rd32 (add64 (p_y (particleProps s) k)
              (mul64 (fl_next_vy H s' (particleProps s) k) (p_speed (particleProps s) k)))"
        "p_vx (particleProps s') k = rd32 (fl_next_vx H s' (particleProps s) k)"
        "p_vy (particleProps s') k = rd32 (fl_next_vy H s' (particleProps s) k)"
        "p_speed (particleProps s') k = p_speed (particleProps s) k"
        using mv by (simp_all add: fl_movedTo_def fl_next_x_def fl_next_y_def)
      then show ?thesis using True v(3,4) bx by' sp by simp
    next
      case False
      with st ib obtain r where "fl_spawnedAt P H r s' (particleProps s') k"
        by (auto simp: fl_stepped_def)
      then show ?thesis using False by (auto simp: fl_spawnedAt_def rd32_idem)
    qed
  qed
  have "velInv64 P s'" using each s'(2) len by (simp add: velInv64_def)
  then show ?thesis using s'(1) each by blast
qed

lemma velInv64_resize: "velInv64 P s \<Longrightarrow> velInv64 P (resize w h s)"
  by (simp add: velInv64_def resize_def)

lemma velInv64_simulate:
  assumes "host_ok H"
  shows "\<exists>s. fl_simulate P H now w h es = Some s \<and> velInv64 P s"
proof (rule fl_simulate_rule)
  fix s assume "fl_mount P H now w h = Some s"
  then show "velInv64 P s" using velInv64_mount by blast
next
  fix e and t :: vortex assume "velInv64 P t"
  then show "\<exists>t'. fl_handle P H e t = Some t' \<and> velInv64 P t'"
    using velInv64_animate[OF assms, of P t] velInv64_resize[of P t]
    by (cases e) (simp_all, blast)
qed

lemma host_ok_const:
  assumes "0 \<le> u" "u < 1"
  shows "host_ok (const_host u)"
  using assms rd64_abs_le[of "cos x" 1 for x] rd64_abs_le[of "sin x" 1 for x]
  by (simp add: host_ok_def const_host_def)

lemma rd64_numeral: "(numeral n :: int) < 2 ^ 53 \<Longrightarrow> rd64 (numeral n) = numeral n"
  using rd64_int[of "numeral n"] by simp

lemma rd32_numeral: "(numeral n :: int) < 2 ^ 24 \<Longrightarrow> rd32 (numeral n) = numeral n"
  using rd32_int[of "numeral n"] by simp

lemma const_host_move:
  assumes len: "length (particleProps s) = 9 * particleCount P" and k: "0 < particleCount P"
    and ib: "inBounds s (particleProps s) 0" and ne: "\<not> fl_expired (particleProps s) 0"
  shows "\<exists>s'. fl_animate P (const_host u) now s = Some s' \<and>
           length (particleProps s') = length (particleProps s) \<and>
           canvas_width s' = canvas_width s \<and> canvas_height s' = canvas_height s \<and>
           p_x (particleProps s') 0 =
             rd32 (add64 (p_x (particleProps s) 0)
                    (mul64 (lerp64 (p_vx (particleProps s) 0) 1 (1/2)) (p_speed (particleProps s) 0))) \<and>
           p_y (particleProps s') 0 =
             rd32 (add64 (p_y (particleProps s) 0)
                    (mul64 (lerp64 (p_vy (particleProps s) 0) 0 (1/2)) (p_speed (particleProps s) 0))) \<and>
           p_vx (particleProps s') 0 = rd32 (lerp64 (p_vx (particleProps s) 0) 1 (1/2)) \<and>
           p_vy (particleProps s') 0 = rd32 (lerp64 (p_vy (particleProps s) 0) 0 (1/2)) \<and>
           p_life (particleProps s') 0 = rd32 (add64 (p_life (particleProps s) 0) 1) \<and>
           p_ttl (particleProps s') 0 = p_ttl (particleProps s) 0 \<and>
           p_speed (particleProps s') 0 = p_speed (particleProps s) 0"
proof -
  from fl_animate_char[OF len, of "const_host u" now] obtain s' where
    s': "fl_animate P (const_host u) now s = Some s'"
      "length (particleProps s') = length (particleProps s)"
      "canvas_width s' = canvas_width s" "canvas_height s' = canvas_height s"
      "\<forall>k < particleCount P. fl_stepped P (const_host u) s' (particleProps s) (particleProps s') k"
    by blast
  have "inBounds s' (particleProps s) 0"
    using ib s'(3,4) by (simp add: inBounds_def outOfBounds_def)
  with s'(5) k ne have mv: "fl_movedTo (const_host u) s' (particleProps s) (particleProps s') 0"
    by (simp add: fl_stepped_def)
  have a: "fl_angle (const_host u) s' (particleProps s) 0 = 0"
    by (simp add: fl_angle_def const_host_def mul64_def)
  have v: "fl_next_vx (const_host u) s' (particleProps s) 0 = lerp64 (p_vx (particleProps s) 0) 1 (1/2)"
    "fl_next_vy (const_host u) s' (particleProps s) 0 = lerp64 (p_vy (particleProps s) 0) 0 (1/2)"
    by (simp_all add: fl_next_vx_def fl_next_vy_def a) (simp_all add: const_host_def)
  show ?thesis
    using s'(1-4) mv unfolding fl_movedTo_def fl_next_x_def fl_next_y_def v by blast
qed

lemma half_steps:
  "lerp64 0 1 (1/2) = 1/2" "lerp64 (1/2) 1 (1/2) = 3/4" "lerp64 0 0 (1/2) = 0"
  "rd32 (1/2) = 1/2" "rd32 (3/4) = 3/4"
proof -
  have q: "rd64 (1/4) = 1/4" "rd64 (3/4) = 3/4"
    using rd64_dyadic[of 1 2] rd64_dyadic[of 3 2] by simp_all
  show "lerp64 0 1 (1/2) = 1/2" by (simp add: lerp64_def sub64_def mul64_def add64_def)
  show "lerp64 (1/2) 1 (1/2) = 3/4" by (simp add: lerp64_def sub64_def mul64_def add64_def q)
  show "lerp64 0 0 (1/2) = 0" by (rule lerp64_zero)
  show "rd32 (1/2) = 1/2" "rd32 (3/4) = 3/4"
    using rd32_dyadic[of 1 1] rd32_dyadic[of 3 2] by simp_all
qed

lemma slow_x1: "rd32 (add64 80 (mul64 (1/2) (3 / 524288))) = 80"
proof -
  have m: "mul64 (1/2) (3 / 524288) = 3 / 2 ^ 20"
    unfolding mul64_def using rd64_dyadic[of 3 20] by simp
  have a: "add64 80 (3 / 2 ^ 20) = 83886083 / 2 ^ 20"
    unfolding add64_def using rd64_dyadic[of 83886083 20] by simp
  have "rd32 (83886083 / 2 ^ 20) = of_int 10485760 * pow2 (6 - 23)"
    by (rule rd32_near) (simp_all add: pow2_simps)
  then show ?thesis unfolding m a by (simp add: pow2_simps)
qed

lemma slow_x2: "rd32 (add64 80 (mul64 (3/4) (3 / 524288))) = 10485761 / 131072"
proof -
  have m: "mul64 (3/4) (3 / 524288) = 9 / 2 ^ 21"
    unfolding mul64_def using rd64_dyadic[of 9 21] by simp
  have a: "add64 80 (9 / 2 ^ 21) = 167772169 / 2 ^ 21"
    unfolding add64_def using rd64_dyadic[of 167772169 21] by simp
  have "rd32 (167772169 / 2 ^ 21) = of_int 10485761 * pow2 (6 - 23)"
    by (rule rd32_near) (simp_all add: pow2_simps)
  then show ?thesis unfolding m a by (simp add: pow2_simps)
qed

lemma props_ok_slow: "props_ok slowProps"
proof -
  have "is_double 400" "is_double (3 / 524288)" "is_double 0" "is_double 1" "is_double 2"
    "is_double 220"
    using is_double_int[of 400] is_double_dyadic[of 3 19] is_double_int[of 0] is_double_int[of 1]
      is_double_int[of 2] is_double_int[of 220]
    by simp_all
  then show ?thesis by (simp add: props_ok_def slowProps_def pow2_numeral)
qed

lemma slow_mount:
  assumes "fl_mount slowProps (const_host (1/2)) 0 160 100 = Some s"
  shows "length (particleProps s) = 9 * particleCount slowProps"
    "canvas_width s = 160" "canvas_height s = 100"
    "p_x (particleProps s) 0 = 80" "p_y (particleProps s) 0 = 50"
    "p_vx (particleProps s) 0 = 0" "p_vy (particleProps s) 0 = 0"
    "p_life (particleProps s) 0 = 0" "p_ttl (particleProps s) 0 = 125"
    "p_speed (particleProps s) 0 = 3 / 524288"
proof -
  from fl_mount_char[of slowProps "const_host (1/2)" 0 160 100] assms have
    s: "length (particleProps s) = 9 * particleCount slowProps"
      "canvas_width s = 160" "canvas_height s = 100" "center s = (80, 50)"
      "fl_spawnedAt slowProps (const_host (1/2)) 0 s (particleProps s) 0"
    by (auto simp: slowProps_def)
  have d: "rd64 (3 / 524288) = 3 / 524288" "rd32 (3 / 524288) = 3 / 524288"
    using rd64_dyadic[of 3 19] rd32_dyadic[of 3 19] by simp_all
  show "length (particleProps s) = 9 * particleCount slowProps"
    "canvas_width s = 160" "canvas_height s = 100"
    using s by simp_all
  show "p_x (particleProps s) 0 = 80" "p_y (particleProps s) 0 = 50"
    "p_vx (particleProps s) 0 = 0" "p_vy (particleProps s) 0 = 0"
    "p_life (particleProps s) 0 = 0" "p_ttl (particleProps s) 0 = 125"
    "p_speed (particleProps s) 0 = 3 / 524288"
    using s(2,4,5)
    by (simp_all add: fl_spawnedAt_def const_host_def rand64_def randRange64_def add64_def
        mul64_def sub64_def baseTTL_def rangeTTL_def slowProps_def rd64_numeral rd32_numeral d)
qed

lemma slow_frame:
  assumes len: "length (particleProps s) = 9 * particleCount slowProps"
    and dims: "canvas_width s = 160" "canvas_height s = 100"
    and f: "p_x (particleProps s) 0 = 80" "p_y (particleProps s) 0 = 50"
      "p_vy (particleProps s) 0 = 0" "p_life (particleProps s) 0 = real j" "j < 100"
      "p_ttl (particleProps s) 0 = 125" "p_speed (particleProps s) 0 = 3 / 524288"
  shows "\<exists>s'. fl_animate slowProps (const_host (1/2)) now s = Some s' \<and>
           length (particleProps s') = 9 * particleCount slowProps \<and>
           canvas_width s' = 160 \<and> canvas_height s' = 100 \<and>
           p_x (particleProps s') 0 =
             rd32 (add64 80 (mul64 (lerp64 (p_vx (particleProps s) 0) 1 (1/2)) (3 / 524288))) \<and>
           p_y (particleProps s') 0 = 50 \<and>
           p_vx (particleProps s') 0 = rd32 (lerp64 (p_vx (particleProps s) 0) 1 (1/2)) \<and>
           p_vy (particleProps s') 0 = 0 \<and>
           p_life (particleProps s') 0 = real (Suc j) \<and>
           p_ttl (particleProps s') 0 = 125 \<and> p_speed (particleProps s') 0 = 3 / 524288"
proof -
  have k: "0 < particleCount slowProps" by (simp add: slowProps_def)
  have ib: "inBounds s (particleProps s) 0"
    using dims f(1,2) by (simp add: inBounds_def outOfBounds_def)
  have up: "rd32 (add64 (real j) 1) = real (Suc j)"
  proof -
    have e: "real j + 1 = real_of_int (int (Suc j))" by simp
    have b: "\<bar>int (Suc j)\<bar> < 2 ^ 24" "\<bar>int (Suc j)\<bar> < 2 ^ 53" using f(5) by simp_all
    have "rd32 (rd64 (real_of_int (int (Suc j)))) = real_of_int (int (Suc j))"
      unfolding rd64_int[OF b(2)] rd32_int[OF b(1)] ..
    then show ?thesis unfolding add64_def e by simp
  qed
  have ne: "\<not> fl_expired (particleProps s) 0"
    unfolding fl_expired_def f(4,6) up using f(5) by simp
  from const_host_move[OF len k ib ne, of "1/2" now] obtain s' where
    s': "fl_animate slowProps (const_host (1/2)) now s = Some s'"
      "length (particleProps s') = length (particleProps s)"
      "canvas_width s' = canvas_width s" "canvas_height s' = canvas_height s"
      "p_x (particleProps s') 0 =
             rd32 (add64 (p_x (particleProps s) 0)
                    (mul64 (lerp64 (p_vx (particleProps s) 0) 1 (1/2)) (p_speed (particleProps s) 0)))"
      "p_y (particleProps s') 0 =
             rd32 (add64 (p_y (particleProps s) 0)
                    (mul64 (lerp64 (p_vy (particleProps s) 0) 0 (1/2)) (p_speed (particleProps s) 0)))"
      "p_vx (particleProps s') 0 = rd32 (lerp64 (p_vx (particleProps s) 0) 1 (1/2))"
      "p_vy (particleProps s') 0 = rd32 (lerp64 (p_vy (particleProps s) 0) 0 (1/2))"
      "p_life (particleProps s') 0 = rd32 (add64 (p_life (particleProps s) 0) 1)"
      "p_ttl (particleProps s') 0 = p_ttl (particleProps s) 0"
      "p_speed (particleProps s') 0 = p_speed (particleProps s) 0"
    by blast
  have y: "p_y (particleProps s') 0 = 50"
    unfolding s'(6) f half_steps(3) by (simp add: mul64_def add64_def rd64_numeral rd32_numeral)
  have vy: "p_vy (particleProps s') 0 = 0" unfolding s'(8) f half_steps(3) by simp
  show ?thesis
    using s'(1) s'(2)[unfolded len] s'(3,4)[unfolded dims] s'(5)[unfolded f] y s'(7) vy
      s'(9)[unfolded f up] s'(10,11)[unfolded f]
    by blast
qed




end
